(* ===== verification/Rust_Prelude.thy ===== *)
theory Rust_Prelude
  imports Main "HOL-Library.Word" "HOL-Library.Multiset"
begin

text \<open>
  The parts of Rust that every component uses: panics and \<open>Result\<close> values as a sum
  type, machine integers with overflow checks, bounds-checked indexing, and the two loop
  forms \<open>mapM\<close> (an iterator collected into a vector, stopping at the first panic) and
  \<open>foldM\<close> (a \<open>for\<close> loop over mutable state).

  Arithmetic on \<open>u64\<close>, \<open>u32\<close>, \<open>u16\<close> and \<open>u8\<close> is the arithmetic of a build
  with overflow checks: an operation whose mathematical result does not fit panics.
  Lengths and vector indices (\<open>usize\<close>) are natural numbers where the source only
  compares, increments and indexes with them.
\<close>

named_theorems result_simps \<open>equations that run the error monad\<close>
named_theorems checked_simps \<open>characterisations of overflow-checked arithmetic\<close>

section \<open>Panics and results\<close>

datatype panic =
    ArithOverflow
  | DivideByZero
  | IndexOutOfBounds
  | UnwrapNone
  | UnwrapErr
  | AssertFailed
  | Unreachable
  | ExplicitPanic

type_synonym 'a res = "panic + 'a"

type_synonym u8 = "8 word"
type_synonym u16 = "16 word"
type_synonym u32 = "32 word"
type_synonym u64 = "64 word"

abbreviation Ok :: "'a \<Rightarrow> 'e + 'a" where "Ok \<equiv> Inr"
abbreviation Err :: "'e \<Rightarrow> 'e + 'a" where "Err \<equiv> Inl"

definition rbind :: "'e + 'a \<Rightarrow> ('a \<Rightarrow> 'e + 'b) \<Rightarrow> 'e + 'b" where
  "rbind m f = (case m of Inl e \<Rightarrow> Inl e | Inr x \<Rightarrow> f x)"

lemma rbind_Inr [simp, result_simps]: "rbind (Inr x) f = f x"
  by (simp add: rbind_def)

lemma rbind_Inl [simp, result_simps]: "rbind (Inl e) f = Inl e"
  by (simp add: rbind_def)

lemma rbind_eq_Inr [simp]: "rbind m f = Inr y \<longleftrightarrow> (\<exists>x. m = Inr x \<and> f x = Inr y)"
  by (cases m) auto

lemma rbind_eq_Inl: "rbind m f = Inl e \<longleftrightarrow> m = Inl e \<or> (\<exists>x. m = Inr x \<and> f x = Inl e)"
  by (cases m) auto

lemma rbind_assoc: "rbind (rbind m f) g = rbind m (\<lambda>x. rbind (f x) g)"
  by (cases m) auto

lemma rbind_cong [fundef_cong]:
  "m = m' \<Longrightarrow> (\<And>x. m' = Inr x \<Longrightarrow> f x = f' x) \<Longrightarrow> rbind m f = rbind m' f'"
  by (cases m') auto

text \<open>\<open>assert!(b)\<close>, \<open>Option::unwrap\<close> and \<open>Result::unwrap\<close>.\<close>

definition assert_that :: "bool \<Rightarrow> unit res" where
  "assert_that b = (if b then Inr () else Inl AssertFailed)"

lemma assert_that_eq_Inr [simp, result_simps]: "assert_that b = Inr u \<longleftrightarrow> b"
  by (simp add: assert_that_def)

lemma assert_that_True [simp]: "assert_that True = Inr ()"
  by (simp add: assert_that_def)

definition unwrap :: "'a option \<Rightarrow> 'a res" where
  "unwrap x = (case x of None \<Rightarrow> Inl UnwrapNone | Some a \<Rightarrow> Inr a)"

lemma unwrap_Some [simp, result_simps]: "unwrap (Some a) = Inr a"
  by (simp add: unwrap_def)

lemma unwrap_None [simp, result_simps]: "unwrap None = Inl UnwrapNone"
  by (simp add: unwrap_def)

lemma unwrap_eq_Inr [simp]: "unwrap x = Inr a \<longleftrightarrow> x = Some a"
  by (cases x) auto

definition unwrap_ok :: "'e + 'a \<Rightarrow> 'a res" where
  "unwrap_ok r = (case r of Inl _ \<Rightarrow> Inl UnwrapErr | Inr a \<Rightarrow> Inr a)"

lemma unwrap_ok_eq_Inr [simp]: "unwrap_ok r = Inr a \<longleftrightarrow> r = Inr a"
  by (cases r) (auto simp: unwrap_ok_def)

lemma unwrap_ok_Inr [simp, result_simps]: "unwrap_ok (Inr a) = Inr a"
  by (simp add: unwrap_ok_def)

text \<open>\<open>v[i]\<close> on a slice or vector.\<close>

definition index_at :: "'a list \<Rightarrow> nat \<Rightarrow> 'a res" where
  "index_at xs i = (if i < length xs then Inr (xs ! i) else Inl IndexOutOfBounds)"

lemma index_at_ok [simp]: "i < length xs \<Longrightarrow> index_at xs i = Inr (xs ! i)"
  by (simp add: index_at_def)

lemma index_at_eq_Inr [simp]: "index_at xs i = Inr x \<longleftrightarrow> i < length xs \<and> x = xs ! i"
  by (auto simp: index_at_def)

section \<open>Overflow-checked arithmetic\<close>

definition add_c :: "'a::len word \<Rightarrow> 'a word \<Rightarrow> 'a word res" where
  "add_c a b = (if unat a + unat b < 2 ^ LENGTH('a) then Inr (a + b) else Inl ArithOverflow)"

definition sub_c :: "'a::len word \<Rightarrow> 'a word \<Rightarrow> 'a word res" where
  "sub_c a b = (if unat b \<le> unat a then Inr (a - b) else Inl ArithOverflow)"

definition mul_c :: "'a::len word \<Rightarrow> 'a word \<Rightarrow> 'a word res" where
  "mul_c a b = (if unat a * unat b < 2 ^ LENGTH('a) then Inr (a * b) else Inl ArithOverflow)"

definition div_c :: "'a::len word \<Rightarrow> 'a word \<Rightarrow> 'a word res" where
  "div_c a b = (if b = 0 then Inl DivideByZero else Inr (a div b))"

definition mod_c :: "'a::len word \<Rightarrow> 'a word \<Rightarrow> 'a word res" where
  "mod_c a b = (if b = 0 then Inl DivideByZero else Inr (a mod b))"

lemma add_c_eq_Inr [checked_simps]:
  fixes a b c :: "'a::len word"
  shows "add_c a b = Inr c \<longleftrightarrow> unat c = unat a + unat b"
proof
  assume "add_c a b = Inr c"
  then show "unat c = unat a + unat b"
    by (auto simp: add_c_def unat_word_ariths split: if_splits)
next
  assume eq: "unat c = unat a + unat b"
  have "unat c < 2 ^ LENGTH('a)" by (rule unsigned_less)
  with eq have lt: "unat a + unat b < 2 ^ LENGTH('a)" by simp
  then have "unat (a + b) = unat c"
    using eq by (simp add: unat_word_ariths)
  then show "add_c a b = Inr c" using lt by (simp add: add_c_def word_unat_eq_iff)
qed

lemma sub_c_eq_Inr [checked_simps]:
  fixes a b c :: "'a::len word"
  shows "sub_c a b = Inr c \<longleftrightarrow> unat c + unat b = unat a"
proof
  assume "sub_c a b = Inr c"
  then have "unat b \<le> unat a" "c = a - b" by (auto simp: sub_c_def split: if_splits)
  then show "unat c + unat b = unat a"
    by (simp add: unat_sub word_le_nat_alt)
next
  assume eq: "unat c + unat b = unat a"
  then have le: "unat b \<le> unat a" by simp
  then have "unat (a - b) = unat c" using eq by (simp add: unat_sub word_le_nat_alt)
  then show "sub_c a b = Inr c" using le by (simp add: sub_c_def word_unat_eq_iff)
qed

lemma mul_c_eq_Inr [checked_simps]:
  fixes a b c :: "'a::len word"
  shows "mul_c a b = Inr c \<longleftrightarrow> unat c = unat a * unat b"
proof
  assume "mul_c a b = Inr c"
  then show "unat c = unat a * unat b"
    by (auto simp: mul_c_def unat_word_ariths split: if_splits)
next
  assume eq: "unat c = unat a * unat b"
  have "unat c < 2 ^ LENGTH('a)" by (rule unsigned_less)
  with eq have lt: "unat a * unat b < 2 ^ LENGTH('a)" by simp
  then have "unat (a * b) = unat c"
    using eq by (simp add: unat_word_ariths)
  then show "mul_c a b = Inr c" using lt by (simp add: mul_c_def word_unat_eq_iff)
qed

lemma add_c_Inl: "add_c a b = Inl e \<longleftrightarrow> e = ArithOverflow \<and> 2 ^ LENGTH('a) \<le> unat a + unat b"
  for a b :: "'a::len word"
  by (auto simp: add_c_def)

text \<open>Sufficient conditions for a checked operation to return.\<close>

lemma add_c_ok:
  "unat a + unat b < 2 ^ LENGTH('a) \<Longrightarrow> \<exists>c. add_c a b = Inr c \<and> unat c = unat a + unat b"
  for a b :: "'a::len word"
  by (simp add: add_c_def unat_word_ariths)

lemma mul_c_ok:
  "unat a * unat b < 2 ^ LENGTH('a) \<Longrightarrow> \<exists>c. mul_c a b = Inr c \<and> unat c = unat a * unat b"
  for a b :: "'a::len word"
  by (simp add: mul_c_def unat_word_ariths)

lemma sub_c_ok: "unat b \<le> unat a \<Longrightarrow> \<exists>c. sub_c a b = Inr c \<and> unat c + unat b = unat a"
  for a b :: "'a::len word"
  by (simp add: sub_c_def unat_sub word_le_nat_alt)

text \<open>Subtraction at an unsigned type whose values are modelled as naturals.\<close>

definition sub_nat :: "nat \<Rightarrow> nat \<Rightarrow> nat res" where
  "sub_nat a b = (if b \<le> a then Inr (a - b) else Inl ArithOverflow)"

lemma sub_nat_eq_Inr [simp]: "sub_nat a b = Inr c \<longleftrightarrow> a = b + c"
  by (auto simp: sub_nat_def)

section \<open>Loops\<close>

fun mapM :: "('a \<Rightarrow> 'e + 'b) \<Rightarrow> 'a list \<Rightarrow> 'e + 'b list" where
  "mapM f [] = Inr []"
| "mapM f (x # xs) = rbind (f x) (\<lambda>y. rbind (mapM f xs) (\<lambda>ys. Inr (y # ys)))"

fun foldM :: "('s \<Rightarrow> 'a \<Rightarrow> 'e + 's) \<Rightarrow> 's \<Rightarrow> 'a list \<Rightarrow> 'e + 's" where
  "foldM f s [] = Inr s"
| "foldM f s (x # xs) = rbind (f s x) (\<lambda>s'. foldM f s' xs)"

lemma mapM_cong [fundef_cong]:
  "xs = ys \<Longrightarrow> (\<And>x. x \<in> set ys \<Longrightarrow> f x = g x) \<Longrightarrow> mapM f xs = mapM g ys"
  by (induction ys arbitrary: xs) auto

lemma mapM_eq_Inr: "mapM f xs = Inr ys \<longleftrightarrow> list_all2 (\<lambda>x y. f x = Inr y) xs ys"
  by (induction xs arbitrary: ys) (auto simp: list_all2_Cons1)

lemma mapM_length: "mapM f xs = Inr ys \<Longrightarrow> length ys = length xs"
  by (simp add: mapM_eq_Inr list_all2_lengthD)

lemma mapM_map: "(\<And>x. x \<in> set xs \<Longrightarrow> f x = Inr (g x)) \<Longrightarrow> mapM f xs = Inr (map g xs)"
  by (induction xs) auto

lemma foldM_append: "foldM f s (xs @ ys) = rbind (foldM f s xs) (\<lambda>s'. foldM f s' ys)"
  by (induction xs arbitrary: s) (auto simp: rbind_assoc)

text \<open>The loop rule: an invariant that every iteration keeps holds after the loop.\<close>

lemma foldM_invariant:
  assumes "foldM f s xs = Inr s'" and "P s"
    and "\<And>s x s'. x \<in> set xs \<Longrightarrow> P s \<Longrightarrow> f s x = Inr s' \<Longrightarrow> P s'"
  shows "P s'"
  using assms by (induction xs arbitrary: s) auto

text \<open>A loop whose body cannot panic under the invariant does not panic.\<close>

lemma foldM_total:
  assumes "P s"
    and "\<And>s x. x \<in> set xs \<Longrightarrow> P s \<Longrightarrow> \<exists>s'. f s x = Inr s' \<and> P s'"
  shows "\<exists>s'. foldM f s xs = Inr s' \<and> P s'"
  using assms
proof (induction xs arbitrary: s)
  case (Cons x xs)
  from Cons.prems(2) [of x s] Cons.prems(1) obtain s1 where s1: "f s x = Inr s1" "P s1"
    by auto
  from Cons.IH [OF s1(2)] Cons.prems(2) obtain s' where "foldM f s1 xs = Inr s'" "P s'"
    by (meson list.set_intros(2))
  with s1 show ?case by auto
qed simp

section \<open>Parsing unsigned integers\<close>

text \<open>
  \<open>str::parse\<close> at an unsigned type of the given width: an optional plus sign, then one
  or more decimal digits, with a value that fits.
\<close>

definition digit_val :: "char \<Rightarrow> nat" where
  "digit_val c = of_char c - 48"

definition is_digit :: "char \<Rightarrow> bool" where
  "is_digit c \<longleftrightarrow> (48::nat) \<le> of_char c \<and> of_char c \<le> (57::nat)"

definition parse_uint :: "nat \<Rightarrow> string \<Rightarrow> nat option" where
  "parse_uint bits s =
     (let ds = (case s of c # cs \<Rightarrow> if c = CHR ''+'' then cs else s | [] \<Rightarrow> []) in
      if ds = [] \<or> \<not> list_all is_digit ds then None
      else let v = foldl (\<lambda>v d. 10 * v + digit_val d) 0 ds in
           if v < 2 ^ bits then Some v else None)"

abbreviation parse_u64 :: "string \<Rightarrow> nat option" where
  "parse_u64 \<equiv> parse_uint 64"

text \<open>The decimal rendering of a natural number, and that parsing it gives the number back.\<close>

fun show_nat :: "nat \<Rightarrow> string" where
  "show_nat n =
     (if n < 10 then [char_of (48 + n)] else show_nat (n div 10) @ [char_of (48 + n mod 10)])"

declare show_nat.simps [simp del]

lemma digit_char: "d < 10 \<Longrightarrow> is_digit (char_of (48 + d)) \<and> digit_val (char_of (48 + d)) = d"
  for d :: nat
  by (auto simp: is_digit_def digit_val_def of_char_of)

lemma show_nat_digits:
  "show_nat n \<noteq> [] \<and> list_all is_digit (show_nat n) \<and>
   foldl (\<lambda>v d. 10 * v + digit_val d) 0 (show_nat n) = n"
proof (induction n rule: show_nat.induct)
  case (1 n)
  show ?case
  proof (cases "n < 10")
    case True
    then show ?thesis by (simp add: show_nat.simps [of n] digit_char)
  next
    case False
    with 1 show ?thesis
      by (simp add: show_nat.simps [of n] digit_char)
  qed
qed

lemma parse_uint_show_nat: "n < 2 ^ bits \<Longrightarrow> parse_uint bits (show_nat n) = Some n"
proof -
  assume n: "n < 2 ^ bits"
  obtain c cs where c: "show_nat n = c # cs" using show_nat_digits [of n] by (cases "show_nat n") auto
  then have "is_digit c" using show_nat_digits [of n] by simp
  then have "c \<noteq> CHR ''+''" by (auto simp: is_digit_def)
  with c n show_nat_digits [of n] show ?thesis by (simp add: parse_uint_def)
qed

section \<open>Lists\<close>

text \<open>\<open>Vec::remove(i)\<close>: the element at \<open>i\<close> is taken out, the others keep their order.\<close>

definition remove_at :: "nat \<Rightarrow> 'a list \<Rightarrow> 'a list" where
  "remove_at i xs = take i xs @ drop (Suc i) xs"

lemma length_remove_at [simp]: "i < length xs \<Longrightarrow> length (remove_at i xs) = length xs - 1"
  by (simp add: remove_at_def)

lemma remove_at_update [simp]: "remove_at i (xs[i := x]) = remove_at i xs"
  by (simp add: remove_at_def)

lemma map_remove_at: "map f (remove_at i xs) = remove_at i (map f xs)"
  by (simp add: remove_at_def take_map drop_map)

lemma set_remove_at: "set (remove_at i xs) \<subseteq> set xs"
  using set_take_subset [of i xs] set_drop_subset [of "Suc i" xs] by (auto simp: remove_at_def)

lemma sorted_wrt_remove_at: "sorted_wrt P xs \<Longrightarrow> sorted_wrt P (remove_at i xs)"
proof -
  assume s: "sorted_wrt P xs"
  show ?thesis
  proof (cases "i < length xs")
    case True
    then have "xs = take i xs @ xs ! i # drop (Suc i) xs" by (rule id_take_nth_drop)
    with s have "sorted_wrt P (take i xs @ xs ! i # drop (Suc i) xs)" by simp
    then show ?thesis by (auto simp: remove_at_def sorted_wrt_append)
  next
    case False
    with s show ?thesis by (simp add: remove_at_def)
  qed
qed

lemma sum_list_update_nat:
  fixes xs :: "nat list"
  shows "i < length xs \<Longrightarrow> sum_list (xs[i := y]) + xs ! i = sum_list xs + y"
  by (induction xs arbitrary: i) (auto split: nat.splits)

end
