(* ===== verification/Block_Execute.thy ===== *)
theory Block_Execute
  imports Rust_Prelude "HOL-Library.AList"
begin

text \<open>
  Speculative execution of one transaction in the parallel block executor
  (\<^verbatim>\<open>block-executor/src/executor.rs\<close>): \<open>execute\<close> with its closure
  \<open>apply_updates\<close>, \<open>validate\<close>, \<open>update_transaction_on_abort\<close>,
  \<open>update_on_validation\<close> and \<open>validate_commit_ready\<close>.

  The multi-version cache, the table of last inputs and outputs, the captured read sets, the
  scheduler and the VM are not part of the repository. They are parameters: abstract states
  \<open>'mv\<close>, \<open>'lio\<close>, \<open>'rs\<close>, \<open>'sch\<close> and records of the functions the
  code calls on them. What the code relies on is stated by the predicates \<open>mv_contract\<close>,
  \<open>vm_contract\<close> and \<open>lio_contract\<close> through an observation \<open>cell\<close>: the entry a
  transaction index holds at a location of the cache. Hash maps are association lists; the
  order of iterating over one is a parameter (\<open>order\<close>, \<open>idorder\<close>).
\<close>

section \<open>Data\<close>

type_synonym TxnIndex = nat
type_synonym Incarnation = nat

datatype KeyKind = Resource | Module | Group

datatype ('dv, 'ap) DelayedChange = Create 'dv | Apply 'ap

text \<open>What \<open>TransactionOutput\<close> exposes; \<open>'x\<close> is the rest of the output.\<close>

record ('k, 'tag, 'v, 'l, 'd, 'id, 'dv, 'ap, 'x) TxnOutput =
  resource_write_set :: "('k \<times> 'v \<times> 'l option) list"
  resource_group_write_set :: "('k \<times> 'v \<times> ('tag \<times> 'v \<times> 'l option) list) list"
  aggregator_v1_write_set :: "('k \<times> 'v) list"
  module_write_set :: "('k \<times> 'v) list"
  aggregator_v1_delta_set :: "('k \<times> 'd) list"
  delayed_field_change_set :: "('id \<times> ('dv, 'ap) DelayedChange) list"
  output_rest :: 'x

text \<open>The status \<open>ExecutionStatus\<close> of \<^verbatim>\<open>task.rs\<close>.\<close>

datatype ('o, 'e) TaskStatus =
    TaskSuccess 'o
  | TaskSkipRest 'o
  | TaskSpeculativeExecutionAbortError string
  | TaskAbort 'e
  | TaskDelayedFieldsCodeInvariantError string

datatype 'a PanicOr = CodeInvariantError string | Or 'a

datatype ParallelBlockExecutionError = ModulePathReadWriteError | ParallelFatalVMError

datatype CommitError = ReExecutionNeeded | CommitCodeInvariantError string

datatype ExecutionTaskType = Execution | Wakeup nat

datatype SchedulerTask =
    ExecutionTask TxnIndex Incarnation ExecutionTaskType
  | ValidationTask TxnIndex Incarnation nat
  | RetryTask
  | DoneTask

section \<open>The external components\<close>

record ('mv, 'k, 'tag, 'v, 'l, 'd, 'id, 'dc) MVHashMap =
  data_write :: "'k \<Rightarrow> TxnIndex \<Rightarrow> Incarnation \<Rightarrow> 'v \<Rightarrow> 'l option \<Rightarrow> 'mv \<Rightarrow> 'mv"
  data_add_delta :: "'k \<Rightarrow> TxnIndex \<Rightarrow> 'd \<Rightarrow> 'mv \<Rightarrow> 'mv"
  data_remove :: "'k \<Rightarrow> TxnIndex \<Rightarrow> 'mv \<Rightarrow> 'mv"
  data_mark_estimate :: "'k \<Rightarrow> TxnIndex \<Rightarrow> 'mv \<Rightarrow> 'mv"
  group_write :: "'k \<Rightarrow> TxnIndex \<Rightarrow> Incarnation \<Rightarrow> ('tag \<times> 'v \<times> 'l option) list \<Rightarrow> 'mv \<Rightarrow> bool \<times> 'mv"
  group_remove :: "'k \<Rightarrow> TxnIndex \<Rightarrow> 'mv \<Rightarrow> 'mv"
  group_mark_estimate :: "'k \<Rightarrow> TxnIndex \<Rightarrow> 'mv \<Rightarrow> 'mv"
  modules_write :: "'k \<Rightarrow> TxnIndex \<Rightarrow> 'v \<Rightarrow> 'mv \<Rightarrow> 'mv"
  modules_remove :: "'k \<Rightarrow> TxnIndex \<Rightarrow> 'mv \<Rightarrow> 'mv"
  modules_mark_estimate :: "'k \<Rightarrow> TxnIndex \<Rightarrow> 'mv \<Rightarrow> 'mv"
  delayed_record_change :: "'id \<Rightarrow> TxnIndex \<Rightarrow> 'dc \<Rightarrow> 'mv \<Rightarrow> (unit PanicOr + unit) \<times> 'mv"
  delayed_remove :: "'id \<Rightarrow> TxnIndex \<Rightarrow> 'mv \<Rightarrow> 'mv"
  delayed_mark_estimate :: "'id \<Rightarrow> TxnIndex \<Rightarrow> 'mv \<Rightarrow> 'mv"
  delayed_try_commit :: "TxnIndex \<Rightarrow> 'id list \<Rightarrow> 'mv \<Rightarrow> (CommitError + unit) \<times> 'mv"

record ('rs, 'mv) CapturedReads =
  capture_delta_application_failure :: "'rs \<Rightarrow> 'rs"
  is_incorrect_use :: "'rs \<Rightarrow> bool"
  validate_data_reads :: "'rs \<Rightarrow> 'mv \<Rightarrow> TxnIndex \<Rightarrow> bool"
  validate_group_reads :: "'rs \<Rightarrow> 'mv \<Rightarrow> TxnIndex \<Rightarrow> bool"
  validate_delayed_field_reads :: "'rs \<Rightarrow> 'mv \<Rightarrow> TxnIndex \<Rightarrow> string + bool"

record ('lio, 'k, 'v, 'l, 'id, 'rs, 'o, 'e) TxnLastInputOutput =
  modified_keys :: "TxnIndex \<Rightarrow> 'lio \<Rightarrow> ('k \<times> KeyKind) list option"
  delayed_field_keys :: "TxnIndex \<Rightarrow> 'lio \<Rightarrow> 'id list option"
  record_io :: "TxnIndex \<Rightarrow> 'rs \<Rightarrow> ('o, 'e) TaskStatus \<Rightarrow> ('k \<times> 'v \<times> 'l option) list \<Rightarrow> 'lio \<Rightarrow> bool \<times> 'lio"
  read_set :: "TxnIndex \<Rightarrow> 'lio \<Rightarrow> 'rs option"

record 'sch SchedulerOps =
  try_abort :: "TxnIndex \<Rightarrow> Incarnation \<Rightarrow> 'sch \<Rightarrow> bool \<times> 'sch"
  finish_abort :: "TxnIndex \<Rightarrow> Incarnation \<Rightarrow> 'sch \<Rightarrow> (string + SchedulerTask) \<times> 'sch"
  finish_validation :: "TxnIndex \<Rightarrow> nat \<Rightarrow> 'sch \<Rightarrow> 'sch"
  queueing_commits_arm :: "'sch \<Rightarrow> 'sch"

section \<open>execute\<close>

text \<open>\<open>HashMap::collect\<close>: a later pair for a key replaces an earlier one.\<close>

definition hash_collect :: "('k \<times> 'a) list \<Rightarrow> ('k \<times> 'a) list" where
  "hash_collect kvs = fold (\<lambda>(k, a). AList.update k a) kvs []"

record ('k, 'id, 'mv, 'rs) UpdateState =
  prev_modified_keys :: "('k \<times> KeyKind) list"
  prev_modified_delayed_fields :: "'id list"
  updates_outside :: bool
  cache :: 'mv
  reads :: 'rs

text \<open>\<open>if prev_modified_keys.remove(&k).is_none() { updates_outside = true; }\<close>\<close>

definition note_write :: "'k \<Rightarrow> ('k, 'id, 'mv, 'rs) UpdateState \<Rightarrow> ('k, 'id, 'mv, 'rs) UpdateState" where
  "note_write k s =
     s\<lparr>updates_outside := updates_outside s \<or> map_of (prev_modified_keys s) k = None,
       prev_modified_keys := AList.delete k (prev_modified_keys s)\<rparr>"

definition apply_group where
  "apply_group M idx inc g s =
     (case g of (group_key, metadata_op, group_ops) \<Rightarrow>
      let s = note_write group_key s;
          mv = data_write M group_key idx inc metadata_op None (cache s);
          (outside, mv') = group_write M group_key idx inc group_ops mv
      in s\<lparr>cache := mv', updates_outside := updates_outside s \<or> outside\<rparr>)"

definition apply_resource where
  "apply_resource M idx inc w s =
     (case w of (k, v, maybe_layout) \<Rightarrow>
      let s = note_write k s in s\<lparr>cache := data_write M k idx inc v maybe_layout (cache s)\<rparr>)"

definition apply_module where
  "apply_module M idx w s =
     (case w of (k, v) \<Rightarrow>
      let s = note_write k s in s\<lparr>cache := modules_write M k idx v (cache s)\<rparr>)"

definition apply_delta where
  "apply_delta M idx w s =
     (case w of (k, d) \<Rightarrow>
      let s = note_write k s in s\<lparr>cache := data_add_delta M k idx d (cache s)\<rparr>)"

fun apply_delayed_changes where
  "apply_delayed_changes M R idx [] s = (None, s)"
| "apply_delayed_changes M R idx ((fid, change) # rest) s =
     (let s1 = s\<lparr>prev_modified_delayed_fields := removeAll fid (prev_modified_delayed_fields s)\<rparr>;
          (r, mv) = delayed_record_change M fid idx change (cache s1);
          s2 = s1\<lparr>cache := mv\<rparr>
      in case r of
           Inl (CodeInvariantError m) \<Rightarrow> (Some (''Record change failed with CodeInvariantError: '' @ m), s2)
         | Inl (Or _) \<Rightarrow>
             apply_delayed_changes M R idx rest
               (s2\<lparr>reads := capture_delta_application_failure R (reads s2)\<rparr>)
         | Inr _ \<Rightarrow> apply_delayed_changes M R idx rest s2)"

definition apply_updates where
  "apply_updates M R idx inc output s =
     (let s = fold (apply_group M idx inc) (resource_group_write_set output) s;
          s = fold (apply_resource M idx inc)
                (resource_write_set output @
                 map (\<lambda>(state_key, write_op). (state_key, write_op, None)) (aggregator_v1_write_set output)) s;
          s = fold (apply_module M idx) (module_write_set output) s;
          s = fold (apply_delta M idx) (aggregator_v1_delta_set output) s
      in apply_delayed_changes M R idx (delayed_field_change_set output) s)"

text \<open>The entries of the previous incarnation that the new one did not overwrite.\<close>

definition remove_entry where
  "remove_entry M idx kk mv =
     (case kk of (k, kind) \<Rightarrow>
      (case kind of
         Resource \<Rightarrow> data_remove M k idx mv
       | Module \<Rightarrow> modules_remove M k idx mv
       | Group \<Rightarrow> group_remove M k idx (data_remove M k idx mv)))"

definition finish_execute where
  "finish_execute M L order idorder idx result writes (s :: ('k, 'id, 'mv, 'rs) UpdateState) lio sch =
     (let mv = fold (remove_entry M idx) (order (prev_modified_keys s)) (cache s);
          mv' = fold (\<lambda>fid. delayed_remove M fid idx) (idorder (prev_modified_delayed_fields s)) mv;
          (ok, lio') = record_io L idx (reads s) result writes lio
      in (if ok then Inr (updates_outside s) else Inl (Or ModulePathReadWriteError), mv', lio', sch))"

definition execute where
  "execute M R L order idorder vm idx inc block mv lio sch =
     rbind (index_at block idx) (\<lambda>txn.
     let (execute_result, rs, mv1, sch1) = vm txn idx mv sch;
         s = \<lparr> prev_modified_keys =
                 (case modified_keys L idx lio of None \<Rightarrow> [] | Some keys \<Rightarrow> hash_collect keys),
               prev_modified_delayed_fields =
                 (case delayed_field_keys L idx lio of None \<Rightarrow> [] | Some keys \<Rightarrow> remdups keys),
               updates_outside = False, cache = mv1, reads = rs \<rparr>;
         run_updates = (\<lambda>output.
           case apply_updates M R idx inc output s of
             (Some e, s') \<Rightarrow> (Inl (CodeInvariantError e), cache s', lio, sch1)
           | (None, s') \<Rightarrow>
               finish_execute M L order idorder idx execute_result (resource_write_set output) s' lio sch1)
     in Inr (case execute_result of
         TaskSuccess output \<Rightarrow> run_updates output
       | TaskSkipRest output \<Rightarrow> run_updates output
       | TaskSpeculativeExecutionAbortError msg \<Rightarrow>
           finish_execute M L order idorder idx execute_result []
             (s\<lparr>reads := capture_delta_application_failure R (reads s)\<rparr>) lio sch1
       | TaskAbort err \<Rightarrow> finish_execute M L order idorder idx execute_result [] s lio sch1
       | TaskDelayedFieldsCodeInvariantError msg \<Rightarrow>
           (Inl (CodeInvariantError (''failed with DelayedFieldsCodeInvariantError: '' @ msg)),
            cache s, lio, sch1)))"

section \<open>validate, abort and commit checks\<close>

definition validate where
  "validate R L idx lio mv =
     rbind (unwrap (read_set L idx lio)) (\<lambda>rs.
     Inr (if is_incorrect_use R rs then Inl ''Incorrect use detected in CapturedReads''
          else Inr (validate_data_reads R rs mv idx \<and> validate_group_reads R rs mv idx)))"

definition mark_entry where
  "mark_entry M idx kk mv =
     (case kk of (k, kind) \<Rightarrow>
      (case kind of
         Resource \<Rightarrow> data_mark_estimate M k idx mv
       | Module \<Rightarrow> modules_mark_estimate M k idx mv
       | Group \<Rightarrow> group_mark_estimate M k idx (data_mark_estimate M k idx mv)))"

definition update_transaction_on_abort where
  "update_transaction_on_abort M L idx lio mv =
     (let mv1 = (case modified_keys L idx lio of
                   None \<Rightarrow> mv | Some keys \<Rightarrow> fold (mark_entry M idx) keys mv)
      in case delayed_field_keys L idx lio of
           None \<Rightarrow> mv1 | Some keys \<Rightarrow> fold (\<lambda>k. delayed_mark_estimate M k idx) keys mv1)"

definition update_on_validation where
  "update_on_validation M L S idx inc valid wave lio mv sch =
     (let (aborted, sch1) = (if valid then (False, sch) else try_abort S idx inc sch)
      in if aborted
         then let mv' = update_transaction_on_abort M L idx lio mv;
                  (task, sch2) = finish_abort S idx inc sch1
              in (task, mv', sch2)
         else let sch2 = finish_validation S idx wave sch1;
                  sch3 = (if valid then queueing_commits_arm S sch2 else sch2)
              in (Inr RetryTask, mv, sch3))"

definition validate_commit_ready where
  "validate_commit_ready M R L idx mv lio =
     rbind (unwrap (read_set L idx lio)) (\<lambda>rs.
     Inr (case validate_delayed_field_reads R rs mv idx of
            Inl e \<Rightarrow> (Inl e, mv)
          | Inr False \<Rightarrow> (Inr False, mv)
          | Inr True \<Rightarrow>
              (case delayed_field_keys L idx lio of
                 None \<Rightarrow> (Inr True, mv)
               | Some delayed_field_ids \<Rightarrow>
                   (case delayed_try_commit M idx delayed_field_ids mv of
                      (Inr _, mv') \<Rightarrow> (Inr True, mv')
                    | (Inl ReExecutionNeeded, mv') \<Rightarrow> (Inr False, mv')
                    | (Inl (CommitCodeInvariantError msg), mv') \<Rightarrow> (Inl msg, mv')))))"

section \<open>Observing the cache\<close>

datatype ('k, 'id) loc = DataLoc 'k | GroupLoc 'k | ModuleLoc 'k | DelayedLoc 'id

datatype ('tag, 'v, 'l, 'd) content =
    Written Incarnation 'v "'l option"
  | DeltaEntry 'd
  | GroupWritten Incarnation "('tag \<times> 'v \<times> 'l option) list"
  | ModuleWritten 'v
  | DelayedEntry

text \<open>
  The documented behaviour of the cache: a write, a delta or a removal at an index sets the
  entry of that index at that location and no other; marking an estimate keeps the entries.
  Nothing is assumed of the entry a recorded delayed change leaves, except where it is.
\<close>

definition mv_contract where
  "mv_contract M cell est \<longleftrightarrow>
     (\<forall>k t i v l m. cell (data_write M k t i v l m) = (cell m)((DataLoc k, t) \<mapsto> Written i v l)) \<and>
     (\<forall>k t d m. cell (data_add_delta M k t d m) = (cell m)((DataLoc k, t) \<mapsto> DeltaEntry d)) \<and>
     (\<forall>k t m. cell (data_remove M k t m) = (cell m)((DataLoc k, t) := None)) \<and>
     (\<forall>k t i ops m. cell (snd (group_write M k t i ops m)) =
        (cell m)((GroupLoc k, t) \<mapsto> GroupWritten i ops)) \<and>
     (\<forall>k t m. cell (group_remove M k t m) = (cell m)((GroupLoc k, t) := None)) \<and>
     (\<forall>k t v m. cell (modules_write M k t v m) = (cell m)((ModuleLoc k, t) \<mapsto> ModuleWritten v)) \<and>
     (\<forall>k t m. cell (modules_remove M k t m) = (cell m)((ModuleLoc k, t) := None)) \<and>
     (\<forall>f t c m. \<exists>x. cell (snd (delayed_record_change M f t c m)) = (cell m)((DelayedLoc f, t) := x)) \<and>
     (\<forall>f t m. cell (delayed_remove M f t m) = (cell m)((DelayedLoc f, t) := None)) \<and>
     (\<forall>k t m. cell (data_mark_estimate M k t m) = cell m \<and>
        est (data_mark_estimate M k t m) = insert (DataLoc k, t) (est m)) \<and>
     (\<forall>k t m. cell (group_mark_estimate M k t m) = cell m \<and>
        est (group_mark_estimate M k t m) = insert (GroupLoc k, t) (est m)) \<and>
     (\<forall>k t m. cell (modules_mark_estimate M k t m) = cell m \<and>
        est (modules_mark_estimate M k t m) = insert (ModuleLoc k, t) (est m)) \<and>
     (\<forall>f t m. cell (delayed_mark_estimate M f t m) = cell m \<and>
        est (delayed_mark_estimate M f t m) = insert (DelayedLoc f, t) (est m))"

text \<open>Running a transaction may load base values, but writes no entry of any transaction.\<close>

definition vm_contract where
  "vm_contract vm cell \<longleftrightarrow> (\<forall>txn idx mv sch st rs mv' sch'.
     vm txn idx mv sch = (st, rs, mv', sch') \<longrightarrow> cell mv' = cell mv)"

lemma mv_contractD:
  assumes "mv_contract M cell est"
  shows "cell (data_write M k t i v l m) = (cell m)((DataLoc k, t) \<mapsto> Written i v l)"
    "cell (data_add_delta M k t d m) = (cell m)((DataLoc k, t) \<mapsto> DeltaEntry d)"
    "cell (data_remove M k t m) = (cell m)((DataLoc k, t) := None)"
    "cell (snd (group_write M k t i ops m)) = (cell m)((GroupLoc k, t) \<mapsto> GroupWritten i ops)"
    "cell (group_remove M k t m) = (cell m)((GroupLoc k, t) := None)"
    "cell (modules_write M k t v m) = (cell m)((ModuleLoc k, t) \<mapsto> ModuleWritten v)"
    "cell (modules_remove M k t m) = (cell m)((ModuleLoc k, t) := None)"
    "\<exists>x. cell (snd (delayed_record_change M f t c m)) = (cell m)((DelayedLoc f, t) := x)"
    "cell (delayed_remove M f t m) = (cell m)((DelayedLoc f, t) := None)"
  using assms by (simp_all add: mv_contract_def)

lemma mv_contract_estimateD:
  assumes "mv_contract M cell est"
  shows "cell (data_mark_estimate M k t m) = cell m" "cell (group_mark_estimate M k t m) = cell m"
    "cell (modules_mark_estimate M k t m) = cell m" "cell (delayed_mark_estimate M f t m) = cell m"
    "est (data_mark_estimate M k t m) = insert (DataLoc k, t) (est m)"
    "est (group_mark_estimate M k t m) = insert (GroupLoc k, t) (est m)"
    "est (modules_mark_estimate M k t m) = insert (ModuleLoc k, t) (est m)"
    "est (delayed_mark_estimate M f t m) = insert (DelayedLoc f, t) (est m)"
  using assms by (simp_all add: mv_contract_def)

section \<open>The footprint of an output\<close>

text \<open>
  The entries an output stands for, in the order the code writes them, and the keys it
  modifies with their kinds. When a location is written twice, the last write counts.
\<close>

definition output_entries where
  "output_entries inc out =
     concat (map (\<lambda>(k, meta, ops). [(DataLoc k, Written inc meta None), (GroupLoc k, GroupWritten inc ops)])
       (resource_group_write_set out)) @
     map (\<lambda>(k, v, l). (DataLoc k, Written inc v l)) (resource_write_set out) @
     map (\<lambda>(k, v). (DataLoc k, Written inc v None)) (aggregator_v1_write_set out) @
     map (\<lambda>(k, v). (ModuleLoc k, ModuleWritten v)) (module_write_set out) @
     map (\<lambda>(k, d). (DataLoc k, DeltaEntry d)) (aggregator_v1_delta_set out)"

definition output_cells where
  "output_cells inc out = map_of (rev (output_entries inc out))"

definition output_kinds where
  "output_kinds out =
     map (\<lambda>(k, meta, ops). (k, Group)) (resource_group_write_set out) @
     map (\<lambda>(k, v, l). (k, Resource)) (resource_write_set out) @
     map (\<lambda>(k, v). (k, Resource)) (aggregator_v1_write_set out) @
     map (\<lambda>(k, v). (k, Module)) (module_write_set out) @
     map (\<lambda>(k, d). (k, Resource)) (aggregator_v1_delta_set out)"

fun kind_locs :: "'k \<times> KeyKind \<Rightarrow> ('k, 'id) loc set" where
  "kind_locs (k, Resource) = {DataLoc k}"
| "kind_locs (k, Module) = {ModuleLoc k}"
| "kind_locs (k, Group) = {DataLoc k, GroupLoc k}"

definition recorded_keys where
  "recorded_keys L idx lio = (case modified_keys L idx lio of None \<Rightarrow> [] | Some keys \<Rightarrow> keys)"

definition recorded_ids where
  "recorded_ids L idx lio = (case delayed_field_keys L idx lio of None \<Rightarrow> [] | Some ids \<Rightarrow> ids)"

definition tracked_locs where
  "tracked_locs L t lio =
     (\<Union>kk \<in> set (recorded_keys L t lio). kind_locs kk) \<union> DelayedLoc ` set (recorded_ids L t lio)"

text \<open>Every entry of an index in the cache is at a location recorded for that index.\<close>

definition tracked where
  "tracked cell L mv lio \<longleftrightarrow> (\<forall>loc t. cell mv (loc, t) \<noteq> None \<longrightarrow> loc \<in> tracked_locs L t lio)"

section \<open>Writing an output\<close>

definition put where
  "put idx es c = (\<lambda>(loc, t). if t = idx \<and> map_of (rev es) loc \<noteq> None then map_of (rev es) loc else c (loc, t))"

lemma put_Nil [simp]: "put idx [] c = c"
  by (simp add: put_def fun_eq_iff)

lemma put_append: "put idx (es @ es') c = put idx es' (put idx es c)"
  by (auto simp: put_def fun_eq_iff map_add_def split: option.splits)

lemma put_single: "put idx [(l, x)] c = c((l, idx) \<mapsto> x)"
  by (auto simp: put_def fun_eq_iff)

lemma put_two: "put idx [(l, x), (l', x')] c = c((l, idx) \<mapsto> x, (l', idx) \<mapsto> x')"
  using put_append [of idx "[(l, x)]" "[(l', x')]" c] by (simp add: put_single)

text \<open>
  One loop of \<open>apply_updates\<close>: every iteration takes its key out of the previous keys,
  reports a key that was not there, and puts its entries into the cache.
\<close>

definition writes_entries where
  "writes_entries cell idx key es f \<longleftrightarrow> (\<forall>w s.
     prev_modified_keys (f w s) = AList.delete (key w) (prev_modified_keys s) \<and>
     prev_modified_delayed_fields (f w s) = prev_modified_delayed_fields s \<and>
     (updates_outside s \<or> map_of (prev_modified_keys s) (key w) = None \<longrightarrow> updates_outside (f w s)) \<and>
     cell (cache (f w s)) = put idx (es w) (cell (cache s)))"

lemma fold_writes_entries:
  assumes "writes_entries cell idx key es f"
  shows "prev_modified_keys (fold f ws s) =
       filter (\<lambda>kk. fst kk \<notin> key ` set ws) (prev_modified_keys s) \<and>
     prev_modified_delayed_fields (fold f ws s) = prev_modified_delayed_fields s \<and>
     (updates_outside s \<or> \<not> key ` set ws \<subseteq> fst ` set (prev_modified_keys s) \<longrightarrow>
        updates_outside (fold f ws s)) \<and>
     cell (cache (fold f ws s)) = put idx (concat (map es ws)) (cell (cache s))"
proof (induction ws arbitrary: s)
  case (Cons w ws)
  have step: "prev_modified_keys (f w s) = filter (\<lambda>kk. key w \<noteq> fst kk) (prev_modified_keys s)"
    "prev_modified_delayed_fields (f w s) = prev_modified_delayed_fields s"
    "updates_outside s \<or> key w \<notin> fst ` set (prev_modified_keys s) \<Longrightarrow> updates_outside (f w s)"
    "cell (cache (f w s)) = put idx (es w) (cell (cache s))"
    using assms by (auto simp: writes_entries_def AList.delete_eq case_prod_unfold map_of_eq_None_iff)
  with Cons.IH [of "f w s"] show ?case
    by (auto simp: put_append image_iff intro!: filter_cong)
qed simp

lemma writes_entries_loops:
  assumes "mv_contract M cell est"
  shows "writes_entries cell idx (\<lambda>(k, _, _). k)
      (\<lambda>(k, meta, ops). [(DataLoc k, Written inc meta None), (GroupLoc k, GroupWritten inc ops)])
      (apply_group M idx inc)"
    and "writes_entries cell idx (\<lambda>(k, _, _). k) (\<lambda>(k, v, l). [(DataLoc k, Written inc v l)])
      (apply_resource M idx inc)"
    and "writes_entries cell idx fst (\<lambda>(k, v). [(ModuleLoc k, ModuleWritten v)]) (apply_module M idx)"
    and "writes_entries cell idx fst (\<lambda>(k, d). [(DataLoc k, DeltaEntry d)]) (apply_delta M idx)"
proof -
  note D = mv_contractD [OF assms]
  note defs = writes_entries_def note_write_def Let_def case_prod_unfold
  show "writes_entries cell idx (\<lambda>(k, _, _). k)
      (\<lambda>(k, meta, ops). [(DataLoc k, Written inc meta None), (GroupLoc k, GroupWritten inc ops)])
      (apply_group M idx inc)"
    by (simp add: defs apply_group_def put_two D(1,4))
  show "writes_entries cell idx (\<lambda>(k, _, _). k) (\<lambda>(k, v, l). [(DataLoc k, Written inc v l)])
      (apply_resource M idx inc)"
    by (simp add: defs apply_resource_def put_single D(1))
  show "writes_entries cell idx fst (\<lambda>(k, v). [(ModuleLoc k, ModuleWritten v)]) (apply_module M idx)"
    by (simp add: defs apply_module_def put_single D(6))
  show "writes_entries cell idx fst (\<lambda>(k, d). [(DataLoc k, DeltaEntry d)]) (apply_delta M idx)"
    by (simp add: defs apply_delta_def put_single D(2))
qed

lemma apply_delayed_changes_spec:
  assumes "mv_contract M cell est" and "apply_delayed_changes M R idx cs s = (r, s')"
  shows "prev_modified_keys s' = prev_modified_keys s" "updates_outside s' = updates_outside s"
    "r = None \<Longrightarrow> prev_modified_delayed_fields s' =
       filter (\<lambda>f. f \<notin> fst ` set cs) (prev_modified_delayed_fields s)"
    "cell (cache s') (loc, t) \<noteq> cell (cache s) (loc, t) \<Longrightarrow> t = idx \<and> loc \<in> DelayedLoc ` fst ` set cs"
proof -
  have "prev_modified_keys s' = prev_modified_keys s \<and> updates_outside s' = updates_outside s \<and>
    (r = None \<longrightarrow> prev_modified_delayed_fields s' =
       filter (\<lambda>f. f \<notin> fst ` set cs) (prev_modified_delayed_fields s)) \<and>
    (cell (cache s') (loc, t) \<noteq> cell (cache s) (loc, t) \<longrightarrow> t = idx \<and> loc \<in> DelayedLoc ` fst ` set cs)"
    using assms(2)
  proof (induction cs arbitrary: s)
    case (Cons c cs)
    obtain fid change where c: "c = (fid, change)" by (cases c)
    let ?s1 = "s\<lparr>prev_modified_delayed_fields := removeAll fid (prev_modified_delayed_fields s)\<rparr>"
    obtain r1 mv where r1: "delayed_record_change M fid idx change (cache ?s1) = (r1, mv)"
      by (cases "delayed_record_change M fid idx change (cache ?s1)")
    with mv_contractD(8) [OF assms(1), of fid idx change "cache s"]
    obtain x where "cell mv = (cell (cache s))((DelayedLoc fid, idx) := x)" by auto
    then have cell: "cell mv (loc, t) \<noteq> cell (cache s) (loc, t) \<Longrightarrow> loc = DelayedLoc fid \<and> t = idx"
      by (auto split: if_splits)
    show ?case
    proof (cases "\<exists>m. r1 = Inl (CodeInvariantError m)")
      case True
      with Cons.prems r1 cell show ?thesis by (auto simp: c Let_def)
    next
      case False
      let ?s2 = "?s1\<lparr>cache := mv\<rparr>"
      define s3 where "s3 = (case r1 of Inr _ \<Rightarrow> ?s2
         | Inl _ \<Rightarrow> ?s2\<lparr>reads := capture_delta_application_failure R (reads ?s2)\<rparr>)"
      have run: "apply_delayed_changes M R idx cs s3 = (r, s')"
        using Cons.prems r1 False by (auto simp: c s3_def Let_def split: sum.splits PanicOr.splits)
      have s3: "prev_modified_keys s3 = prev_modified_keys s" "updates_outside s3 = updates_outside s"
        "prev_modified_delayed_fields s3 = removeAll fid (prev_modified_delayed_fields s)"
        "cache s3 = mv"
        by (simp_all add: s3_def split: sum.splits)
      note IH = Cons.IH [OF run, unfolded s3]
      show ?thesis
      proof (intro conjI impI)
        assume "r = None"
        with IH show "prev_modified_delayed_fields s' =
            filter (\<lambda>f. f \<notin> fst ` set (c # cs)) (prev_modified_delayed_fields s)"
          by (simp add: c removeAll_filter_not_eq) (auto intro!: filter_cong)
      qed (use IH cell in \<open>auto simp: c\<close>)
    qed
  qed simp
  then show "prev_modified_keys s' = prev_modified_keys s" "updates_outside s' = updates_outside s"
    "r = None \<Longrightarrow> prev_modified_delayed_fields s' =
       filter (\<lambda>f. f \<notin> fst ` set cs) (prev_modified_delayed_fields s)"
    "cell (cache s') (loc, t) \<noteq> cell (cache s) (loc, t) \<Longrightarrow> t = idx \<and> loc \<in> DelayedLoc ` fst ` set cs"
    by blast+
qed

lemma apply_updates_spec:
  assumes M: "mv_contract M cell est" and run: "apply_updates M R idx inc out s = (r, s')"
  shows "prev_modified_keys s' =
      filter (\<lambda>kk. fst kk \<notin> fst ` set (output_kinds out)) (prev_modified_keys s)"
    and "r = None \<Longrightarrow> prev_modified_delayed_fields s' =
      filter (\<lambda>f. f \<notin> fst ` set (delayed_field_change_set out)) (prev_modified_delayed_fields s)"
    and "\<not> updates_outside s' \<Longrightarrow>
      fst ` set (output_kinds out) \<subseteq> fst ` set (prev_modified_keys s)"
    and "cell (cache s') (loc, t) \<noteq> put idx (output_entries inc out) (cell (cache s)) (loc, t) \<Longrightarrow>
      t = idx \<and> loc \<in> DelayedLoc ` fst ` set (delayed_field_change_set out)"
proof -
  define s1 where "s1 = fold (apply_group M idx inc) (resource_group_write_set out) s"
  define ws where "ws = resource_write_set out @
      map (\<lambda>(k, v). (k, v, None)) (aggregator_v1_write_set out)"
  define s2 where "s2 = fold (apply_resource M idx inc) ws s1"
  define s3 where "s3 = fold (apply_module M idx) (module_write_set out) s2"
  define s4 where "s4 = fold (apply_delta M idx) (aggregator_v1_delta_set out) s3"
  have run4: "apply_delayed_changes M R idx (delayed_field_change_set out) s4 = (r, s')"
    using run by (simp add: apply_updates_def Let_def s1_def s2_def s3_def s4_def ws_def)
  note loops = writes_entries_loops [OF M]
  note f1 = fold_writes_entries [OF loops(1) [of idx inc], where ws = "resource_group_write_set out" and s = s, folded s1_def]
    and f2 = fold_writes_entries [OF loops(2) [of idx inc], where ws = ws and s = s1, folded s2_def]
    and f3 = fold_writes_entries [OF loops(3) [of idx], where ws = "module_write_set out" and s = s2, folded s3_def]
    and f4 = fold_writes_entries [OF loops(4) [of idx], where ws = "aggregator_v1_delta_set out" and s = s3, folded s4_def]
  note f = f1 f2 f3 f4
  have kinds: "fst ` set (output_kinds out) =
     (\<lambda>(k, _, _). k) ` set (resource_group_write_set out) \<union>
     (\<lambda>(k, _, _). k) ` set ws \<union>
     fst ` set (module_write_set out) \<union> fst ` set (aggregator_v1_delta_set out)"
    by (simp add: output_kinds_def ws_def image_Un image_image case_prod_unfold Un_assoc)
  show "prev_modified_keys s' =
      filter (\<lambda>kk. fst kk \<notin> fst ` set (output_kinds out)) (prev_modified_keys s)"
    using f apply_delayed_changes_spec(1) [OF M run4] unfolding kinds by (simp add: conj_ac Un_iff)
  show "\<not> updates_outside s' \<Longrightarrow>
      fst ` set (output_kinds out) \<subseteq> fst ` set (prev_modified_keys s)"
    using f apply_delayed_changes_spec(2) [OF M run4] unfolding kinds by auto
  have "cell (cache s4) = put idx (output_entries inc out) (cell (cache s))"
    using f by (simp add: output_entries_def ws_def put_append case_prod_unfold comp_def)
  with apply_delayed_changes_spec(4) [OF M run4]
  show "cell (cache s') (loc, t) \<noteq> put idx (output_entries inc out) (cell (cache s)) (loc, t) \<Longrightarrow>
      t = idx \<and> loc \<in> DelayedLoc ` fst ` set (delayed_field_change_set out)" by simp
  show "r = None \<Longrightarrow> prev_modified_delayed_fields s' =
      filter (\<lambda>f. f \<notin> fst ` set (delayed_field_change_set out)) (prev_modified_delayed_fields s)"
    using f apply_delayed_changes_spec(3) [OF M run4] by simp
qed

section \<open>What execute leaves in the cache\<close>

definition status_output :: "('o, 'e) TaskStatus \<Rightarrow> 'o option" where
  "status_output st = (case st of TaskSuccess out \<Rightarrow> Some out | TaskSkipRest out \<Rightarrow> Some out | _ \<Rightarrow> None)"

definition status_entries where
  "status_entries inc st = (case status_output st of None \<Rightarrow> [] | Some out \<Rightarrow> output_entries inc out)"

definition status_kinds where
  "status_kinds st = (case status_output st of None \<Rightarrow> [] | Some out \<Rightarrow> output_kinds out)"

definition status_ids where
  "status_ids st = (case status_output st of None \<Rightarrow> [] | Some out \<Rightarrow> map fst (delayed_field_change_set out))"

lemma kind_locs_key: "loc \<in> kind_locs kk \<Longrightarrow> loc \<in> kind_locs kk' \<Longrightarrow> fst kk = fst kk'"
  by (cases kk rule: kind_locs.cases; cases kk' rule: kind_locs.cases) auto

lemma kind_locs_not_delayed [simp]: "DelayedLoc f \<notin> kind_locs kk"
  by (cases kk rule: kind_locs.cases) auto

lemma output_entries_locs:
  "fst ` set (output_entries inc out) = (\<Union>kk \<in> set (output_kinds out). kind_locs kk)"
  by (auto simp: output_entries_def output_kinds_def image_Un image_iff; force)

lemma status_entries_locs:
  "fst ` set (status_entries inc st) = (\<Union>kk \<in> set (status_kinds st). kind_locs kk)"
  by (cases "status_output st") (simp_all add: status_entries_def status_kinds_def output_entries_locs)

lemma fold_remove_entry:
  assumes "mv_contract M cell est"
  shows "cell (fold (remove_entry M idx) kks mv) (loc, t) =
     (if t = idx \<and> loc \<in> (\<Union>kk \<in> set kks. kind_locs kk) then None else cell mv (loc, t))"
proof (induction kks arbitrary: mv)
  case (Cons kk kks)
  have "cell (remove_entry M idx kk mv) (loc, t) =
      (if t = idx \<and> loc \<in> kind_locs kk then None else cell mv (loc, t))"
    using mv_contractD(3,5,7) [OF assms]
    by (cases kk rule: kind_locs.cases) (auto simp: remove_entry_def)
  with Cons.IH [of "remove_entry M idx kk mv"] show ?case by auto
qed simp

lemma fold_delayed_remove:
  assumes "mv_contract M cell est"
  shows "cell (fold (\<lambda>f. delayed_remove M f idx) fs mv) (loc, t) =
     (if t = idx \<and> loc \<in> DelayedLoc ` set fs then None else cell mv (loc, t))"
  using mv_contractD(9) [OF assms] by (induction fs arbitrary: mv) auto

lemma set_update_consistent:
  assumes "\<forall>(k', a') \<in> set xs. k' = k \<longrightarrow> a' = a"
  shows "set (AList.update k a xs) = insert (k, a) (set xs)"
  using assms by (induction xs) auto

lemma set_hash_collect:
  assumes "\<forall>(k, a) \<in> set kvs. a = kind_of k"
  shows "set (hash_collect kvs) = set kvs"
proof -
  have "set (fold (\<lambda>(k, a). AList.update k a) kvs xs) = set kvs \<union> set xs"
    if "\<forall>(k, a) \<in> set xs. a = kind_of k" for xs
    using assms that
  proof (induction kvs arbitrary: xs)
    case (Cons kv kvs)
    obtain k a where kv: "kv = (k, a)" by (cases kv)
    have "set (AList.update k a xs) = insert (k, a) (set xs)"
      using Cons.prems kv by (intro set_update_consistent) auto
    with Cons.IH [of "AList.update k a xs"] Cons.prems kv show ?case by auto
  qed simp
  from this [of "[]"] show ?thesis by (simp add: hash_collect_def)
qed

lemma keys_hash_collect: "fst ` set (hash_collect kvs) = fst ` set kvs"
proof -
  have "fst ` set (fold (\<lambda>(k, a). AList.update k a) kvs xs) = fst ` set kvs \<union> fst ` set xs" for xs
    by (induction kvs arbitrary: xs) (simp_all add: case_prod_unfold dom_update)
  from this [of "[]"] show ?thesis by (simp add: hash_collect_def)
qed


text \<open>The local state of \<open>execute\<close> when it reaches the removal of stale entries.\<close>

lemma execute_reaches_finish:
  assumes M: "mv_contract M cell est" and vm: "vm_contract vm cell"
    and run: "execute M R L order idorder vm idx inc block mv lio sch = Inr (res, mv', lio', sch')"
    and st: "vm (block ! idx) idx mv sch = (st, rs, mv1, sch1)"
    and noerr: "\<And>e. res \<noteq> Inl (CodeInvariantError e)"
  obtains s writes where
    "(res, mv', lio', sch') = finish_execute M L order idorder idx st writes s lio sch1"
    "prev_modified_keys s = filter (\<lambda>kk. fst kk \<notin> fst ` set (status_kinds st)) (hash_collect (recorded_keys L idx lio))"
    "set (prev_modified_delayed_fields s) =
       set (recorded_ids L idx lio) - set (status_ids st)"
    "\<not> updates_outside s \<Longrightarrow> fst ` set (status_kinds st) \<subseteq> fst ` set (recorded_keys L idx lio)"
    "\<And>loc t. cell (cache s) (loc, t) \<noteq> put idx (status_entries inc st) (cell mv) (loc, t) \<Longrightarrow>
       t = idx \<and> loc \<in> DelayedLoc ` set (status_ids st)"
proof -
  have cell1: "cell mv1 = cell mv" using vm st unfolding vm_contract_def by blast
  define s0 where "s0 = \<lparr> prev_modified_keys =
                 (case modified_keys L idx lio of None \<Rightarrow> [] | Some keys \<Rightarrow> hash_collect keys),
               prev_modified_delayed_fields =
                 (case delayed_field_keys L idx lio of None \<Rightarrow> [] | Some keys \<Rightarrow> remdups keys),
               updates_outside = False, cache = mv1, reads = rs \<rparr>"
  have s0: "prev_modified_keys s0 = hash_collect (recorded_keys L idx lio)"
    "set (prev_modified_delayed_fields s0) = set (recorded_ids L idx lio)"
    "cell (cache s0) = cell mv"
    by (auto simp: s0_def recorded_keys_def recorded_ids_def hash_collect_def cell1 split: option.splits)
  show thesis
  proof (cases "status_output st")
    case None
    define r where "r = (case st of TaskSpeculativeExecutionAbortError _ \<Rightarrow>
        capture_delta_application_failure R rs | _ \<Rightarrow> rs)"
    have fin: "(res, mv', lio', sch') =
        finish_execute M L order idorder idx st [] (s0\<lparr>reads := r\<rparr>) lio sch1"
      using run st noerr None
      by (cases st) (auto simp: execute_def s0_def status_output_def r_def split: if_splits)
    show thesis
      using None s0
      by (intro that [OF fin]) (auto simp: status_kinds_def status_ids_def status_entries_def)
  next
    case (Some out)
    obtain r s where upd: "apply_updates M R idx inc out s0 = (r, s)"
      by (cases "apply_updates M R idx inc out s0")
    have "r = None" and fin: "(res, mv', lio', sch') =
        finish_execute M L order idorder idx st (resource_write_set out) s lio sch1"
      using run st noerr Some upd
      by (cases st; cases r; auto simp: execute_def s0_def [symmetric] status_output_def)+
    note spec = apply_updates_spec [OF M upd, unfolded s0]
    show thesis
      using fin spec Some \<open>r = None\<close> s0
      by (intro that [OF fin])
        (auto simp: status_kinds_def status_ids_def status_entries_def keys_hash_collect)
  qed
qed

lemma stale_locs:
  assumes "\<And>k kind. (k, kind) \<in> set rec \<union> set new \<Longrightarrow> kind = kind_of k"
  shows "(\<Union>kk \<in> {kk \<in> set rec. fst kk \<notin> fst ` set new}. kind_locs kk) =
     (\<Union>kk \<in> set rec. kind_locs kk) - (\<Union>kk \<in> set new. kind_locs kk)" (is "?stale = ?old - ?new")
proof (intro equalityI subsetI)
  fix loc assume "loc \<in> ?stale"
  then obtain kk where kk: "kk \<in> set rec" "fst kk \<notin> fst ` set new" "loc \<in> kind_locs kk" by blast
  then have "loc \<notin> ?new" using kind_locs_key by (metis UN_E image_eqI)
  with kk show "loc \<in> ?old - ?new" by blast
next
  fix loc assume "loc \<in> ?old - ?new"
  then obtain k kind where kk: "(k, kind) \<in> set rec" "loc \<in> kind_locs (k, kind)" and new: "loc \<notin> ?new"
    by auto
  have "(k, kind') \<notin> set new" for kind'
    using kk new assms [of k kind] assms [of k kind'] by blast
  with kk show "loc \<in> ?stale" by force
qed

lemma execute_cells:
  assumes M: "mv_contract M cell est" and vm: "vm_contract vm cell"
    and order: "\<And>xs. set (order xs) = set xs" "\<And>xs. set (idorder xs) = set xs"
    and run: "execute M R L order idorder vm idx inc block mv lio sch = Inr (res, mv', lio', sch')"
    and st: "vm (block ! idx) idx mv sch = (st, rs, mv1, sch1)"
    and noerr: "\<And>e. res \<noteq> Inl (CodeInvariantError e)"
    and tracked: "\<And>loc. cell mv (loc, idx) \<noteq> None \<Longrightarrow> loc \<in> tracked_locs L idx lio"
    and kinds: "\<And>k kind. (k, kind) \<in> set (recorded_keys L idx lio) \<union> set (status_kinds st) \<Longrightarrow> kind = kind_of k"
  shows "(\<forall>f. loc \<noteq> DelayedLoc f) \<Longrightarrow> cell mv' (loc, idx) = map_of (rev (status_entries inc st)) loc"
    and "cell mv' (DelayedLoc f, idx) \<noteq> None \<Longrightarrow> f \<in> set (status_ids st)"
    and "t \<noteq> idx \<Longrightarrow> cell mv' (loc, t) = cell mv (loc, t)"
    and "res = Inr False \<Longrightarrow> fst ` set (status_kinds st) \<subseteq> fst ` set (recorded_keys L idx lio)"
    and "\<exists>ok rs' writes. record_io L idx rs' st writes lio = (ok, lio') \<and> (ok \<longleftrightarrow> (\<exists>b. res = Inr b))"
proof -
  obtain s writes where
    fin: "(res, mv', lio', sch') = finish_execute M L order idorder idx st writes s lio sch1"
    and prev: "prev_modified_keys s =
      filter (\<lambda>kk. fst kk \<notin> fst ` set (status_kinds st)) (hash_collect (recorded_keys L idx lio))"
    and prevd: "set (prev_modified_delayed_fields s) = set (recorded_ids L idx lio) - set (status_ids st)"
    and outside: "\<not> updates_outside s \<Longrightarrow>
      fst ` set (status_kinds st) \<subseteq> fst ` set (recorded_keys L idx lio)"
    and cells: "\<And>loc t. cell (cache s) (loc, t) \<noteq> put idx (status_entries inc st) (cell mv) (loc, t) \<Longrightarrow>
       t = idx \<and> loc \<in> DelayedLoc ` set (status_ids st)"
    by (rule execute_reaches_finish [OF M vm run st noerr]) (rule that)
  have "\<forall>(k, a) \<in> set (recorded_keys L idx lio). a = kind_of k" by (auto intro: kinds)
  then have stale: "set (prev_modified_keys s) =
      {kk \<in> set (recorded_keys L idx lio). fst kk \<notin> fst ` set (status_kinds st)}"
    by (simp add: prev set_hash_collect [of "recorded_keys L idx lio" kind_of])
  then have locs: "(\<Union>kk \<in> set (prev_modified_keys s). kind_locs kk) =
     (\<Union>kk \<in> set (recorded_keys L idx lio). kind_locs kk) - (\<Union>kk \<in> set (status_kinds st). kind_locs kk)"
    using stale_locs [OF kinds] by simp
  have fin_cell: "cell mv' (loc, t) =
     (if t = idx \<and> (loc \<in> (\<Union>kk \<in> set (prev_modified_keys s). kind_locs kk) \<or>
          loc \<in> DelayedLoc ` (set (recorded_ids L idx lio) - set (status_ids st)))
      then None else cell (cache s) (loc, t))" for loc t
    using fin fold_delayed_remove [OF M] fold_remove_entry [OF M] order prevd
    by (auto simp: finish_execute_def Let_def split: prod.splits)
  obtain ok where io: "record_io L idx (reads s) st writes lio = (ok, lio')"
    and res: "res = (if ok then Inr (updates_outside s) else Inl (Or ModulePathReadWriteError))"
    using fin by (simp add: finish_execute_def split: prod.splits)
  show "res = Inr False \<Longrightarrow> fst ` set (status_kinds st) \<subseteq> fst ` set (recorded_keys L idx lio)"
    using outside unfolding res by (simp split: if_splits)
  show "\<exists>ok rs' writes. record_io L idx rs' st writes lio = (ok, lio') \<and> (ok \<longleftrightarrow> (\<exists>b. res = Inr b))"
    using io res by (intro exI [of _ ok] exI [of _ "reads s"] exI [of _ writes]) simp
  have written: "cell (cache s) (loc, t) =
      (if t = idx \<and> map_of (rev (status_entries inc st)) loc \<noteq> None
       then map_of (rev (status_entries inc st)) loc else cell mv (loc, t))"
    if "t \<noteq> idx \<or> loc \<notin> DelayedLoc ` set (status_ids st)" for loc t
    using cells [of loc t] that by (simp only: put_def prod.case) blast
  show "cell mv' (loc, t) = cell mv (loc, t)" if "t \<noteq> idx"
    using fin_cell [of loc t] written [of t loc] that by simp
  have ent: "loc \<in> (\<Union>kk \<in> set (status_kinds st). kind_locs kk) \<longleftrightarrow>
      map_of (rev (status_entries inc st)) loc \<noteq> None" for loc
    using status_entries_locs [of inc st] by (auto simp: map_of_eq_None_iff)
  show "f \<in> set (status_ids st)" if "cell mv' (DelayedLoc f, idx) \<noteq> None"
  proof (rule ccontr)
    assume f: "f \<notin> set (status_ids st)"
    have "map_of (rev (status_entries inc st)) (DelayedLoc f) = None"
      using ent [of "DelayedLoc f"] by auto
    moreover have "DelayedLoc f \<notin> DelayedLoc ` set (status_ids st)" using f by blast
    ultimately have same: "cell (cache s) (DelayedLoc f, idx) = cell mv (DelayedLoc f, idx)"
      using written [of idx "DelayedLoc f"] by simp
    show False
    proof (cases "f \<in> set (recorded_ids L idx lio)")
      case True
      with f fin_cell [of "DelayedLoc f" idx] that show False by auto
    next
      case False
      then have "cell mv (DelayedLoc f, idx) = None" using tracked by (force simp: tracked_locs_def)
      with same fin_cell [of "DelayedLoc f" idx] that show False by (simp split: if_splits)
    qed
  qed
  show "cell mv' (loc, idx) = map_of (rev (status_entries inc st)) loc" if nd: "\<forall>f. loc \<noteq> DelayedLoc f"
  proof -
    have nd': "loc \<notin> DelayedLoc ` X" for X using nd by blast
    have here: "cell mv (loc, idx) \<noteq> None \<Longrightarrow> loc \<in> (\<Union>kk \<in> set (recorded_keys L idx lio). kind_locs kk)"
      using tracked [of loc] nd' by (simp add: tracked_locs_def del: UN_iff)
    show ?thesis
      using written [of idx loc] fin_cell [of loc idx, unfolded locs] ent [of loc] here nd'
      by (cases "cell mv (loc, idx)"; cases "map_of (rev (status_entries inc st)) loc")
        (simp_all del: UN_iff)
  qed
qed

section \<open>A reference cache, and a reference table of outputs\<close>

text \<open>
  Plain maps that satisfy the contracts: the concrete instances the properties below are
  evaluated on.
\<close>

definition map_cache where
  "map_cache =
     \<lparr> data_write = \<lambda>k t i v l (c, e). (c((DataLoc k, t) \<mapsto> Written i v l), e),
       data_add_delta = \<lambda>k t d (c, e). (c((DataLoc k, t) \<mapsto> DeltaEntry d), e),
       data_remove = \<lambda>k t (c, e). (c((DataLoc k, t) := None), e),
       data_mark_estimate = \<lambda>k t (c, e). (c, insert (DataLoc k, t) e),
       group_write = \<lambda>k t i ops (c, e).
         (c (GroupLoc k, t) = None, c((GroupLoc k, t) \<mapsto> GroupWritten i ops), e),
       group_remove = \<lambda>k t (c, e). (c((GroupLoc k, t) := None), e),
       group_mark_estimate = \<lambda>k t (c, e). (c, insert (GroupLoc k, t) e),
       modules_write = \<lambda>k t v (c, e). (c((ModuleLoc k, t) \<mapsto> ModuleWritten v), e),
       modules_remove = \<lambda>k t (c, e). (c((ModuleLoc k, t) := None), e),
       modules_mark_estimate = \<lambda>k t (c, e). (c, insert (ModuleLoc k, t) e),
       delayed_record_change = \<lambda>f t ch (c, e). (Inr (), c((DelayedLoc f, t) \<mapsto> DelayedEntry), e),
       delayed_remove = \<lambda>f t (c, e). (c((DelayedLoc f, t) := None), e),
       delayed_mark_estimate = \<lambda>f t (c, e). (c, insert (DelayedLoc f, t) e),
       delayed_try_commit = \<lambda>t fs m. (Inr (), m) \<rparr>"

lemma map_cache_contract: "mv_contract map_cache fst snd"
  by (auto simp: mv_contract_def map_cache_def split: prod.splits)

text \<open>
  The documented behaviour of the table: after an output was recorded, the table reports the
  keys and the delayed fields of that output for its index, and what it reported before for
  the other indices.
\<close>

definition lio_contract where
  "lio_contract L \<longleftrightarrow> (\<forall>idx rs st writes lio lio'.
     record_io L idx rs st writes lio = (True, lio') \<longrightarrow>
       set (recorded_keys L idx lio') = set (status_kinds st) \<and>
       set (recorded_ids L idx lio') = set (status_ids st) \<and>
       (\<forall>t. t \<noteq> idx \<longrightarrow> recorded_keys L t lio' = recorded_keys L t lio \<and>
                     recorded_ids L t lio' = recorded_ids L t lio))"

definition table_io where
  "table_io =
     \<lparr> modified_keys = \<lambda>idx lio. map_option fst (lio idx),
       delayed_field_keys = \<lambda>idx lio. map_option snd (lio idx),
       record_io = \<lambda>idx (rs :: unit) st writes lio. (True, lio(idx \<mapsto> (status_kinds st, status_ids st))),
       read_set = \<lambda>idx lio. Some () \<rparr>"

lemma table_io_contract: "lio_contract table_io"
  by (auto simp: lio_contract_def table_io_def recorded_keys_def recorded_ids_def)

text \<open>
  A block of two transactions over these instances: the first wrote keys 1 and 3 in its first
  incarnation, and in the next one writes key 1, a module at key 2 and a delayed field.
\<close>

definition sample_output where
  "sample_output =
     \<lparr> resource_write_set = [(1::nat, 10::nat, None::nat option)],
       resource_group_write_set = ([] :: (nat \<times> nat \<times> (nat \<times> nat \<times> nat option) list) list),
       aggregator_v1_write_set = [], module_write_set = [(2, 20)],
       aggregator_v1_delta_set = ([] :: (nat \<times> nat) list),
       delayed_field_change_set = [(7::nat, Create 0 :: (nat, nat) DelayedChange)],
       output_rest = () \<rparr>"

definition sample_vm where
  "sample_vm txn idx mv sch = (TaskSuccess sample_output :: (_, unit) TaskStatus, (), mv, sch)"

type_synonym sample_mv =
  "((nat, nat) loc \<times> nat \<Rightarrow> (nat, nat, nat, nat) content option) \<times> ((nat, nat) loc \<times> nat) set"

definition sample_reads :: "(unit, sample_mv) CapturedReads" where
  "sample_reads =
     \<lparr> capture_delta_application_failure = id, is_incorrect_use = \<lambda>_. False,
       validate_data_reads = \<lambda>_ _ _. True, validate_group_reads = \<lambda>_ _ _. True,
       validate_delayed_field_reads = \<lambda>_ _ _. Inr True \<rparr>"

definition sample_cache :: sample_mv where
  "sample_cache =
     ([(DataLoc 1, 0) \<mapsto> Written 0 5 None, (DataLoc 3, 0) \<mapsto> Written 0 6 None,
       (DataLoc 3, 1) \<mapsto> Written 0 8 None], {})"

definition sample_io :: "nat \<Rightarrow> ((nat \<times> KeyKind) list \<times> nat list) option" where
  "sample_io = [0 \<mapsto> ([(1, Resource), (3, Resource)], []), 1 \<mapsto> ([(3, Resource)], [])]"

definition sample_table :: "(nat \<Rightarrow> ((nat \<times> KeyKind) list \<times> nat list) option, nat, nat, nat, nat, unit,
    (nat, nat, nat, nat, nat, nat, nat, nat, unit) TxnOutput, unit) TxnLastInputOutput" where
  "sample_table = table_io"

lemma sample_table_contract: "lio_contract sample_table"
  by (simp add: sample_table_def table_io_contract)

lemma sample_vm_contract: "vm_contract sample_vm cell"
  by (simp add: vm_contract_def sample_vm_def)

lemma sample_tracked: "tracked fst sample_table sample_cache sample_io"
proof -
  have "tracked_locs sample_table 0 sample_io = {DataLoc 1, DataLoc 3}"
    "tracked_locs sample_table 1 sample_io = {DataLoc 3}"
    by (auto simp: tracked_locs_def recorded_keys_def recorded_ids_def sample_table_def table_io_def sample_io_def)
  then show ?thesis by (auto simp: tracked_def sample_cache_def split: if_splits)
qed

lemma sample_tracked_here:
  "\<forall>loc. fst sample_cache (loc, 0) \<noteq> None \<longrightarrow> loc \<in> tracked_locs sample_table 0 sample_io"
  using sample_tracked unfolding tracked_def by blast

lemma sample_kinds:
  "\<forall>k kind. (k, kind) \<in> set (recorded_keys sample_table 0 sample_io) \<union>
       set (status_kinds (TaskSuccess sample_output :: (_, unit) TaskStatus)) \<longrightarrow>
     kind = (if k = 2 then Module else Resource)"
  by (auto simp: recorded_keys_def sample_table_def table_io_def sample_io_def status_kinds_def status_output_def
      output_kinds_def sample_output_def split: if_splits)

lemma sample_execute:
  "\<exists>mv' lio'. execute map_cache sample_reads sample_table id id sample_vm 0 1 [(), ()] sample_cache sample_io () =
     Inr (Inr True, mv', lio', ())"
  by (simp add: execute_def sample_vm_def sample_output_def finish_execute_def apply_updates_def
      apply_resource_def apply_module_def note_write_def Let_def map_cache_def sample_table_def table_io_def
      sample_io_def hash_collect_def sample_cache_def index_at_def split: prod.splits)

section \<open>Properties\<close>

text \<open>
  C9. After a speculative execution that returns without an invariant error, the cache holds
  for the executed transaction exactly the entries of its new output: every resource, group
  and module location has the value the output gives it, a location the previous incarnation
  wrote and this one did not is gone, and the delayed fields are among those the output
  changes. No entry of another transaction changes. When the execution reports that nothing
  was written outside the previous write set, every written key was in it.
\<close>

theorem execute_cache_spec:
  assumes "mv_contract M cell est" and "vm_contract vm cell"
    and "\<forall>xs. set (order xs) = set xs" and "\<forall>xs. set (idorder xs) = set xs"
    and "execute M R L order idorder vm idx inc block mv lio sch = Inr (res, mv', lio', sch')"
    and "vm (block ! idx) idx mv sch = (st, rs, mv1, sch1)"
    and "\<forall>e. res \<noteq> Inl (CodeInvariantError e)"
    and "\<forall>loc. cell mv (loc, idx) \<noteq> None \<longrightarrow> loc \<in> tracked_locs L idx lio"
    and "\<forall>k kind. (k, kind) \<in> set (recorded_keys L idx lio) \<union> set (status_kinds st) \<longrightarrow> kind = kind_of k"
  shows "(\<forall>loc. (\<forall>f. loc \<noteq> DelayedLoc f) \<longrightarrow>
       cell mv' (loc, idx) = map_of (rev (status_entries inc st)) loc) \<and>
     (\<forall>f. cell mv' (DelayedLoc f, idx) \<noteq> None \<longrightarrow> f \<in> set (status_ids st)) \<and>
     (\<forall>loc t. t \<noteq> idx \<longrightarrow> cell mv' (loc, t) = cell mv (loc, t)) \<and>
     (res = Inr False \<longrightarrow> fst ` set (status_kinds st) \<subseteq> fst ` set (recorded_keys L idx lio))"
proof -
  note cells = execute_cells [OF assms(1,2) _ _ assms(5,6), of kind_of]
  show ?thesis
    using cells(1) cells(2) cells(3) cells(4) assms(3,4,7,8,9) by simp
qed

theorem execute_cache_spec_witness:
  "\<exists>mv' lio'. execute map_cache sample_reads sample_table id id sample_vm 0 1 [(), ()] sample_cache sample_io () =
       Inr (Inr True, mv', lio', ()) \<and>
     fst mv' (DataLoc 1, 0) = Some (Written 1 10 None) \<and>
     fst mv' (ModuleLoc 2, 0) = Some (ModuleWritten 20) \<and>
     fst mv' (DataLoc 3, 0) = None \<and> fst mv' (DataLoc 3, 1) = Some (Written 0 8 None)"
proof -
  from sample_execute obtain mv' lio' where run:
    "execute map_cache sample_reads sample_table id id sample_vm 0 1 [(), ()] sample_cache sample_io () =
       Inr (Inr True, mv', lio', ())" by blast
  have vm: "sample_vm ([(), ()] ! 0) 0 sample_cache () = (TaskSuccess sample_output, (), sample_cache, ())"
    by (simp add: sample_vm_def)
  have ids: "\<forall>xs. set (id xs) = set xs" by simp
  note spec = execute_cache_spec [OF map_cache_contract sample_vm_contract ids ids run vm _
      sample_tracked_here sample_kinds]
  have "\<forall>loc. (\<forall>f. loc \<noteq> DelayedLoc f) \<longrightarrow> fst mv' (loc, 0) =
        map_of (rev (status_entries 1 (TaskSuccess sample_output :: (_, unit) TaskStatus))) loc"
    "\<forall>loc t. t \<noteq> 0 \<longrightarrow> fst mv' (loc, t) = fst sample_cache (loc, t)"
    using spec by auto
  then have "fst mv' (DataLoc 1, 0) = Some (Written 1 10 None)"
    "fst mv' (ModuleLoc 2, 0) = Some (ModuleWritten 20)"
    "fst mv' (DataLoc 3, 0) = None" "fst mv' (DataLoc 3, 1) = Some (Written 0 8 None)"
    by (simp_all add: status_entries_def status_output_def output_entries_def sample_output_def
        sample_cache_def)
  with run show ?thesis by blast
qed

lemma execute_tracked:
  assumes "mv_contract M cell est" and "vm_contract vm cell" and L: "lio_contract L"
    and "\<forall>xs. set (order xs) = set xs" and "\<forall>xs. set (idorder xs) = set xs"
    and run: "execute M R L order idorder vm idx inc block mv lio sch = Inr (Inr outside, mv', lio', sch')"
    and st: "vm (block ! idx) idx mv sch = (st, rs, mv1, sch1)"
    and tr: "tracked cell L mv lio"
    and "\<forall>k kind. (k, kind) \<in> set (recorded_keys L idx lio) \<union> set (status_kinds st) \<longrightarrow> kind = kind_of k"
  shows "tracked cell L mv' lio'"
proof -
  note cells = execute_cells [OF assms(1,2) _ _ run st, of kind_of]
  from cells(5) assms(4,5,9) tr obtain rs' writes where "record_io L idx rs' st writes lio = (True, lio')"
    by (auto simp: tracked_def)
  with L have io: "set (recorded_keys L idx lio') = set (status_kinds st)"
    "set (recorded_ids L idx lio') = set (status_ids st)"
    "\<And>t. t \<noteq> idx \<Longrightarrow> recorded_keys L t lio' = recorded_keys L t lio \<and> recorded_ids L t lio' = recorded_ids L t lio"
    unfolding lio_contract_def by blast+
  have own: "loc \<in> tracked_locs L idx lio'" if "cell mv' (loc, idx) \<noteq> None" for loc
  proof (cases "\<exists>f. loc = DelayedLoc f")
    case True
    with that cells(2) assms(4,5,9) tr io show ?thesis by (auto simp: tracked_def tracked_locs_def)
  next
    case False
    with that cells(1) [of loc] assms(4,5,9) tr have "map_of (rev (status_entries inc st)) loc \<noteq> None"
      by (auto simp: tracked_def)
    then have "loc \<in> fst ` set (status_entries inc st)" by (auto simp: map_of_eq_None_iff)
    then show ?thesis unfolding status_entries_locs tracked_locs_def io by blast
  qed
  have "loc \<in> tracked_locs L t lio'" if "cell mv' (loc, t) \<noteq> None" "t \<noteq> idx" for loc t
    using that tr cells(3) [of t loc] assms(4,5,9) io(3) [of t] by (simp add: tracked_def tracked_locs_def)
  with own show ?thesis unfolding tracked_def by metis
qed

text \<open>
  C10. The bookkeeping invariant of the parallel executor: every entry a transaction has in
  the cache is at a location the table of last outputs records for it. An execution that
  returns keeps it, for all transactions.
\<close>

theorem execute_keeps_tracked:
  assumes "mv_contract M cell est" and "vm_contract vm cell" and "lio_contract L"
    and "\<forall>xs. set (order xs) = set xs" and "\<forall>xs. set (idorder xs) = set xs"
    and "execute M R L order idorder vm idx inc block mv lio sch = Inr (Inr outside, mv', lio', sch')"
    and "vm (block ! idx) idx mv sch = (st, rs, mv1, sch1)"
    and "tracked cell L mv lio"
    and "\<forall>k kind. (k, kind) \<in> set (recorded_keys L idx lio) \<union> set (status_kinds st) \<longrightarrow> kind = kind_of k"
  shows "tracked cell L mv' lio'"
  using assms by (rule execute_tracked)

theorem execute_keeps_tracked_witness:
  "\<exists>mv' lio'. execute map_cache sample_reads sample_table id id sample_vm 0 1 [(), ()] sample_cache sample_io () =
       Inr (Inr True, mv', lio', ()) \<and> tracked fst sample_table mv' lio'"
proof -
  from sample_execute obtain mv' lio' where run:
    "execute map_cache sample_reads sample_table id id sample_vm 0 1 [(), ()] sample_cache sample_io () =
       Inr (Inr True, mv', lio', ())" by blast
  have vm: "sample_vm ([(), ()] ! 0) 0 sample_cache () = (TaskSuccess sample_output, (), sample_cache, ())"
    by (simp add: sample_vm_def)
  have ids: "\<forall>xs. set (id xs) = set xs" by simp
  have "tracked fst sample_table mv' lio'"
    by (rule execute_keeps_tracked [OF map_cache_contract sample_vm_contract sample_table_contract ids ids run vm
        sample_tracked sample_kinds])
  with run show ?thesis by blast
qed

lemma fold_mark_entry:
  assumes "mv_contract M cell est"
  shows "cell (fold (mark_entry M idx) kks mv) = cell mv \<and>
     est (fold (mark_entry M idx) kks mv) = est mv \<union> (\<Union>kk \<in> set kks. kind_locs kk) \<times> {idx}"
proof (induction kks arbitrary: mv)
  case (Cons kk kks)
  have "cell (mark_entry M idx kk mv) = cell mv \<and>
      est (mark_entry M idx kk mv) = est mv \<union> kind_locs kk \<times> {idx}"
    using mv_contract_estimateD [OF assms]
    by (cases kk rule: kind_locs.cases) (auto simp: mark_entry_def)
  with Cons.IH [of "mark_entry M idx kk mv"] show ?case by auto
qed simp

lemma fold_delayed_mark:
  assumes "mv_contract M cell est"
  shows "cell (fold (\<lambda>f. delayed_mark_estimate M f idx) fs mv) = cell mv \<and>
     est (fold (\<lambda>f. delayed_mark_estimate M f idx) fs mv) = est mv \<union> (DelayedLoc ` set fs) \<times> {idx}"
  using mv_contract_estimateD [OF assms] by (induction fs arbitrary: mv) auto

lemma update_transaction_on_abort_marks:
  assumes "mv_contract M cell est"
  shows "cell (update_transaction_on_abort M L idx lio mv) = cell mv \<and>
     est (update_transaction_on_abort M L idx lio mv) = est mv \<union> tracked_locs L idx lio \<times> {idx}"
  using fold_mark_entry [OF assms] fold_delayed_mark [OF assms]
  by (auto simp: update_transaction_on_abort_def tracked_locs_def recorded_keys_def recorded_ids_def
      split: option.splits)

text \<open>
  C11. The outcome of a validation. When the validation failed and this worker won the
  abort, every entry of the transaction is an estimate afterwards, no other entry became one
  and no entry was lost; in every other case the cache is untouched and the worker asks for a
  new task, having armed the commit queue exactly when the validation passed.
\<close>

theorem update_on_validation_spec:
  assumes "mv_contract M cell est" and "tracked cell L mv lio"
    and "update_on_validation M L S idx inc valid wave lio mv sch = (task, mv', sch')"
  shows "cell mv' = cell mv \<and>
     (if \<not> valid \<and> fst (try_abort S idx inc sch)
      then est mv' = est mv \<union> tracked_locs L idx lio \<times> {idx} \<and>
           (\<forall>loc. cell mv' (loc, idx) \<noteq> None \<longrightarrow> (loc, idx) \<in> est mv') \<and>
           (task, sch') = finish_abort S idx inc (snd (try_abort S idx inc sch))
      else mv' = mv \<and> task = Inr RetryTask \<and>
           sch' = (if valid then queueing_commits_arm S (finish_validation S idx wave sch)
                   else finish_validation S idx wave (snd (try_abort S idx inc sch))))"
  using assms update_transaction_on_abort_marks [OF assms(1), of L idx lio mv]
  by (auto simp: update_on_validation_def tracked_def Let_def split: prod.splits if_splits)

theorem update_on_validation_spec_witness:
  "update_on_validation map_cache sample_table
       \<lparr> try_abort = \<lambda>_ _ s. (True, s), finish_abort = \<lambda>_ _ s. (Inr RetryTask, s),
         finish_validation = \<lambda>_ _ s. s, queueing_commits_arm = Suc \<rparr>
       0 0 False 0 sample_io sample_cache 5 =
     (Inr RetryTask, (fst sample_cache, {(DataLoc 1, 0), (DataLoc 3, 0)}), 5) \<and>
   {(DataLoc 1, 0), (DataLoc 3, 0)} = snd sample_cache \<union> tracked_locs sample_table 0 sample_io \<times> {0}"
  (is "?run \<and> _")
proof -
  have run: ?run
    by (auto simp: update_on_validation_def update_transaction_on_abort_def mark_entry_def
        map_cache_def sample_table_def table_io_def sample_io_def sample_cache_def)
  from update_on_validation_spec [OF map_cache_contract sample_tracked run] run show ?thesis by simp
qed

end
