(* ===== verification/Block_Commit.thy ===== *)
theory Block_Commit
  imports Block_Execute
begin

text \<open>
  Committing and materialising transactions in the parallel block executor
  (\<^verbatim>\<open>block-executor/src/executor.rs\<close>): the commit loop
  \<open>prepare_and_queue_commit_ready_txns\<close>, \<open>materialize_aggregator_v1_delta_writes\<close>,
  \<open>materialize_txn_commit\<close>, the worker loop and \<open>execute_transactions_parallel\<close>.

  A worker is a small state machine; a run of the thread pool is any interleaving of the moves of
  the workers (\<open>par_step\<close>). Popping an index, materialising its output, calling the hook and storing
  the output are moves of their own, so that other workers act in between, hooks of different indices
  may be called in any order and a popped index may not have been hooked yet. One call of
  \<open>prepare_and_queue_commit_ready_txns\<close>, which the scheduling never runs concurrently with itself, and
  one task are single moves. The scheduler is a
  parameter; \<open>commit_contract\<close> says what the code relies on: \<open>try_commit\<close> hands out the
  indices in order, and the commit queue is a queue. Calls of the commit hook are recorded in a
  log. The commit loop has no bound of its own and runs on fuel, \<open>None\<close> meaning that the
  fuel ran out.
\<close>

section \<open>The external components\<close>

record 'sch CommitScheduler =
  try_commit :: "'sch \<Rightarrow> (TxnIndex \<times> Incarnation) option \<times> 'sch"
  finish_execution_during_commit :: "TxnIndex \<Rightarrow> 'sch \<Rightarrow> (string + unit) \<times> 'sch"
  num_txns :: "'sch \<Rightarrow> nat"
  add_to_commit_queue :: "TxnIndex \<Rightarrow> 'sch \<Rightarrow> 'sch"
  pop_from_commit_queue :: "'sch \<Rightarrow> TxnIndex option \<times> 'sch"
  halt :: "'sch \<Rightarrow> bool \<times> 'sch"
  should_coordinate_commits :: "'sch \<Rightarrow> bool \<times> 'sch"
  queueing_commits_mark_done :: "'sch \<Rightarrow> 'sch"
  finish_execution :: "TxnIndex \<Rightarrow> Incarnation \<Rightarrow> bool \<Rightarrow> 'sch \<Rightarrow> (string + SchedulerTask) \<times> 'sch"
  next_task :: "'sch \<Rightarrow> SchedulerTask \<times> 'sch"
  wake_dependency :: "nat \<Rightarrow> 'sch \<Rightarrow> 'sch"

record ('lio, 'k, 'v, 'l, 'fee, 'rw, 'fg, 'ev, 'wop, 'o, 'e) CommitTable =
  check_fatal_vm_error :: "TxnIndex \<Rightarrow> 'lio \<Rightarrow> ParallelBlockExecutionError + unit"
  check_execution_status_during_commit :: "TxnIndex \<Rightarrow> 'lio \<Rightarrow> string + unit"
  fee_statement :: "TxnIndex \<Rightarrow> 'lio \<Rightarrow> 'fee option"
  output_approx_size :: "TxnIndex \<Rightarrow> 'lio \<Rightarrow> u64 option"
  get_txn_read_write_summary :: "TxnIndex \<Rightarrow> 'lio \<Rightarrow> 'rw"
  update_to_skip_rest :: "TxnIndex \<Rightarrow> 'lio \<Rightarrow> 'lio"
  block_skips_rest_at_idx :: "TxnIndex \<Rightarrow> 'lio \<Rightarrow> bool"
  groups_to_finalize :: "TxnIndex \<Rightarrow> 'lio \<Rightarrow> (('k \<times> 'v) \<times> bool) list"
  record_finalized_group :: "TxnIndex \<Rightarrow> 'fg list \<Rightarrow> 'lio \<Rightarrow> 'lio"
  take_finalized_group :: "TxnIndex \<Rightarrow> 'lio \<Rightarrow> 'fg list \<times> 'lio"
  take_resource_write_set :: "TxnIndex \<Rightarrow> 'lio \<Rightarrow> ('k \<times> 'v \<times> 'l option) list \<times> 'lio"
  events :: "TxnIndex \<Rightarrow> 'lio \<Rightarrow> 'ev list"
  aggregator_v1_delta_keys :: "TxnIndex \<Rightarrow> 'lio \<Rightarrow> 'k list"
  record_materialized_txn_output ::
    "TxnIndex \<Rightarrow> ('k \<times> 'wop) list \<Rightarrow> ('k \<times> 'v) list \<Rightarrow> 'ev list \<Rightarrow> 'lio \<Rightarrow> (string + unit) \<times> 'lio"
  txn_output :: "TxnIndex \<Rightarrow> 'lio \<Rightarrow> ('o, 'e) TaskStatus option"
  take_output :: "TxnIndex \<Rightarrow> 'lio \<Rightarrow> ('o, 'e) TaskStatus \<times> 'lio"

record ('bl, 'fee, 'rw) BlockLimit =
  accumulate_fee_statement :: "'fee \<Rightarrow> 'rw option \<Rightarrow> u64 option \<Rightarrow> 'bl \<Rightarrow> 'bl"
  should_end_block_parallel :: "'bl \<Rightarrow> bool"
  block_output_limit :: "u64 option"
  include_user_txn_size_in_block_output :: bool
  conflict_penalty_window :: "u64 option"

record ('mv, 'k, 'v, 'l, 'fr, 'fg, 'mg, 'mw, 'ev, 'op, 'sv, 'wop) Materializer =
  get_last_committed_group :: "'k \<Rightarrow> 'mv \<Rightarrow> 'fr"
  finalize_group :: "'k \<Rightarrow> TxnIndex \<Rightarrow> 'mv \<Rightarrow> 'fr \<times> 'mv"
  map_finalized_group :: "'k \<Rightarrow> 'fr \<Rightarrow> 'v \<Rightarrow> bool \<Rightarrow> string + 'fg"
  map_id_to_values_in_group_writes :: "'fg list \<Rightarrow> 'mv \<Rightarrow> string + 'mg list"
  serialize_groups :: "'mg list \<Rightarrow> string + ('k \<times> 'v) list"
  resource_writes_to_materialize :: "('k \<times> 'v \<times> 'l option) list \<Rightarrow> TxnIndex \<Rightarrow> 'mv \<Rightarrow> string + 'mw list"
  map_id_to_values_in_write_set :: "'mw list \<Rightarrow> 'mv \<Rightarrow> string + ('k \<times> 'v) list"
  map_id_to_values_events :: "'ev list \<Rightarrow> 'mv \<Rightarrow> string + 'ev list"
  materialize_delta :: "'k \<Rightarrow> TxnIndex \<Rightarrow> 'mv \<Rightarrow> ('op + nat) \<times> 'mv"
  set_base_value :: "'k \<Rightarrow> 'v \<Rightarrow> 'mv \<Rightarrow> 'mv"
  get_state_value :: "'k \<Rightarrow> string + 'sv option"
  from_state_value :: "'sv option \<Rightarrow> 'v"
  as_u128 :: "'v \<Rightarrow> string + nat option"
  apply_to :: "'op \<Rightarrow> nat \<Rightarrow> string + nat"
  legacy_modification :: "nat \<Rightarrow> 'wop"

datatype 'o hook_event = on_transaction_committed TxnIndex 'o | on_execution_aborted TxnIndex

section \<open>The commit loop\<close>

text \<open>Lines 447 to 485: is the transaction still valid, and if not, its last re-execution.\<close>

definition ready_or_reexecute where
  "ready_or_reexecute M R L order idorder vm S block idx inc mv lio sch =
     rbind (validate_commit_ready M R L idx mv lio) (\<lambda>(still_valid, mv1).
     case still_valid of
       Inl e \<Rightarrow> Inr (Inl (CodeInvariantError e), mv1, lio, sch)
     | Inr True \<Rightarrow> Inr (Inr (), mv1, lio, sch)
     | Inr False \<Rightarrow>
         rbind (execute M R L order idorder vm idx (inc + 1) block
                  (update_transaction_on_abort M L idx lio mv1) lio sch) (\<lambda>(r, mv2, lio2, sch2).
         case r of
           Inl e \<Rightarrow> Inr (Inl e, mv2, lio2, sch2)
         | Inr _ \<Rightarrow>
             (case finish_execution_during_commit S idx sch2 of
                (Inl e, sch3) \<Rightarrow> Inr (Inl (CodeInvariantError e), mv2, lio2, sch3)
              | (Inr _, sch3) \<Rightarrow>
                  rbind (validate R L idx lio2 mv2) (\<lambda>validation_result.
                  case validation_result of
                    Inl e \<Rightarrow> Inr (Inl (CodeInvariantError e), mv2, lio2, sch3)
                  | Inr False \<Rightarrow>
                      Inr (Inl (CodeInvariantError ''Validation after re-execution failed''), mv2, lio2, sch3)
                  | Inr True \<Rightarrow>
                      rbind (validate_commit_ready M R L idx mv2 lio2) (\<lambda>(again, mv3).
                      Inr (if again = Inr True then Inr ()
                           else Inl (CodeInvariantError ''Validation after re-execution failed''),
                           mv3, lio2, sch3))))))"

text \<open>Lines 487 to 523: error checks and the accounting of the block limits.\<close>

definition account_commit where
  "account_commit C S B user_txn_bytes_len block idx lio sch bl =
     (case check_fatal_vm_error C idx lio of
        Inl e \<Rightarrow> Inr (Inl (Or e), lio, bl)
      | Inr _ \<Rightarrow>
        (case check_execution_status_during_commit C idx lio of
           Inl e \<Rightarrow> Inr (Inl (CodeInvariantError e), lio, bl)
         | Inr _ \<Rightarrow>
           (case fee_statement C idx lio of
              None \<Rightarrow> Inr (Inr (), lio, bl)
            | Some fee \<Rightarrow>
                rbind (case block_output_limit B of
                         None \<Rightarrow> Inr None
                       | Some _ \<Rightarrow>
                           (case output_approx_size C idx lio of
                              None \<Rightarrow> Inr None
                            | Some approx_output \<Rightarrow>
                                rbind (if include_user_txn_size_in_block_output B
                                       then rbind (index_at block idx) (\<lambda>txn. Inr (user_txn_bytes_len txn))
                                       else Inr 0) (\<lambda>user.
                                rbind (add_c approx_output user) (\<lambda>total. Inr (Some total)))))
                  (\<lambda>approx_output_size.
                let summary = map_option (\<lambda>_. get_txn_read_write_summary C idx lio) (conflict_penalty_window B);
                    bl' = accumulate_fee_statement B fee summary approx_output_size bl
                in rbind (sub_nat (num_txns S sch) 1) (\<lambda>last.
                Inr (Inr (),
                     if idx < last \<and> should_end_block_parallel B bl' then update_to_skip_rest C idx lio else lio,
                     bl'))))))"

fun finalize_groups where
  "finalize_groups Z idx [] mv = (Inr [], mv)"
| "finalize_groups Z idx (((group_key, metadata_op), is_read_needing_exchange) # gs) mv =
     (let (finalized_result, mv1) =
        (if is_read_needing_exchange then (get_last_committed_group Z group_key mv, mv)
         else finalize_group Z group_key idx mv)
      in case map_finalized_group Z group_key finalized_result metadata_op is_read_needing_exchange of
           Inl e \<Rightarrow> (Inl e, mv1)
         | Inr g \<Rightarrow>
             (case finalize_groups Z idx gs mv1 of
                (Inl e, mv2) \<Rightarrow> (Inl e, mv2)
              | (Inr fs, mv2) \<Rightarrow> (Inr (g # fs), mv2)))"

datatype loop_exit = Continue | Return

fun is_execution_task :: "SchedulerTask \<Rightarrow> bool" where
  "is_execution_task (ExecutionTask _ _ _) = True"
| "is_execution_task _ = False"

text \<open>
  One pass of the loop for the index that \<open>try_commit\<close> returned. The deferred
  \<open>add_to_commit_queue\<close> runs last, after a possible \<open>halt\<close>.
\<close>

fun commit_txn where
  "commit_txn M R L order idorder vm S C B Z user_txn_bytes_len block task idx inc (mv, lio, sch, bl) =
     rbind (ready_or_reexecute M R L order idorder vm S block idx inc mv lio sch) (\<lambda>(r, mv1, lio1, sch1).
     case r of
       Inl e \<Rightarrow> Inr (Inl e, mv1, lio1, sch1, bl)
     | Inr _ \<Rightarrow>
         rbind (account_commit C S B user_txn_bytes_len block idx lio1 sch1 bl) (\<lambda>(r2, lio2, bl2).
         case r2 of
           Inl e \<Rightarrow> Inr (Inl e, mv1, lio2, sch1, bl2)
         | Inr _ \<Rightarrow>
             (case finalize_groups Z idx (groups_to_finalize C idx lio2) mv1 of
                (Inl e, mv2) \<Rightarrow> Inr (Inl (CodeInvariantError e), mv2, lio2, sch1, bl2)
              | (Inr finalized_groups, mv2) \<Rightarrow>
                  let lio3 = record_finalized_group C idx finalized_groups lio2;
                      last = (idx + 1 = num_txns S sch1)
                  in if last \<or> block_skips_rest_at_idx C idx lio3
                     then rbind (assert_that (\<not> last \<or> \<not> is_execution_task task)) (\<lambda>_.
                          Inr (Inr Return, mv2, lio3,
                               add_to_commit_queue S idx (snd (halt S sch1)), bl2))
                     else Inr (Inr Continue, mv2, lio3, add_to_commit_queue S idx sch1, bl2))))"

text \<open>
  \<open>while let Some((txn_idx, incarnation)) = scheduler.try_commit()\<close> around a body.
\<close>

fun commit_loop where
  "commit_loop 0 S body st = None"
| "commit_loop (Suc fuel) S body (mv, lio, sch, bl) =
     (case try_commit S sch of
        (None, sch1) \<Rightarrow> Some (Inr (Inr (), mv, lio, sch1, bl))
      | (Some (idx, inc), sch1) \<Rightarrow>
          (case body idx inc (mv, lio, sch1, bl) of
             Inl p \<Rightarrow> Some (Inl p)
           | Inr (Inl e, st') \<Rightarrow> Some (Inr (Inl e, st'))
           | Inr (Inr Return, st') \<Rightarrow> Some (Inr (Inr (), st'))
           | Inr (Inr Continue, st') \<Rightarrow> commit_loop fuel S body st'))"

definition prepare_and_queue_commit_ready_txns where
  "prepare_and_queue_commit_ready_txns fuel M R L order idorder vm S C B Z user_txn_bytes_len block task st =
     commit_loop fuel S (commit_txn M R L order idorder vm S C B Z user_txn_bytes_len block task) st"

section \<open>Materialisation\<close>

fun materialize_deltas where
  "materialize_deltas Z idx [] mv = Inr ([], mv)"
| "materialize_deltas Z idx (k # ks) mv =
     rbind (case materialize_delta Z k idx mv of
              (Inr committed_delta, mv1) \<Rightarrow> Inr (committed_delta, mv1)
            | (Inl dop, mv1) \<Rightarrow>
                rbind (unwrap_ok (get_state_value Z k)) (\<lambda>storage_value.
                let w = from_state_value Z storage_value in
                rbind (unwrap_ok (as_u128 Z w)) (\<lambda>maybe_value.
                rbind (unwrap maybe_value) (\<lambda>value_u128.
                rbind (unwrap_ok (apply_to Z dop value_u128)) (\<lambda>committed_delta.
                Inr (committed_delta, set_base_value Z k w mv1))))))
       (\<lambda>(committed_delta, mv2).
     rbind (materialize_deltas Z idx ks mv2) (\<lambda>(rest, mv3).
     Inr ((k, legacy_modification Z committed_delta) # rest, mv3)))"

definition materialize_aggregator_v1_delta_writes where
  "materialize_aggregator_v1_delta_writes C Z idx lio mv =
     materialize_deltas Z idx (aggregator_v1_delta_keys C idx lio) mv"

record ('mv, 'lio, 'sch, 'bl, 'o) Shared =
  sh_mv :: 'mv
  sh_lio :: 'lio
  sh_sch :: 'sch
  sh_bl :: 'bl
  final_results :: "'o list"
  hook_log :: "'o hook_event list"
  shared_maybe_error :: bool

text \<open>
  Lines 656 to 692: the patched writes and events of one transaction are computed and
  recorded in the table.
\<close>

definition materialize_output where
  "materialize_output C Z idx lio mv =
     (let (finalized_groups, lio1) = take_finalized_group C idx lio in
      case map_id_to_values_in_group_writes Z finalized_groups mv of
        Inl e \<Rightarrow> Inr (Inl e, lio1, mv)
      | Inr materialized_finalized_groups \<Rightarrow>
      (case serialize_groups Z materialized_finalized_groups of
        Inl e \<Rightarrow> Inr (Inl (''Panic error in serializing groups '' @ e), lio1, mv)
      | Inr serialized_groups \<Rightarrow>
      let (resource_write_set, lio2) = take_resource_write_set C idx lio1 in
      (case resource_writes_to_materialize Z resource_write_set idx mv of
        Inl e \<Rightarrow> Inr (Inl e, lio2, mv)
      | Inr to_materialize \<Rightarrow>
      (case map_id_to_values_in_write_set Z to_materialize mv of
        Inl e \<Rightarrow> Inr (Inl e, lio2, mv)
      | Inr materialized_resource_write_set \<Rightarrow>
      (case map_id_to_values_events Z (events C idx lio2) mv of
        Inl e \<Rightarrow> Inr (Inl e, lio2, mv)
      | Inr materialized_events \<Rightarrow>
          rbind (materialize_aggregator_v1_delta_writes C Z idx lio2 mv) (\<lambda>(delta_writes, mv1).
          let (r, lio3) = record_materialized_txn_output C idx delta_writes
                (materialized_resource_write_set @ serialized_groups) materialized_events lio2
          in Inr (r, lio3, mv1)))))))"

text \<open>Lines 693 to 706: the commit hook, when there is one.\<close>

definition call_commit_hook where
  "call_commit_hook C hook idx lio log =
     (if \<not> hook then Inr log
      else rbind (unwrap (txn_output C idx lio)) (\<lambda>status.
        case status of
          TaskSuccess output \<Rightarrow> Inr (log @ [on_transaction_committed idx output])
        | TaskSkipRest output \<Rightarrow> Inr (log @ [on_transaction_committed idx output])
        | TaskAbort _ \<Rightarrow> Inr (log @ [on_execution_aborted idx])
        | TaskSpeculativeExecutionAbortError _ \<Rightarrow> Inl ExplicitPanic
        | TaskDelayedFieldsCodeInvariantError _ \<Rightarrow> Inl ExplicitPanic))"

text \<open>Lines 708 to 718: the output is taken from the table and stored in its slot.\<close>

definition store_output where
  "store_output C idx sh =
     (let (status, lio) = take_output C idx (sh_lio sh);
          sh1 = sh\<lparr>sh_lio := lio\<rparr>;
          store = (\<lambda>t. rbind (index_at (final_results sh) idx) (\<lambda>_.
                     Inr (sh1\<lparr>final_results := (final_results sh)[idx := t]\<rparr>)))
      in case status of
           TaskSuccess t \<Rightarrow> store t
         | TaskSkipRest t \<Rightarrow> store t
         | TaskAbort _ \<Rightarrow> Inr sh1
         | TaskSpeculativeExecutionAbortError _ \<Rightarrow> Inl ExplicitPanic
         | TaskDelayedFieldsCodeInvariantError _ \<Rightarrow> Inl ExplicitPanic)"

text \<open>
  \<open>materialize_txn_commit\<close> runs concurrently in several workers. It is split where it touches what
  they share, into three phases: materialising the output, calling the hook and storing the output.
  A phase says which one is next, \<open>None\<close> after the last.
\<close>

datatype commit_phase = Materialize | CommitHook | StoreOutput

fun materialize_txn_commit where
  "materialize_txn_commit C Z hook Materialize idx sh =
     rbind (materialize_output C Z idx (sh_lio sh) (sh_mv sh)) (\<lambda>(r, lio, mv).
     Inr (case r of Inl e \<Rightarrow> Inl e | Inr _ \<Rightarrow> Inr (Some CommitHook), sh\<lparr>sh_lio := lio, sh_mv := mv\<rparr>))"
| "materialize_txn_commit C Z hook CommitHook idx sh =
     rbind (call_commit_hook C hook idx (sh_lio sh) (hook_log sh)) (\<lambda>log.
     Inr (Inr (Some StoreOutput), sh\<lparr>hook_log := log\<rparr>))"
| "materialize_txn_commit C Z hook StoreOutput idx sh =
     rbind (store_output C idx sh) (\<lambda>sh'. Inr (Inr None, sh'))"

section \<open>Workers\<close>

text \<open>
  Where a worker is in its loop: before a test of \<open>should_coordinate_commits\<close>, before a pop of the
  commit queue, before a phase of the materialisation of an index it popped, before its task, or
  returned. The queue is drained in every round of the loop and once more at the end.
\<close>

datatype drain_site = InLoop SchedulerTask | AtEnd

datatype worker =
    Coordinate SchedulerTask
  | Drain drain_site
  | Commit drain_site commit_phase TxnIndex
  | PerformTask SchedulerTask
  | Returned

fun after_drain :: "drain_site \<Rightarrow> worker" where
  "after_drain (InLoop task) = PerformTask task"
| "after_drain AtEnd = Returned"

text \<open>The \<open>match scheduler_task\<close> of the worker loop, the \<open>Done\<close> arm apart.\<close>

definition run_task where
  "run_task M R L order idorder vm S V block task sh =
     (case task of
        ValidationTask idx inc wave \<Rightarrow>
          rbind (validate R L idx (sh_lio sh) (sh_mv sh)) (\<lambda>v.
          case v of
            Inl e \<Rightarrow> Inr (Inl (CodeInvariantError e), sh)
          | Inr valid \<Rightarrow>
              (case update_on_validation M L V idx inc valid wave (sh_lio sh) (sh_mv sh) (sh_sch sh) of
                 (Inl e, mv, sch) \<Rightarrow> Inr (Inl (CodeInvariantError e), sh\<lparr>sh_mv := mv, sh_sch := sch\<rparr>)
               | (Inr t, mv, sch) \<Rightarrow> Inr (Inr t, sh\<lparr>sh_mv := mv, sh_sch := sch\<rparr>)))
      | ExecutionTask idx inc Execution \<Rightarrow>
          rbind (execute M R L order idorder vm idx inc block (sh_mv sh) (sh_lio sh) (sh_sch sh))
            (\<lambda>(r, mv, lio, sch).
          let sh1 = sh\<lparr>sh_mv := mv, sh_lio := lio, sh_sch := sch\<rparr> in
          case r of
            Inl e \<Rightarrow> Inr (Inl e, sh1)
          | Inr outside \<Rightarrow>
              (case finish_execution S idx inc outside sch of
                 (Inl e, sch1) \<Rightarrow> Inr (Inl (CodeInvariantError e), sh1\<lparr>sh_sch := sch1\<rparr>)
               | (Inr t, sch1) \<Rightarrow> Inr (Inr t, sh1\<lparr>sh_sch := sch1\<rparr>)))
      | ExecutionTask idx inc (Wakeup condvar) \<Rightarrow>
          (let (t, sch) = next_task S (wake_dependency S condvar (sh_sch sh))
           in Inr (Inr t, sh\<lparr>sh_sch := sch\<rparr>))
      | RetryTask \<Rightarrow>
          (let (t, sch) = next_task S (sh_sch sh) in Inr (Inr t, sh\<lparr>sh_sch := sch\<rparr>))
      | DoneTask \<Rightarrow> Inr (Inr DoneTask, sh))"

text \<open>The test of the loop that drains the commit queue.\<close>

definition drain_step where
  "drain_step S site sh =
     (case pop_from_commit_queue S (sh_sch sh) of
        (None, sch) \<Rightarrow> (after_drain site, sh\<lparr>sh_sch := sch\<rparr>)
      | (Some idx, sch) \<Rightarrow> (Commit site Materialize idx, sh\<lparr>sh_sch := sch\<rparr>))"

text \<open>
  One move of a worker. The three parts of the loop are arguments: \<open>prepare\<close> is
  \<open>prepare_and_queue_commit_ready_txns\<close>, \<open>materialize\<close> is
  \<open>materialize_txn_commit\<close> and \<open>perform\<close> is \<open>run_task\<close>.
\<close>

fun worker_loop where
  "worker_loop S prepare materialize perform (Coordinate task) sh =
     (case should_coordinate_commits S (sh_sch sh) of
        (False, sch) \<Rightarrow> Some (Inr (Inr (Drain (InLoop task)), sh\<lparr>sh_sch := sch\<rparr>))
      | (True, sch) \<Rightarrow>
          (case prepare task (sh_mv sh, sh_lio sh, sch, sh_bl sh) of
             None \<Rightarrow> None
           | Some (Inl p) \<Rightarrow> Some (Inl p)
           | Some (Inr (r, mv, lio, sch1, bl)) \<Rightarrow>
               let sh1 = sh\<lparr>sh_mv := mv, sh_lio := lio, sh_sch := sch1, sh_bl := bl\<rparr> in
               Some (Inr (case r of
                 Inl e \<Rightarrow> (Inl e, sh1)
               | Inr _ \<Rightarrow> (Inr (Coordinate task), sh1\<lparr>sh_sch := queueing_commits_mark_done S sch1\<rparr>)))))"
| "worker_loop S prepare materialize perform (Drain site) sh =
     Some (Inr (case drain_step S site sh of (w, sh') \<Rightarrow> (Inr w, sh')))"
| "worker_loop S prepare materialize perform (Commit site phase idx) sh =
     Some (rbind (materialize phase idx sh) (\<lambda>(r, sh').
       Inr (case r of
              Inl e \<Rightarrow> Inl (CodeInvariantError e)
            | Inr None \<Rightarrow> Inr (Drain site)
            | Inr (Some next) \<Rightarrow> Inr (Commit site next idx), sh')))"
| "worker_loop S prepare materialize perform (PerformTask task) sh =
     (if task = DoneTask then Some (Inr (Inr (Drain AtEnd), sh))
      else Some (rbind (perform task sh) (\<lambda>(r, sh').
             Inr (case r of Inl e \<Rightarrow> Inl e | Inr t \<Rightarrow> Inr (Coordinate t), sh'))))"
| "worker_loop S prepare materialize perform Returned sh = Some (Inr (Inr Returned, sh))"

text \<open>
  A move in the thread pool. A worker that returns an error sets the flag and halts the
  scheduler; a panic is remembered and raised when the scope ends. A move that panics has done a
  part of its work: the caches, the table, the scheduler and the block limits are then left in
  any state. Results and calls of the hook come last in their moves, so a panic adds none.
\<close>

record 'sh pool =
  workers :: "worker list"
  shared :: 'sh
  panicked :: "panic option"

inductive par_step for S move where
  move_ok: "i < length (workers p) \<Longrightarrow> workers p ! i \<noteq> Returned \<Longrightarrow>
       move (workers p ! i) (shared p) = Some (Inr (Inr w, sh)) \<Longrightarrow>
       par_step S move p (p\<lparr>workers := (workers p)[i := w], shared := sh\<rparr>)"
| move_err: "i < length (workers p) \<Longrightarrow> workers p ! i \<noteq> Returned \<Longrightarrow>
       move (workers p ! i) (shared p) = Some (Inr (Inl e, sh)) \<Longrightarrow>
       par_step S move p
         (p\<lparr>workers := (workers p)[i := Returned],
            shared := sh\<lparr>shared_maybe_error := True, sh_sch := snd (halt S (sh_sch sh))\<rparr>\<rparr>)"
| move_panic: "i < length (workers p) \<Longrightarrow> workers p ! i \<noteq> Returned \<Longrightarrow>
       move (workers p ! i) (shared p) = Some (Inl e) \<Longrightarrow>
       final_results sh = final_results (shared p) \<Longrightarrow> hook_log sh = hook_log (shared p) \<Longrightarrow>
       shared_maybe_error sh = shared_maybe_error (shared p) \<Longrightarrow>
       par_step S move p (p\<lparr>workers := (workers p)[i := Returned], shared := sh, panicked := Some e\<rparr>)"

inductive par_steps for S move where
  par_refl: "par_steps S move p p"
| par_more: "par_steps S move p q \<Longrightarrow> par_step S move q r \<Longrightarrow> par_steps S move p r"

definition parallel_start where
  "parallel_start concurrency_level n skip_output mv lio sch bl =
     \<lparr> workers = replicate concurrency_level (Coordinate RetryTask),
       shared = \<lparr> sh_mv = mv, sh_lio = lio, sh_sch = sch, sh_bl = bl,
                  final_results = replicate n skip_output, hook_log = [],
                  shared_maybe_error = False \<rparr>,
       panicked = None \<rparr>"

definition parallel_result where
  "parallel_result p =
     (case panicked p of
        Some e \<Rightarrow> Inl e
      | None \<Rightarrow> Inr (if shared_maybe_error (shared p) then None else Some (final_results (shared p))))"

definition worker_move where
  "worker_move M R L order idorder vm S V C B Z user_txn_bytes_len hook block =
     worker_loop S
       (prepare_and_queue_commit_ready_txns (Suc (length block)) M R L order idorder vm S C B Z
          user_txn_bytes_len block)
       (materialize_txn_commit C Z hook)
       (run_task M R L order idorder vm S V block)"

text \<open>
  \<open>execute_transactions_parallel\<close>, as the relation between a block and a result: some
  interleaving of the workers ends with all of them returned. \<open>None\<close> is \<open>Err(())\<close>.
\<close>

definition execute_transactions_parallel where
  "execute_transactions_parallel M R L order idorder vm S V C B Z user_txn_bytes_len hook
       concurrency_level skip_output mv lio sch bl block result \<longleftrightarrow>
     (if concurrency_level \<le> 1 then result = Inl AssertFailed
      else if block = [] then result = Inr (Some [])
      else \<exists>p. par_steps S (worker_move M R L order idorder vm S V C B Z user_txn_bytes_len hook block)
                  (parallel_start concurrency_level (length block) skip_output mv lio sch bl) p \<and>
               (\<forall>w \<in> set (workers p). w = Returned) \<and> result = parallel_result p)"

end
