(* ===== verification/Block_Parallel.thy ===== *)
theory Block_Parallel
  imports Block_Commit
begin

text \<open>
  Properties of the parallel block executor as a whole: the commit loop, the pool of workers
  and the result of \<open>execute_transactions_parallel\<close>, for any interleaving of the workers
  and any scheduler that satisfies \<open>commit_contract\<close>. The pool invariant
  \<open>pool_inv\<close> is proved by rule induction over \<open>par_steps\<close>.
\<close>

section \<open>What the scheduler promises\<close>

text \<open>
  Observations of a scheduler: the next index to commit, the indices ever added to the commit
  queue and those ever popped, oldest first. \<open>try_commit\<close> hands out the next index, the
  queue is first in first out, and no other operation touches either.
\<close>

definition quiet where
  "quiet cidx queued popped sch sch' \<longleftrightarrow>
     cidx sch' = cidx sch \<and> queued sch' = queued sch \<and> popped sch' = popped sch"

definition commit_contract where
  "commit_contract S V vm cidx queued popped n \<longleftrightarrow>
     (\<forall>sch. num_txns S sch = n) \<and>
     (\<forall>sch i inc sch'. try_commit S sch = (Some (i, inc), sch') \<longrightarrow>
        i = cidx sch \<and> i < n \<and> cidx sch' = Suc i \<and> queued sch' = queued sch \<and> popped sch' = popped sch) \<and>
     (\<forall>sch sch'. try_commit S sch = (None, sch') \<longrightarrow> quiet cidx queued popped sch sch') \<and>
     (\<forall>i sch. cidx (add_to_commit_queue S i sch) = cidx sch \<and>
        queued (add_to_commit_queue S i sch) = queued sch @ [i] \<and>
        popped (add_to_commit_queue S i sch) = popped sch) \<and>
     (\<forall>sch i sch'. pop_from_commit_queue S sch = (Some i, sch') \<longrightarrow>
        cidx sch' = cidx sch \<and> queued sch' = queued sch \<and> popped sch' = popped sch @ [i] \<and>
        (\<exists>rest. queued sch = popped sch @ i # rest)) \<and>
     (\<forall>sch sch'. pop_from_commit_queue S sch = (None, sch') \<longrightarrow> quiet cidx queued popped sch sch') \<and>
     (\<forall>i sch. quiet cidx queued popped sch (snd (finish_execution_during_commit S i sch))) \<and>
     (\<forall>sch. quiet cidx queued popped sch (snd (halt S sch))) \<and>
     (\<forall>sch. quiet cidx queued popped sch (snd (should_coordinate_commits S sch))) \<and>
     (\<forall>sch. quiet cidx queued popped sch (queueing_commits_mark_done S sch)) \<and>
     (\<forall>i inc b sch. quiet cidx queued popped sch (snd (finish_execution S i inc b sch))) \<and>
     (\<forall>sch. quiet cidx queued popped sch (snd (next_task S sch))) \<and>
     (\<forall>c sch. quiet cidx queued popped sch (wake_dependency S c sch)) \<and>
     (\<forall>i inc sch. quiet cidx queued popped sch (snd (try_abort V i inc sch))) \<and>
     (\<forall>i inc sch. quiet cidx queued popped sch (snd (finish_abort V i inc sch))) \<and>
     (\<forall>i w sch. quiet cidx queued popped sch (finish_validation V i w sch)) \<and>
     (\<forall>sch. quiet cidx queued popped sch (queueing_commits_arm V sch)) \<and>
     (\<forall>txn (i :: TxnIndex) mv sch. quiet cidx queued popped sch (snd (snd (snd (vm txn i mv sch)))))"

lemma quiet_refl [simp]: "quiet cidx queued popped sch sch"
  by (simp add: quiet_def)

lemma quiet_trans: "quiet cidx queued popped a b \<Longrightarrow> quiet cidx queued popped b c \<Longrightarrow> quiet cidx queued popped a c"
  by (simp add: quiet_def)

lemma commit_contractD:
  assumes "commit_contract S V vm cidx queued popped n"
  shows "num_txns S sch = n"
    "try_commit S sch = (Some (i, inc), sch') \<Longrightarrow>
        i = cidx sch \<and> i < n \<and> cidx sch' = Suc i \<and> queued sch' = queued sch \<and> popped sch' = popped sch"
    "try_commit S sch = (None, sch') \<Longrightarrow> quiet cidx queued popped sch sch'"
    "cidx (add_to_commit_queue S i sch) = cidx sch \<and>
        queued (add_to_commit_queue S i sch) = queued sch @ [i] \<and>
        popped (add_to_commit_queue S i sch) = popped sch"
    "pop_from_commit_queue S sch = (Some i, sch') \<Longrightarrow>
        cidx sch' = cidx sch \<and> queued sch' = queued sch \<and> popped sch' = popped sch @ [i] \<and>
        (\<exists>rest. queued sch = popped sch @ i # rest)"
    "pop_from_commit_queue S sch = (None, sch') \<Longrightarrow> quiet cidx queued popped sch sch'"
  using assms by (simp_all only: commit_contract_def)

lemma commit_contract_quiet:
  assumes "commit_contract S V vm cidx queued popped n"
  shows "quiet cidx queued popped sch (snd (finish_execution_during_commit S i sch))"
    "quiet cidx queued popped sch (snd (halt S sch))"
    "quiet cidx queued popped sch (snd (should_coordinate_commits S sch))"
    "quiet cidx queued popped sch (queueing_commits_mark_done S sch)"
    "quiet cidx queued popped sch (snd (finish_execution S i inc b sch))"
    "quiet cidx queued popped sch (snd (next_task S sch))"
    "quiet cidx queued popped sch (wake_dependency S c sch)"
    "quiet cidx queued popped sch (snd (try_abort V i inc sch))"
    "quiet cidx queued popped sch (snd (finish_abort V i inc sch))"
    "quiet cidx queued popped sch (finish_validation V i w sch)"
    "quiet cidx queued popped sch (queueing_commits_arm V sch)"
    "quiet cidx queued popped sch (snd (snd (snd (vm txn i mv sch))))"
  using assms by (simp_all only: commit_contract_def)

lemma execute_quiet:
  assumes "commit_contract S V vm cidx queued popped n"
    and "execute M R L order idorder vm idx inc block mv lio sch = Inr (r, mv', lio', sch')"
  shows "quiet cidx queued popped sch sch'"
proof -
  obtain st rs mv1 sch1 where vm: "vm (block ! idx) idx mv sch = (st, rs, mv1, sch1)"
    by (cases "vm (block ! idx) idx mv sch")
  have "sch' = sch1"
    using assms(2) vm by (cases st) (auto simp: execute_def finish_execute_def Let_def
        split: prod.splits option.splits if_splits)
  then show ?thesis using commit_contract_quiet(12) [OF assms(1), of sch "block ! idx" idx mv] vm by simp
qed

lemma ready_or_reexecute_quiet:
  assumes K: "commit_contract S V vm cidx queued popped n"
    and run: "ready_or_reexecute M R L order idorder vm S block idx inc mv lio sch = Inr (r, mv', lio', sch')"
  shows "quiet cidx queued popped sch sch'"
proof -
  from run obtain v mv1 where vc: "validate_commit_ready M R L idx mv lio = Inr (v, mv1)"
    by (auto simp: ready_or_reexecute_def)
  show ?thesis
  proof (cases "v = Inr False")
    case False
    with run vc have "sch' = sch"
      by (auto simp: ready_or_reexecute_def split: sum.splits bool.splits)
    then show ?thesis by simp
  next
    case True
    with run vc obtain r2 mv2 lio2 sch2 where ex: "execute M R L order idorder vm idx (inc + 1) block
        (update_transaction_on_abort M L idx lio mv1) lio sch = Inr (r2, mv2, lio2, sch2)"
      by (auto simp: ready_or_reexecute_def)
    obtain f sch3 where fin: "finish_execution_during_commit S idx sch2 = (f, sch3)"
      by (cases "finish_execution_during_commit S idx sch2")
    have "sch' = sch2 \<or> sch' = sch3"
      using run vc True ex fin
      by (auto simp: ready_or_reexecute_def split: sum.splits bool.splits) (metis sum.exhaust)
    moreover have "quiet cidx queued popped sch sch2" by (rule execute_quiet [OF K ex])
    moreover have "quiet cidx queued popped sch2 sch3"
      using commit_contract_quiet(1) [OF K, of sch2 idx] fin by simp
    ultimately show ?thesis using quiet_trans by metis
  qed
qed

lemma commit_txn_queues:
  assumes K: "commit_contract S V vm cidx queued popped n"
    and run: "commit_txn M R L order idorder vm S C B Z ubl block task idx inc (mv, lio, sch, bl) =
      Inr (r, mv', lio', sch', bl')"
  shows "cidx sch' = cidx sch \<and> popped sch' = popped sch \<and>
    queued sch' = queued sch @ (case r of Inl _ \<Rightarrow> [] | Inr _ \<Rightarrow> [idx]) \<and>
    (r = Inr Return \<longrightarrow> Suc idx = n \<or> block_skips_rest_at_idx C idx lio') \<and>
    (r = Inr Continue \<longrightarrow> Suc idx \<noteq> n \<and> \<not> block_skips_rest_at_idx C idx lio')"
proof -
  from run obtain r1 mv1 lio1 sch1 where
    rr: "ready_or_reexecute M R L order idorder vm S block idx inc mv lio sch = Inr (r1, mv1, lio1, sch1)"
    by auto
  have q1: "quiet cidx queued popped sch sch1" by (rule ready_or_reexecute_quiet [OF K rr])
  have qh: "quiet cidx queued popped sch1 (snd (halt S sch1))" by (rule commit_contract_quiet(2) [OF K])
  show ?thesis
  proof (cases r1)
    case (Inl e)
    with run rr q1 show ?thesis by (auto simp: quiet_def)
  next
    case (Inr u)
    with run rr obtain r2 lio2 bl2 where ac: "account_commit C S B ubl block idx lio1 sch1 bl = Inr (r2, lio2, bl2)"
      by auto
    show ?thesis
    proof (cases r2)
      case (Inl e)
      with run rr ac q1 \<open>r1 = Inr u\<close> show ?thesis by (auto simp: quiet_def)
    next
      case (Inr u2)
      obtain fg mv2 where fg: "finalize_groups Z idx (groups_to_finalize C idx lio2) mv1 = (fg, mv2)"
        by (cases "finalize_groups Z idx (groups_to_finalize C idx lio2) mv1")
      show ?thesis
        using run rr ac fg Inr \<open>r1 = Inr u\<close> q1 qh commit_contractD(1,4) [OF K]
        by (cases fg) (auto simp: quiet_def Let_def split: if_splits)
    qed
  qed
qed

section \<open>The commit loop\<close>

text \<open>What the loop needs of its body.\<close>

definition commits_in_order where
  "commits_in_order body cidx queued popped \<longleftrightarrow>
     (\<forall>idx inc mv lio sch bl r mv' lio' sch' bl'.
        body idx inc (mv, lio, sch, bl) = Inr (r, mv', lio', sch', bl') \<longrightarrow>
          cidx sch' = cidx sch \<and> popped sch' = popped sch \<and>
          queued sch' = queued sch @ (case r of Inl _ \<Rightarrow> [] | Inr _ \<Rightarrow> [idx]))"

lemma commits_in_orderD:
  assumes "commits_in_order body cidx queued popped"
    and "body idx inc (mv, lio, sch, bl) = Inr (r, mv', lio', sch', bl')"
  shows "cidx sch' = cidx sch" "popped sch' = popped sch"
    "queued sch' = queued sch @ (case r of Inl _ \<Rightarrow> [] | Inr _ \<Rightarrow> [idx])"
  using assms unfolding commits_in_order_def by blast+

lemma commit_txn_in_order:
  assumes "commit_contract S V vm cidx queued popped n"
  shows "commits_in_order (commit_txn M R L order idorder vm S C B Z ubl block task) cidx queued popped"
  by (auto simp: commits_in_order_def simp del: commit_txn.simps dest!: commit_txn_queues [OF assms])

lemma commit_loop_terminates:
  assumes K: "commit_contract S V vm cidx queued popped n" and body: "commits_in_order body cidx queued popped"
  shows "n - cidx sch < fuel \<Longrightarrow> \<exists>x. commit_loop fuel S body (mv, lio, sch, bl) = Some x"
proof (induction fuel arbitrary: mv lio sch bl)
  case (Suc fuel)
  obtain c sch1 where tc: "try_commit S sch = (c, sch1)" by (cases "try_commit S sch")
  show ?case
  proof (cases c)
    case (Some ii)
    obtain idx inc where ii: "ii = (idx, inc)" by (cases ii)
    note D = commit_contractD(2) [OF K tc [unfolded Some ii]]
    show ?thesis
    proof (cases "body idx inc (mv, lio, sch1, bl)")
      case (Inr x)
      obtain r mv' lio' sch' bl' where x: "x = (r, mv', lio', sch', bl')" by (cases x) auto
      have "cidx sch' = Suc (cidx sch)" "cidx sch < n"
        using commits_in_orderD [OF body Inr [unfolded x]] D by simp_all
      with Suc.prems have "n - cidx sch' < fuel" by simp
      from Suc.IH [OF this, of mv' lio' bl'] show ?thesis
        using tc Some ii Inr x by (auto split: sum.splits loop_exit.splits)
    qed (use tc Some ii in simp)
  qed (use tc in simp)
qed simp

lemma commit_loop_queues:
  assumes K: "commit_contract S V vm cidx queued popped n" and body: "commits_in_order body cidx queued popped"
  shows "commit_loop fuel S body (mv, lio, sch, bl) = Some (Inr (r, mv', lio', sch', bl')) \<Longrightarrow>
    popped sch' = popped sch \<and>
    (\<exists>m \<ge> cidx sch. queued sch' = queued sch @ [cidx sch..<m] \<and>
       cidx sch' = (case r of Inr _ \<Rightarrow> m | Inl _ \<Rightarrow> Suc m)) \<and>
    (cidx sch \<le> n \<longrightarrow> cidx sch' \<le> n)"
proof (induction fuel arbitrary: mv lio sch bl)
  case (Suc fuel)
  obtain c sch1 where tc: "try_commit S sch = (c, sch1)" by (cases "try_commit S sch")
  show ?case
  proof (cases c)
    case None
    with Suc.prems tc commit_contractD(3) [OF K, of sch sch1] show ?thesis
      by (auto simp: quiet_def)
  next
    case (Some ii)
    obtain idx inc where ii: "ii = (idx, inc)" by (cases ii)
    note D = commit_contractD(2) [OF K tc [unfolded Some ii]]
    from Suc.prems tc Some ii obtain r2 mv2 lio2 sch2 bl2 where
      run: "body idx inc (mv, lio, sch1, bl) = Inr (r2, mv2, lio2, sch2, bl2)"
      by (auto split: sum.splits)
    have B: "cidx sch2 = Suc (cidx sch)" "popped sch2 = popped sch"
      "queued sch2 = queued sch @ (case r2 of Inl _ \<Rightarrow> [] | Inr _ \<Rightarrow> [cidx sch])"
      using commits_in_orderD [OF body run] D by (auto split: sum.splits)
    show ?thesis
    proof (cases "r2 = Inr Continue")
      case True
      then have "commit_loop fuel S body (mv2, lio2, sch2, bl2) = Some (Inr (r, mv', lio', sch', bl'))"
        using Suc.prems tc Some ii run by simp
      from Suc.IH [OF this] obtain m where m: "m \<ge> Suc (cidx sch)" "popped sch' = popped sch"
        "queued sch' = queued sch @ cidx sch # [Suc (cidx sch)..<m]"
        "cidx sch' = (case r of Inr _ \<Rightarrow> m | Inl _ \<Rightarrow> Suc m)" "cidx sch' \<le> n"
        using B True D by auto
      then show ?thesis by (intro conjI exI [of _ m]) (auto simp: upt_conv_Cons)
    next
      case False
      with Suc.prems tc Some ii run B D show ?thesis
        by (auto split: sum.splits loop_exit.splits intro: exI [of _ "Suc (cidx sch)"])
    qed
  qed
qed simp

section \<open>Materialisation and tasks\<close>

fun hook_idx :: "'o hook_event \<Rightarrow> TxnIndex" where
  "hook_idx (on_transaction_committed idx _) = idx"
| "hook_idx (on_execution_aborted idx) = idx"

lemma call_commit_hook_log:
  "call_commit_hook C hook idx lio log = Inr log' \<Longrightarrow>
     map hook_idx log' = map hook_idx log @ (if hook then [idx] else [])"
proof (cases "txn_output C idx lio")
  case (Some st)
  then show "call_commit_hook C hook idx lio log = Inr log' \<Longrightarrow> ?thesis"
    by (cases st) (auto simp: call_commit_hook_def split: if_splits)
qed (auto simp: call_commit_hook_def split: if_splits)

lemma materialize_phase_frame:
  assumes "materialize_txn_commit C Z hook phase idx sh = Inr (r, sh')"
  shows "sh_sch sh' = sh_sch sh \<and> shared_maybe_error sh' = shared_maybe_error sh \<and>
     (phase \<noteq> StoreOutput \<longrightarrow> final_results sh' = final_results sh) \<and>
     (phase \<noteq> CommitHook \<longrightarrow> hook_log sh' = hook_log sh) \<and>
     (phase = CommitHook \<longrightarrow> hook \<longrightarrow> map hook_idx (hook_log sh') = map hook_idx (hook_log sh) @ [idx])"
proof (cases phase)
  case Materialize
  with assms show ?thesis by auto
next
  case CommitHook
  with assms show ?thesis by (auto dest: call_commit_hook_log)
next
  case StoreOutput
  obtain st lio where st: "take_output C idx (sh_lio sh) = (st, lio)" by (cases "take_output C idx (sh_lio sh)")
  show ?thesis using assms StoreOutput st by (cases st) (auto simp: store_output_def)
qed

text \<open>
  What a slot holds after its transaction was stored: the output that was taken from the table, or
  the skip output of an aborted transaction.
\<close>

definition committed_slot where
  "committed_slot C skip idx out \<longleftrightarrow>
     (\<exists>lio. case fst (take_output C idx lio) of
        TaskSuccess t \<Rightarrow> out = t
      | TaskSkipRest t \<Rightarrow> out = t
      | TaskAbort _ \<Rightarrow> out = skip
      | _ \<Rightarrow> False)"

lemma store_output_slots:
  assumes "store_output C idx sh = Inr sh'" and "idx < length (final_results sh)" and "final_results sh ! idx = skip"
  shows "length (final_results sh') = length (final_results sh)"
    "j \<noteq> idx \<Longrightarrow> final_results sh' ! j = final_results sh ! j"
    "committed_slot C skip idx (final_results sh' ! idx)"
proof -
  obtain st lio where st: "take_output C idx (sh_lio sh) = (st, lio)" by (cases "take_output C idx (sh_lio sh)")
  then have taken: "fst (take_output C idx (sh_lio sh)) = st" by simp
  show "length (final_results sh') = length (final_results sh)"
    using assms st by (cases st) (auto simp: store_output_def)
  show "j \<noteq> idx \<Longrightarrow> final_results sh' ! j = final_results sh ! j"
    using assms st by (cases st) (auto simp: store_output_def)
  show "committed_slot C skip idx (final_results sh' ! idx)" unfolding committed_slot_def
    by (rule exI [of _ "sh_lio sh"]) (use assms st taken in \<open>cases st; auto simp: store_output_def index_at_def\<close>)
qed

lemma update_on_validation_quiet:
  assumes K: "commit_contract S V vm cidx queued popped n"
    and "update_on_validation M L V idx inc valid wave lio mv sch = (t, mv', sch')"
  shows "quiet cidx queued popped sch sch'"
proof -
  note Q = commit_contract_quiet(8-11) [OF K]
  have "quiet cidx queued popped sch (snd (finish_abort V idx inc (snd (try_abort V idx inc sch))))"
    "quiet cidx queued popped sch (finish_validation V idx wave (snd (try_abort V idx inc sch)))"
    "quiet cidx queued popped sch (queueing_commits_arm V (finish_validation V idx wave sch))"
    using Q quiet_trans by metis+
  then show ?thesis
    using assms(2) by (auto simp: update_on_validation_def Let_def split: prod.splits if_splits)
qed

lemma run_task_frame:
  assumes K: "commit_contract S V vm cidx queued popped n"
    and run: "run_task M R L order idorder vm S V block task sh = Inr (r, sh')"
  shows "quiet cidx queued popped (sh_sch sh) (sh_sch sh') \<and>
     shared_maybe_error sh' = shared_maybe_error sh \<and>
     final_results sh' = final_results sh \<and> hook_log sh' = hook_log sh"
proof (cases task)
  case (ExecutionTask idx inc ty)
  show ?thesis
  proof (cases ty)
    case Execution
    with ExecutionTask run obtain r1 mv lio sch where
      ex: "execute M R L order idorder vm idx inc block (sh_mv sh) (sh_lio sh) (sh_sch sh) = Inr (r1, mv, lio, sch)"
      by (auto simp: run_task_def)
    have q: "quiet cidx queued popped (sh_sch sh) sch" by (rule execute_quiet [OF K ex])
    have qf: "quiet cidx queued popped (sh_sch sh) sch2"
      if "finish_execution S idx inc b sch = (x, sch2)" for b x sch2
      using quiet_trans [OF q commit_contract_quiet(5) [OF K, of sch idx inc b]] that by simp
    show ?thesis
      using run ExecutionTask Execution ex q qf
      by (cases r1) (auto simp: run_task_def Let_def split: prod.splits sum.splits)
  next
    case (Wakeup c)
    have "quiet cidx queued popped (sh_sch sh) (snd (next_task S (wake_dependency S c (sh_sch sh))))"
      using commit_contract_quiet(6,7) [OF K] quiet_trans by metis
    with run ExecutionTask Wakeup show ?thesis by (auto simp: run_task_def split: prod.splits)
  qed
next
  case (ValidationTask idx inc wave)
  with run obtain v where v: "validate R L idx (sh_lio sh) (sh_mv sh) = Inr v"
    by (auto simp: run_task_def)
  show ?thesis
    using run ValidationTask v
    by (cases v) (auto simp: run_task_def split: prod.splits sum.splits
        dest: update_on_validation_quiet [OF K])
next
  case RetryTask
  with run commit_contract_quiet(6) [OF K, of "sh_sch sh"] show ?thesis
    by (auto simp: run_task_def split: prod.splits)
qed (use run in \<open>auto simp: run_task_def\<close>)


section \<open>The pool\<close>

text \<open>
  The indices a worker holds: those whose output it has not stored yet, and those for which it has
  not called the hook yet.
\<close>

fun unstored :: "worker \<Rightarrow> TxnIndex multiset" where
  "unstored (Commit _ _ idx) = {#idx#}"
| "unstored _ = {#}"

fun unhooked :: "worker \<Rightarrow> TxnIndex multiset" where
  "unhooked (Commit _ Materialize idx) = {#idx#}"
| "unhooked (Commit _ CommitHook idx) = {#idx#}"
| "unhooked _ = {#}"

definition held :: "(worker \<Rightarrow> TxnIndex multiset) \<Rightarrow> worker list \<Rightarrow> TxnIndex multiset" where
  "held f ws = sum_list (map f ws)"

lemma held_update: "i < length ws \<Longrightarrow> held f (ws[i := w]) + f (ws ! i) = held f ws + f w"
proof (induction ws arbitrary: i)
  case (Cons v ws)
  then show ?case by (cases i) (auto simp: held_def ac_simps)
qed simp

lemma held_same: "i < length ws \<Longrightarrow> f w = f (ws ! i) \<Longrightarrow> held f (ws[i := w]) = held f ws"
  using held_update [of i ws f w] by simp

lemma distinct_sub_mset:
  assumes "mset xs \<subseteq># mset ys" and "distinct ys"
  shows "distinct xs"
proof -
  have "count (mset xs) a = 1" if "a \<in> set xs" for a
  proof -
    have "count (mset xs) a \<noteq> 0" using that by (simp add: count_mset_0_iff)
    moreover have "count (mset xs) a \<le> count (mset ys) a" using assms(1) by (rule mset_subset_eq_count)
    moreover have "count (mset ys) a \<le> 1" using assms(2) by (simp add: distinct_count_atmost_1)
    ultimately show ?thesis by linarith
  qed
  then show ?thesis by (simp add: distinct_count_atmost_1)
qed

lemma held_idle: "(\<And>w. w \<in> set ws \<Longrightarrow> f w = {#}) \<Longrightarrow> held f ws = {#}"
  by (induction ws) (simp_all add: held_def)

text \<open>
  The invariant of the pool as long as no worker failed: the queued indices are the committed prefix of
  the block and the popped ones the oldest of them; what the workers hold was popped; a popped index
  has been hooked once or is held by a worker that will call the hook; and a slot is the skip output
  unless its index was popped and stored, when it holds what the table gave.
\<close>

definition pool_inv where
  "pool_inv C cidx queued popped n skip hook ws sh \<longleftrightarrow>
     length (final_results sh) = n \<and> cidx (sh_sch sh) \<le> n \<and>
     queued (sh_sch sh) = [0..<cidx (sh_sch sh)] \<and> (\<exists>rest. [0..<cidx (sh_sch sh)] = popped (sh_sch sh) @ rest) \<and>
     held unstored ws \<subseteq># mset (popped (sh_sch sh)) \<and>
     (hook \<longrightarrow> mset (popped (sh_sch sh)) = mset (map hook_idx (hook_log sh)) + held unhooked ws) \<and>
     (\<forall>j < n. j \<notin># mset (popped (sh_sch sh)) - held unstored ws \<longrightarrow> final_results sh ! j = skip) \<and>
     (\<forall>j. j \<in># mset (popped (sh_sch sh)) - held unstored ws \<longrightarrow> committed_slot C skip j (final_results sh ! j))"

lemma pool_invD:
  assumes "pool_inv C cidx queued popped n skip hook ws sh"
  shows "length (final_results sh) = n" "cidx (sh_sch sh) \<le> n"
    "queued (sh_sch sh) = [0..<cidx (sh_sch sh)]" "\<exists>rest. [0..<cidx (sh_sch sh)] = popped (sh_sch sh) @ rest"
    "held unstored ws \<subseteq># mset (popped (sh_sch sh))"
    "hook \<Longrightarrow> mset (popped (sh_sch sh)) = mset (map hook_idx (hook_log sh)) + held unhooked ws"
    "j < n \<Longrightarrow> j \<notin># mset (popped (sh_sch sh)) - held unstored ws \<Longrightarrow> final_results sh ! j = skip"
    "j \<in># mset (popped (sh_sch sh)) - held unstored ws \<Longrightarrow> committed_slot C skip j (final_results sh ! j)"
  using assms unfolding pool_inv_def by blast+

lemma pool_inv_popped:
  assumes "pool_inv C cidx queued popped n skip hook ws sh"
  shows "distinct (popped (sh_sch sh))" "set (popped (sh_sch sh)) \<subseteq> {0..<cidx (sh_sch sh)}"
proof -
  from pool_invD(4) [OF assms] obtain rest where q: "[0..<cidx (sh_sch sh)] = popped (sh_sch sh) @ rest" ..
  show "distinct (popped (sh_sch sh))" using q by (metis distinct_append distinct_upt)
  show "set (popped (sh_sch sh)) \<subseteq> {0..<cidx (sh_sch sh)}" using arg_cong [OF q, of set] by auto
qed

lemma pool_inv_frame:
  assumes "pool_inv C cidx queued popped n skip hook ws sh"
    and "quiet cidx queued popped (sh_sch sh) (sh_sch sh')"
    and "final_results sh' = final_results sh" "hook_log sh' = hook_log sh"
    and "held unstored ws' = held unstored ws" "held unhooked ws' = held unhooked ws"
  shows "pool_inv C cidx queued popped n skip hook ws' sh'"
  using assms by (simp add: pool_inv_def quiet_def)

lemma drain_inv:
  assumes K: "commit_contract S V vm cidx queued popped n"
    and inv: "pool_inv C cidx queued popped n skip hook ws sh"
    and i: "i < length ws" "ws ! i = Drain site"
    and run: "drain_step S site sh = (w, sh')"
  shows "pool_inv C cidx queued popped n skip hook (ws[i := w]) sh'"
proof (cases "pop_from_commit_queue S (sh_sch sh)")
  case (Pair c sch)
  show ?thesis
  proof (cases c)
    case None
    have q: "quiet cidx queued popped (sh_sch sh) sch" using commit_contractD(6) [OF K] Pair None by simp
    have "w = after_drain site" "sh' = sh\<lparr>sh_sch := sch\<rparr>" using run Pair None by (auto simp: drain_step_def)
    moreover have "unstored (after_drain site) = {#}" "unhooked (after_drain site) = {#}" by (cases site; simp)+
    ultimately show ?thesis using q i by (intro pool_inv_frame [OF inv]) (simp_all add: held_same)
  next
    case (Some idx)
    have pop: "cidx sch = cidx (sh_sch sh)" "queued sch = queued (sh_sch sh)"
      "popped sch = popped (sh_sch sh) @ [idx]" "\<exists>rest. queued (sh_sch sh) = popped (sh_sch sh) @ idx # rest"
      using commit_contractD(5) [OF K Pair [unfolded Some]] by simp_all
    have w: "w = Commit site Materialize idx" "sh' = sh\<lparr>sh_sch := sch\<rparr>" using run Pair Some by (auto simp: drain_step_def)
    have held: "held unstored (ws[i := w]) = add_mset idx (held unstored ws)" "held unhooked (ws[i := w]) = add_mset idx (held unhooked ws)"
      using held_update [OF i(1), of unstored w] held_update [OF i(1), of unhooked w] i(2) w(1) by simp_all
    show ?thesis using inv pop unfolding pool_inv_def held w(2) by auto
  qed
qed

lemma prepare_inv:
  assumes K: "commit_contract S V vm cidx queued popped n"
    and inv: "pool_inv C cidx queued popped n skip hook ws sh"
    and sch: "quiet cidx queued popped (sh_sch sh) sch"
    and run: "prepare_and_queue_commit_ready_txns fuel M R L order idorder vm S C B Z ubl block task
        (sh_mv sh, sh_lio sh, sch, sh_bl sh) = Some (Inr (Inr (), mv, lio, sch1, bl))"
  shows "pool_inv C cidx queued popped n skip hook ws (sh\<lparr>sh_mv := mv, sh_lio := lio, sh_sch := sch1, sh_bl := bl\<rparr>)"
proof -
  from commit_loop_queues [OF K commit_txn_in_order [OF K] run [unfolded prepare_and_queue_commit_ready_txns_def]]
  obtain m where m: "cidx sch \<le> m" "popped sch1 = popped sch" "queued sch1 = queued sch @ [cidx sch..<m]"
    "cidx sch1 = m" "cidx sch \<le> n \<longrightarrow> cidx sch1 \<le> n"
    by auto
  have grow: "[0..<m] = [0..<cidx sch] @ [cidx sch..<m]"
    using m(1) by (metis upt_add_eq_append le0 le_add_diff_inverse)
  from pool_invD(4) [OF inv] obtain rest where "[0..<cidx (sh_sch sh)] = popped (sh_sch sh) @ rest" ..
  then have "\<exists>rest. [0..<m] = popped (sh_sch sh) @ rest" using sch by (simp add: grow quiet_def)
  with inv sch m grow show ?thesis by (simp add: pool_inv_def quiet_def)
qed

lemma commit_inv:
  assumes inv: "pool_inv C cidx queued popped n skip hook ws sh"
    and i: "i < length ws" "ws ! i = Commit site phase idx"
    and run: "materialize_txn_commit C Z hook phase idx sh = Inr (Inr next, sh')"
    and w: "w = (case next of None \<Rightarrow> Drain site | Some ph \<Rightarrow> Commit site ph idx)"
  shows "pool_inv C cidx queued popped n skip hook (ws[i := w]) sh'"
proof -
  note frame = materialize_phase_frame [OF run]
  note stored = held_update [OF i(1), of unstored w, unfolded i(2)]
    and hooked = held_update [OF i(1), of unhooked w, unfolded i(2)]
  show ?thesis
  proof (cases phase)
    case Materialize
    with run obtain r lio mv where "materialize_output C Z idx (sh_lio sh) (sh_mv sh) = Inr (r, lio, mv)" by auto
    with Materialize run w have "w = Commit site CommitHook idx" by (cases r) auto
    with frame Materialize stored hooked show ?thesis by (intro pool_inv_frame [OF inv]) simp_all
  next
    case CommitHook
    with run w have "w = Commit site StoreOutput idx" by auto
    with frame CommitHook stored hooked inv show ?thesis by (simp add: pool_inv_def)
  next
    case StoreOutput
    with run w have wd: "w = Drain site" "store_output C idx sh = Inr sh'" by auto
    let ?P = "mset (popped (sh_sch sh))"
    have held: "held unstored ws = add_mset idx (held unstored (ws[i := w]))" "held unhooked (ws[i := w]) = held unhooked ws"
      using stored hooked wd(1) StoreOutput by simp_all
    have sub: "add_mset idx (held unstored (ws[i := w])) \<subseteq># ?P" using pool_invD(5) [OF inv] held(1) by simp
    then have idx: "idx \<in> set (popped (sh_sch sh))" using mset_subset_eqD by fastforce
    have once: "count ?P idx = 1" using pool_inv_popped(1) [OF inv] idx by (simp add: distinct_count_atmost_1)
    have now: "?P - held unstored (ws[i := w]) = add_mset idx (?P - held unstored ws)"
    proof -
      from sub obtain rest where "?P = add_mset idx (held unstored (ws[i := w])) + rest" by (auto simp: mset_subset_eq_exists_conv)
      then show ?thesis unfolding held(1) by simp
    qed
    have new: "idx \<notin># ?P - held unstored ws" using once held(1) by (simp add: not_in_iff)
    have lt: "idx < n" using pool_inv_popped(2) [OF inv] idx pool_invD(2) [OF inv] by force
    have skip: "final_results sh ! idx = skip" by (rule pool_invD(7) [OF inv lt new])
    have len: "idx < length (final_results sh)" using pool_invD(1) [OF inv] lt by simp
    note slots = store_output_slots [OF wd(2) len skip]
    have slot: "committed_slot C skip j (final_results sh' ! j)" if "j \<in># ?P - held unstored (ws[i := w])" for j
      using that slots(2) [of j] slots(3) pool_invD(8) [OF inv, of j] unfolding now by (cases "j = idx") auto
    have free: "final_results sh' ! j = skip" if "j < n" "j \<notin># ?P - held unstored (ws[i := w])" for j
      using that slots(2) [of j] pool_invD(7) [OF inv, of j] unfolding now by auto
    have "held unstored (ws[i := w]) \<subseteq># ?P" using sub by (metis mset_subset_eq_insertD subset_mset.less_imp_le)
    with inv frame slots(1) slot free held(2) StoreOutput show ?thesis by (simp add: pool_inv_def)
  qed
qed


lemma worker_move_inv:
  assumes K: "commit_contract S V vm cidx queued popped n"
    and inv: "pool_inv C cidx queued popped n skip hook ws sh"
    and i: "i < length ws"
    and run: "worker_move M R L order idorder vm S V C B Z ubl hook block (ws ! i) sh = Some (Inr (Inr w, sh'))"
  shows "pool_inv C cidx queued popped n skip hook (ws[i := w]) sh' \<and> shared_maybe_error sh' = shared_maybe_error sh"
proof (cases "ws ! i")
  case (Coordinate task)
  obtain b sch where b: "should_coordinate_commits S (sh_sch sh) = (b, sch)"
    by (cases "should_coordinate_commits S (sh_sch sh)")
  have q: "quiet cidx queued popped (sh_sch sh) sch"
    using commit_contract_quiet(3) [OF K, of "sh_sch sh"] b by simp
  show ?thesis
  proof (cases b)
    case False
    with run Coordinate b have "w = Drain (InLoop task)" "sh' = sh\<lparr>sh_sch := sch\<rparr>" by (auto simp: worker_move_def)
    with q i Coordinate show ?thesis by (auto intro!: pool_inv_frame [OF inv] simp: held_same)
  next
    case True
    with run Coordinate b obtain r mv lio sch1 bl where
      p: "prepare_and_queue_commit_ready_txns (Suc (length block)) M R L order idorder vm S C B Z ubl block task
        (sh_mv sh, sh_lio sh, sch, sh_bl sh) = Some (Inr (r, mv, lio, sch1, bl))"
      by (auto simp: worker_move_def split: option.splits sum.splits)
    let ?sh1 = "sh\<lparr>sh_mv := mv, sh_lio := lio, sh_sch := sch1, sh_bl := bl\<rparr>"
    have r: "r = Inr ()" and w: "w = Coordinate task" "sh' = ?sh1\<lparr>sh_sch := queueing_commits_mark_done S sch1\<rparr>"
      using run Coordinate b True p by (cases r; auto simp: worker_move_def Let_def)+
    have "pool_inv C cidx queued popped n skip hook (ws[i := w]) sh'"
      by (rule pool_inv_frame [OF prepare_inv [OF K inv q p [unfolded r]]])
        (use commit_contract_quiet(4) [OF K, of sch1] i w Coordinate in \<open>simp_all add: held_same\<close>)
    then show ?thesis using w(2) by simp
  qed
next
  case (Drain site)
  with run have d: "drain_step S site sh = (w, sh')" by (auto simp: worker_move_def split: prod.splits)
  then have "shared_maybe_error sh' = shared_maybe_error sh"
    by (auto simp: drain_step_def split: prod.splits option.splits)
  then show ?thesis using drain_inv [OF K inv i Drain d] by simp
next
  case (Commit site phase idx)
  with run obtain r where r: "materialize_txn_commit C Z hook phase idx sh = Inr (r, sh')"
    by (auto simp: worker_move_def)
  with run Commit obtain nxt where m: "materialize_txn_commit C Z hook phase idx sh = Inr (Inr nxt, sh')"
    and w: "w = (case nxt of None \<Rightarrow> Drain site | Some ph \<Rightarrow> Commit site ph idx)"
    by (cases r) (auto simp: worker_move_def split: option.splits)
  show ?thesis using commit_inv [OF inv i Commit m w] materialize_phase_frame [OF m] by simp
next
  case (PerformTask task)
  show ?thesis
  proof (cases "task = DoneTask")
    case True
    with run PerformTask have "w = Drain AtEnd" "sh' = sh" by (auto simp: worker_move_def)
    with i PerformTask show ?thesis by (auto intro!: pool_inv_frame [OF inv] simp: held_same)
  next
    case False
    with run PerformTask obtain r where r: "run_task M R L order idorder vm S V block task sh = Inr (r, sh')"
      by (auto simp: worker_move_def)
    with False run PerformTask obtain t where
      t: "run_task M R L order idorder vm S V block task sh = Inr (Inr t, sh')" "w = Coordinate t"
      by (cases r) (auto simp: worker_move_def)
    with run_task_frame [OF K t(1)] i PerformTask show ?thesis
      by (auto intro!: pool_inv_frame [OF inv] simp: held_same)
  qed
next
  case Returned
  with run have "w = Returned" "sh' = sh" by (auto simp: worker_move_def)
  with i Returned show ?thesis by (auto intro!: pool_inv_frame [OF inv] simp: held_same)
qed

lemma worker_move_flag:
  assumes K: "commit_contract S V vm cidx queued popped n"
    and run: "worker_move M R L order idorder vm S V C B Z ubl hook block v sh = Some (Inr (Inr w, sh'))"
  shows "shared_maybe_error sh' = shared_maybe_error sh"
proof (cases v)
  case (Coordinate task)
  with run show ?thesis by (auto simp: worker_move_def Let_def split: prod.splits bool.splits option.splits sum.splits)
next
  case (Drain site)
  with run show ?thesis by (auto simp: worker_move_def drain_step_def split: prod.splits option.splits)
next
  case (Commit site phase idx)
  with run obtain r where "materialize_txn_commit C Z hook phase idx sh = Inr (r, sh')" by (auto simp: worker_move_def)
  from materialize_phase_frame [OF this] show ?thesis by simp
next
  case (PerformTask task)
  show ?thesis
  proof (cases "task = DoneTask")
    case False
    with run PerformTask obtain r where "run_task M R L order idorder vm S V block task sh = Inr (r, sh')" by (auto simp: worker_move_def)
    from run_task_frame [OF K this] show ?thesis by simp
  qed (use run PerformTask in \<open>auto simp: worker_move_def\<close>)
qed (use run in \<open>auto simp: worker_move_def\<close>)

text \<open>The queue is a queue: a pop finds nothing only when everything was popped.\<close>

definition drain_contract where
  "drain_contract S queued popped \<longleftrightarrow>
     (\<forall>sch sch' rest. queued sch = popped sch @ rest \<longrightarrow> pop_from_commit_queue S sch = (None, sch') \<longrightarrow> rest = [])"

text \<open>A worker only returns, other than with an error, when it finds the queue empty.\<close>

lemma returned_drained:
  assumes K: "commit_contract S V vm cidx queued popped n" and D: "drain_contract S queued popped"
    and inv: "pool_inv C cidx queued popped n skip hook ws sh" and v: "v \<noteq> Returned"
    and run: "worker_move M R L order idorder vm S V C B Z ubl hook block v sh = Some (Inr (Inr Returned, sh'))"
  shows "popped (sh_sch sh') = queued (sh_sch sh')"
proof (cases v)
  case (Coordinate task)
  with run show ?thesis by (auto simp: worker_move_def Let_def split: prod.splits bool.splits option.splits sum.splits)
next
  case (Drain site)
  with run obtain sch where pop: "pop_from_commit_queue S (sh_sch sh) = (None, sch)" "sh' = sh\<lparr>sh_sch := sch\<rparr>"
    by (auto simp: worker_move_def drain_step_def split: prod.splits option.splits)
  from pool_invD(3,4) [OF inv] obtain rest where rest: "queued (sh_sch sh) = popped (sh_sch sh) @ rest" by auto
  with D pop(1) have "rest = []" unfolding drain_contract_def by blast
  with rest commit_contractD(6) [OF K pop(1)] pop(2) show ?thesis by (simp add: quiet_def)
next
  case (Commit site phase idx)
  with run obtain r where "materialize_txn_commit C Z hook phase idx sh = Inr (r, sh')" by (auto simp: worker_move_def)
  with run Commit show ?thesis by (cases r) (auto simp: worker_move_def split: option.splits)
next
  case (PerformTask task)
  show ?thesis
  proof (cases "task = DoneTask")
    case False
    with run PerformTask obtain r where "run_task M R L order idorder vm S V block task sh = Inr (r, sh')" by (auto simp: worker_move_def)
    with False run PerformTask show ?thesis by (cases r) (auto simp: worker_move_def)
  qed (use run PerformTask in \<open>auto simp: worker_move_def\<close>)
qed (use v in simp)

definition sound_pool where
  "sound_pool C cidx queued popped n skip hook p \<longleftrightarrow>
     pool_inv C cidx queued popped n skip hook (workers p) (shared p) \<and>
     (popped (sh_sch (shared p)) = queued (sh_sch (shared p)) \<or> (\<exists>w \<in> set (workers p). w \<noteq> Returned))"

lemma par_steps_inv:
  assumes K: "commit_contract S V vm cidx queued popped n" and D: "drain_contract S queued popped"
    and "par_steps S (worker_move M R L order idorder vm S V C B Z ubl hook block) p q"
    and "sound_pool C cidx queued popped n skip hook p"
    and "panicked q = None" and "\<not> shared_maybe_error (shared q)"
  shows "sound_pool C cidx queued popped n skip hook q"
  using assms(3-6)
proof (induction rule: par_steps.induct)
  case (par_more p q r)
  from par_more(2) show ?case
  proof cases
    case (move_ok i w sh)
    note flag = worker_move_flag [OF K move_ok(4)]
    with par_more move_ok have "sound_pool C cidx queued popped n skip hook q" by simp
    then have inv: "pool_inv C cidx queued popped n skip hook (workers q) (shared q)" by (simp add: sound_pool_def)
    have "popped (sh_sch sh) = queued (sh_sch sh)" if "w = Returned"
      using returned_drained [OF K D inv move_ok(3)] move_ok(4) that by simp
    moreover have "w \<in> set ((workers q)[i := w])" using move_ok(2) by (simp add: set_update_memI)
    ultimately show ?thesis
      using worker_move_inv [OF K inv move_ok(2) move_ok(4)] move_ok(1) by (auto simp: sound_pool_def)
  qed (use par_more.prems in simp_all)
qed simp

lemma parallel_start_inv:
  "cidx sch = 0 \<Longrightarrow> queued sch = [] \<Longrightarrow> popped sch = [] \<Longrightarrow>
   sound_pool C cidx queued popped n skip hook (parallel_start level n skip mv lio sch bl)"
  by (simp add: parallel_start_def sound_pool_def pool_inv_def) (auto intro!: held_idle)

text \<open>When all workers returned, nothing is held and everything queued was popped.\<close>

lemma sound_pool_returned:
  assumes "sound_pool C cidx queued popped n skip hook p" and "\<forall>w \<in> set (workers p). w = Returned"
  shows "held unstored (workers p) = {#}" "held unhooked (workers p) = {#}"
    "popped (sh_sch (shared p)) = [0..<cidx (sh_sch (shared p))]"
  using assms pool_invD(3) [of C cidx queued popped n skip hook "workers p" "shared p"]
  by (auto simp: sound_pool_def intro!: held_idle)

text \<open>The number of result slots never changes, failures included.\<close>

lemma worker_move_length:
  assumes K: "commit_contract S V vm cidx queued popped n"
    and run: "worker_move M R L order idorder vm S V C B Z ubl hook block v sh = Some (Inr (r, sh'))"
  shows "length (final_results sh') = length (final_results sh)"
proof (cases v)
  case (Coordinate task)
  with run show ?thesis by (auto simp: worker_move_def Let_def split: prod.splits bool.splits option.splits sum.splits)
next
  case (Drain site)
  with run show ?thesis by (auto simp: worker_move_def drain_step_def split: prod.splits option.splits)
next
  case (Commit site phase idx)
  with run obtain r1 where m: "materialize_txn_commit C Z hook phase idx sh = Inr (r1, sh')" by (auto simp: worker_move_def)
  obtain st lio where "take_output C idx (sh_lio sh) = (st, lio)" by (cases "take_output C idx (sh_lio sh)")
  with m materialize_phase_frame [OF m] show ?thesis
    by (cases phase; cases st) (auto simp: store_output_def)
next
  case (PerformTask task)
  show ?thesis
  proof (cases "task = DoneTask")
    case False
    with run PerformTask obtain r1 where "run_task M R L order idorder vm S V block task sh = Inr (r1, sh')" by (auto simp: worker_move_def)
    from run_task_frame [OF K this] show ?thesis by simp
  qed (use run PerformTask in \<open>auto simp: worker_move_def\<close>)
qed (use run in \<open>auto simp: worker_move_def\<close>)

lemma par_steps_length:
  assumes K: "commit_contract S V vm cidx queued popped n"
    and "par_steps S (worker_move M R L order idorder vm S V C B Z ubl hook block) p q"
  shows "length (final_results (shared q)) = length (final_results (shared p))"
  using assms(2)
proof (induction rule: par_steps.induct)
  case (par_more p q r)
  from par_more(2) show ?case
  proof cases
    case (move_ok i w sh)
    with worker_move_length [OF K move_ok(4)] par_more.IH show ?thesis by simp
  next
    case (move_err i e sh)
    with worker_move_length [OF K move_err(4)] par_more.IH show ?thesis by simp
  qed (use par_more.IH in simp)
qed simp

section \<open>Schedules, and a small block\<close>

text \<open>A list of worker numbers says who moves next; such a run is one of the interleavings.\<close>

definition step_at where
  "step_at S move i p =
     (if i < length (workers p) \<and> workers p ! i \<noteq> Returned then
        case move (workers p ! i) (shared p) of
          None \<Rightarrow> None
        | Some (Inl e) \<Rightarrow> Some (p\<lparr>workers := (workers p)[i := Returned], panicked := Some e\<rparr>)
        | Some (Inr (Inl e, sh)) \<Rightarrow>
            Some (p\<lparr>workers := (workers p)[i := Returned],
                    shared := sh\<lparr>shared_maybe_error := True, sh_sch := snd (halt S (sh_sch sh))\<rparr>\<rparr>)
        | Some (Inr (Inr w, sh)) \<Rightarrow> Some (p\<lparr>workers := (workers p)[i := w], shared := sh\<rparr>)
      else None)"

fun run_schedule where
  "run_schedule S move [] p = Some p"
| "run_schedule S move (i # is) p =
     (case step_at S move i p of None \<Rightarrow> None | Some q \<Rightarrow> run_schedule S move is q)"

lemma move_panic_kept:
  assumes "i < length (workers p)" and "workers p ! i \<noteq> Returned" and "move (workers p ! i) (shared p) = Some (Inl e)"
  shows "par_step S move p (p\<lparr>workers := (workers p)[i := Returned], panicked := Some e\<rparr>)"
  using move_panic [of i p move e "shared p" S, OF assms] by simp

lemma step_at_par_step: "step_at S move i p = Some q \<Longrightarrow> par_step S move p q"
  by (auto simp: step_at_def intro: move_ok move_err move_panic_kept split: if_splits option.splits sum.splits)

lemma par_steps_trans: "par_steps S move p q \<Longrightarrow> par_steps S move q r \<Longrightarrow> par_steps S move p r"
  by (rotate_tac 1, induction rule: par_steps.induct) (auto intro: par_more)

lemma run_schedule_par_steps: "run_schedule S move is p = Some q \<Longrightarrow> par_steps S move p q"
proof (induction "is" arbitrary: p)
  case (Cons i "is")
  then obtain q1 where "step_at S move i p = Some q1" "run_schedule S move is q1 = Some q"
    by (auto split: option.splits)
  with Cons.IH [of q1] show ?case
    by (meson par_more par_refl par_steps_trans step_at_par_step)
qed (simp add: par_refl)

text \<open>
  A scheduler that satisfies the contract: a counter and the two histories of the queue. It
  offers every transaction for commit and has no other work.
\<close>

definition counting_scheduler where
  "counting_scheduler n =
     \<lparr> try_commit = \<lambda>(c, q, p). if c < n then (Some (c, 0), (Suc c, q, p)) else (None, (c, q, p)),
       finish_execution_during_commit = \<lambda>i sch. (Inr (), sch),
       num_txns = \<lambda>sch. n,
       add_to_commit_queue = \<lambda>i (c, q, p). (c, q @ [i], p),
       pop_from_commit_queue = \<lambda>(c, q, p).
         if length p < length q \<and> take (length p) q = p
         then (Some (q ! length p), (c, q, p @ [q ! length p])) else (None, (c, q, p)),
       halt = \<lambda>sch. (True, sch),
       should_coordinate_commits = \<lambda>(c, q, p). (c < n, (c, q, p)),
       queueing_commits_mark_done = \<lambda>sch. sch,
       finish_execution = \<lambda>i inc b sch. (Inr RetryTask, sch),
       next_task = \<lambda>sch. (DoneTask, sch),
       wake_dependency = \<lambda>c sch. sch \<rparr>"

definition idle_validation :: "(nat \<times> nat list \<times> nat list) SchedulerOps" where
  "idle_validation =
     \<lparr> try_abort = \<lambda>i inc sch. (False, sch), finish_abort = \<lambda>i inc sch. (Inr RetryTask, sch),
       finish_validation = \<lambda>i w sch. sch, queueing_commits_arm = \<lambda>sch. sch \<rparr>"

definition null_vm where
  "null_vm txn idx mv sch = (TaskSuccess sample_output :: (_, unit) TaskStatus, (), mv, sch)"

lemma counting_scheduler_contract:
  "commit_contract (counting_scheduler n) idle_validation null_vm fst (fst \<circ> snd) (snd \<circ> snd) n"
proof -
  have "take (length p) q = p \<Longrightarrow> length p < length q \<Longrightarrow> \<exists>rest. q = p @ q ! length p # rest"
    for p q :: "nat list"
    by (metis id_take_nth_drop)
  then show ?thesis
    by (auto simp: commit_contract_def counting_scheduler_def idle_validation_def null_vm_def quiet_def
        split: if_splits)
qed

lemma counting_scheduler_drain: "drain_contract (counting_scheduler n) (fst \<circ> snd) (snd \<circ> snd)"
  by (auto simp: drain_contract_def counting_scheduler_def split: if_splits)

definition null_table :: "(unit, nat, nat, nat, nat, nat, nat, nat, nat,
    (nat, nat, nat, nat, nat, nat, nat, nat, unit) TxnOutput, unit) CommitTable" where
  "null_table =
     \<lparr> check_fatal_vm_error = \<lambda>i l. Inr (), check_execution_status_during_commit = \<lambda>i l. Inr (),
       fee_statement = \<lambda>i l. None, output_approx_size = \<lambda>i l. None,
       get_txn_read_write_summary = \<lambda>i l. 0, update_to_skip_rest = \<lambda>i l. l,
       block_skips_rest_at_idx = \<lambda>i l. False, groups_to_finalize = \<lambda>i l. [],
       record_finalized_group = \<lambda>i g l. l, take_finalized_group = \<lambda>i l. ([], l),
       take_resource_write_set = \<lambda>i l. ([], l), events = \<lambda>i l. [],
       aggregator_v1_delta_keys = \<lambda>i l. [],
       record_materialized_txn_output = \<lambda>i d w e l. (Inr (), l),
       txn_output = \<lambda>i l. Some (TaskSuccess sample_output),
       take_output = \<lambda>i l. (TaskSuccess sample_output, l) \<rparr>"

definition null_limit :: "(unit, nat, nat) BlockLimit" where
  "null_limit =
     \<lparr> accumulate_fee_statement = \<lambda>f s a b. b, should_end_block_parallel = \<lambda>b. False,
       block_output_limit = None, include_user_txn_size_in_block_output = False,
       conflict_penalty_window = None \<rparr>"

definition null_materializer :: "(sample_mv, nat, nat, nat, nat, nat, nat, nat, nat, nat, nat, nat) Materializer" where
  "null_materializer =
     \<lparr> get_last_committed_group = \<lambda>k m. 0, finalize_group = \<lambda>k i m. (0, m),
       map_finalized_group = \<lambda>k f v b. Inr 0, map_id_to_values_in_group_writes = \<lambda>g m. Inr [],
       serialize_groups = \<lambda>g. Inr [], resource_writes_to_materialize = \<lambda>w i m. Inr [],
       map_id_to_values_in_write_set = \<lambda>w m. Inr [], map_id_to_values_events = \<lambda>e m. Inr e,
       materialize_delta = \<lambda>k i m. (Inr 0, m), set_base_value = \<lambda>k v m. m,
       get_state_value = \<lambda>k. Inr None, from_state_value = \<lambda>v. 0, as_u128 = \<lambda>v. Inr None,
       apply_to = \<lambda>d v. Inr v, legacy_modification = \<lambda>v. v \<rparr>"

definition null_io :: "(unit, nat, nat, nat, nat, unit,
    (nat, nat, nat, nat, nat, nat, nat, nat, unit) TxnOutput, unit) TxnLastInputOutput" where
  "null_io =
     \<lparr> modified_keys = \<lambda>i l. None, delayed_field_keys = \<lambda>i l. None,
       record_io = \<lambda>i rs st w l. (True, l), read_set = \<lambda>i l. Some () \<rparr>"

abbreviation sample_move where
  "sample_move \<equiv> worker_move map_cache sample_reads null_io id id null_vm (counting_scheduler 1)
     idle_validation null_table null_limit null_materializer (\<lambda>_. 0) True [()]"

lemmas sample_move_defs =
  worker_move_def drain_step_def prepare_and_queue_commit_ready_txns_def ready_or_reexecute_def
  validate_commit_ready_def account_commit_def store_output_def materialize_output_def
  materialize_aggregator_v1_delta_writes_def call_commit_hook_def run_task_def index_at_def
  counting_scheduler_def null_table_def null_limit_def null_materializer_def null_io_def
  sample_reads_def Let_def

definition other_output where
  "other_output = sample_output\<lparr>resource_write_set := []\<rparr>"

lemma sample_pool_run:
  "\<exists>p. run_schedule (counting_scheduler 1) sample_move ([0, 0, 0, 1, 1, 0, 1, 0] @ [0, 0, 0, 0, 0, 0, 0] @ [1, 1, 1, 1])
       (parallel_start 2 (length [()]) other_output sample_cache () (0, [], []) ()) = Some p \<and>
     workers p = [Returned, Returned] \<and> parallel_result p = Inr (Some [sample_output]) \<and> fst (sh_sch (shared p)) = 1"
  by (simp add: step_at_def parallel_start_def parallel_result_def sample_move_defs numeral_2_eq_2)

section \<open>Properties\<close>

text \<open>
  C12. The commit loop returns, with fuel for one pass per transaction and one more, and
  queues transactions in block order without a gap: what it adds to the commit queue are the
  indices from the next one to commit up to some index, which is then the next one to commit;
  after an error one index was handed out and not queued.
\<close>

theorem commit_loop_in_order:
  assumes "commit_contract S V vm cidx queued popped n"
  shows "(\<exists>x. prepare_and_queue_commit_ready_txns (Suc n) M R L order idorder vm S C B Z ubl block task
        (mv, lio, sch, bl) = Some x) \<and>
     (\<forall>r mv' lio' sch' bl'.
        prepare_and_queue_commit_ready_txns (Suc n) M R L order idorder vm S C B Z ubl block task
          (mv, lio, sch, bl) = Some (Inr (r, mv', lio', sch', bl')) \<longrightarrow>
        (\<exists>m \<ge> cidx sch. queued sch' = queued sch @ [cidx sch..<m] \<and>
           cidx sch' = (case r of Inr _ \<Rightarrow> m | Inl _ \<Rightarrow> Suc m)))"
proof -
  have "n - cidx sch < Suc n" by simp
  note T = commit_loop_terminates [OF assms commit_txn_in_order [OF assms] this]
  note Q = commit_loop_queues [OF assms commit_txn_in_order [OF assms]]
  show ?thesis
    unfolding prepare_and_queue_commit_ready_txns_def by (intro conjI allI impI T) (drule Q, blast)
qed

theorem commit_loop_in_order_witness:
  "\<exists>mv' sch'. prepare_and_queue_commit_ready_txns (Suc 1) map_cache sample_reads null_io id id null_vm
       (counting_scheduler 1) null_table null_limit null_materializer (\<lambda>_. 0) [()] RetryTask
       (sample_cache, (), (0, [], []), ()) = Some (Inr (Inr (), mv', (), sch', ())) \<and>
     fst (snd sch') = [0..<1]"
proof -
  let ?run = "prepare_and_queue_commit_ready_txns (Suc 1) map_cache sample_reads null_io id id null_vm
       (counting_scheduler 1) null_table null_limit null_materializer (\<lambda>_. 0) [()] RetryTask
       (sample_cache, (), (0, [], []), ())"
  have run: "?run = Some (Inr (Inr (), sample_cache, (), (1, [0], []), ()))"
    by (simp add: sample_move_defs)
  from commit_loop_in_order [OF counting_scheduler_contract, of 1 map_cache sample_reads null_io id id
      null_table null_limit null_materializer "\<lambda>_. 0" "[()]" RetryTask sample_cache "()" "(0, [], [])" "()"] run
  have "\<exists>m \<ge> 0. [0] = [0..<m] \<and> 1 = m" by simp
  with run show ?thesis by auto
qed

lemma parallel_length:
  assumes "commit_contract S V vm cidx queued popped (length block)"
    and "execute_transactions_parallel M R L order idorder vm S V C B Z ubl hook level skip_output
           mv lio sch bl block (Inr (Some outs))"
  shows "length outs = length block"
proof (cases "block = []")
  case True
  with assms(2) show ?thesis by (auto simp: execute_transactions_parallel_def split: if_splits)
next
  case False
  with assms(2) obtain p where
    steps: "par_steps S (worker_move M R L order idorder vm S V C B Z ubl hook block)
       (parallel_start level (length block) skip_output mv lio sch bl) p"
    and res: "parallel_result p = Inr (Some outs)"
    by (auto simp: execute_transactions_parallel_def split: if_splits)
  have "outs = final_results (shared p)" using res by (auto simp: parallel_result_def split: option.splits if_splits)
  then show ?thesis using par_steps_length [OF assms(1) steps] by (simp add: parallel_start_def)
qed

lemma parallel_result_ok:
  assumes "parallel_result p = Inr (Some outs)"
  shows "panicked p = None" "\<not> shared_maybe_error (shared p)" "outs = final_results (shared p)"
  using assms by (auto simp: parallel_result_def split: option.splits if_splits)

text \<open>
  C13. The result of a parallel run, whatever the interleaving of the workers. When all workers
  returned and the result is a success, the transactions that the scheduler committed are a prefix
  of the block; each slot of the prefix holds the output taken from the table for its index, or the
  skip output of an aborted transaction; and every slot after it still holds the skip output.
\<close>

theorem parallel_output_prefix:
  assumes "commit_contract S V vm cidx queued popped (length block)" and "drain_contract S queued popped"
    and "cidx sch = 0" and "queued sch = []" and "popped sch = []"
    and "par_steps S (worker_move M R L order idorder vm S V C B Z ubl hook block)
           (parallel_start level (length block) skip_output mv lio sch bl) p"
    and "\<forall>w \<in> set (workers p). w = Returned" and "parallel_result p = Inr (Some outs)"
  shows "let m = cidx (sh_sch (shared p)) in
     m \<le> length block \<and> queued (sh_sch (shared p)) = [0..<m] \<and> length outs = length block \<and>
     (\<forall>i. i < m \<longrightarrow> committed_slot C skip_output i (outs ! i)) \<and>
     (\<forall>i. m \<le> i \<and> i < length block \<longrightarrow> outs ! i = skip_output)"
proof -
  note ok = parallel_result_ok [OF assms(8)]
  have start: "sound_pool C cidx queued popped (length block) skip_output hook
      (parallel_start level (length block) skip_output mv lio sch bl)" using assms(3-5) by (rule parallel_start_inv)
  have sound: "sound_pool C cidx queued popped (length block) skip_output hook p"
    by (rule par_steps_inv [OF assms(1,2,6) start ok(1,2)])
  then have inv: "pool_inv C cidx queued popped (length block) skip_output hook (workers p) (shared p)"
    by (simp add: sound_pool_def)
  note D = pool_invD(7,8) [OF inv, unfolded sound_pool_returned(1,3) [OF sound assms(7)]]
  from D pool_invD(1-3) [OF inv] ok(3) show ?thesis by (simp add: Let_def)
qed

theorem parallel_output_prefix_witness:
  "\<exists>p. par_steps (counting_scheduler 1) sample_move
       (parallel_start 2 (length [()]) other_output sample_cache () (0, [], []) ()) p \<and>
     workers p = [Returned, Returned] \<and> parallel_result p = Inr (Some [sample_output]) \<and>
     fst (sh_sch (shared p)) = 1 \<and> committed_slot null_table other_output 0 sample_output"
proof -
  from sample_pool_run obtain p where
    p: "par_steps (counting_scheduler 1) sample_move
       (parallel_start 2 (length [()]) other_output sample_cache () (0, [], []) ()) p"
    "workers p = [Returned, Returned]" "parallel_result p = Inr (Some [sample_output])" "fst (sh_sch (shared p)) = 1"
    using run_schedule_par_steps by blast
  have K: "commit_contract (counting_scheduler 1) idle_validation null_vm fst (fst \<circ> snd) (snd \<circ> snd) (length [()])"
    using counting_scheduler_contract [of 1] by simp
  have "committed_slot null_table other_output 0 sample_output"
    using parallel_output_prefix [OF K counting_scheduler_drain _ _ _ p(1) _ p(3)] p(2,4) by (auto simp: Let_def)
  with p show ?thesis by blast
qed

text \<open>
  C14. The commit hook. In every state the pool can reach without a failed worker, a popped index has
  been hooked exactly once or is held by a worker that has yet to call the hook; the hook was called for
  no index twice and only for indices of the committed prefix. When all workers have returned it was
  called for every committed index. The order of the calls is not fixed.
\<close>

theorem hook_once_per_commit:
  assumes "commit_contract S V vm cidx queued popped n" and "drain_contract S queued popped"
    and "cidx sch = 0" and "queued sch = []" and "popped sch = []"
    and "par_steps S (worker_move M R L order idorder vm S V C B Z ubl True block)
           (parallel_start level n skip_output mv lio sch bl) p"
    and "panicked p = None" and "\<not> shared_maybe_error (shared p)"
  shows "let sch' = sh_sch (shared p); hooks = map hook_idx (hook_log (shared p)) in
     mset (popped sch') = mset hooks + held unhooked (workers p) \<and> distinct hooks \<and>
     set hooks \<subseteq> {0..<cidx sch'} \<and> queued sch' = [0..<cidx sch'] \<and> cidx sch' \<le> n \<and>
     ((\<forall>w \<in> set (workers p). w = Returned) \<longrightarrow> set hooks = {0..<cidx sch'})"
proof -
  have start: "sound_pool C cidx queued popped n skip_output True (parallel_start level n skip_output mv lio sch bl)"
    using assms(3-5) by (rule parallel_start_inv)
  have sound: "sound_pool C cidx queued popped n skip_output True p"
    by (rule par_steps_inv [OF assms(1,2,6) start assms(7,8)])
  then have inv: "pool_inv C cidx queued popped n skip_output True (workers p) (shared p)" by (simp add: sound_pool_def)
  let ?hooks = "map hook_idx (hook_log (shared p))" and ?sch = "sh_sch (shared p)"
  have hooks: "mset (popped ?sch) = mset ?hooks + held unhooked (workers p)" using pool_invD(6) [OF inv] by simp
  then have sub: "mset ?hooks \<subseteq># mset (popped ?sch)" by simp
  note popped = pool_inv_popped [OF inv]
  have "set ?hooks \<subseteq> set (popped ?sch)" using set_mset_mono [OF sub] by (simp only: set_mset_mset)
  moreover have "distinct ?hooks"
    by (rule distinct_sub_mset [OF sub popped(1)])
  moreover have "set ?hooks = {0..<cidx ?sch}" if all: "\<forall>w \<in> set (workers p). w = Returned"
  proof -
    have "mset (popped ?sch) = mset ?hooks" using hooks sound_pool_returned(2) [OF sound all] by simp
    from mset_eq_setD [OF this] show ?thesis using sound_pool_returned(3) [OF sound all] by simp
  qed
  ultimately show ?thesis using hooks popped(2) pool_invD(2,3) [OF inv] by (simp add: Let_def)
qed

theorem hook_once_per_commit_witness:
  "\<exists>p. par_steps (counting_scheduler 1) sample_move
       (parallel_start 2 (length [()]) other_output sample_cache () (0, [], []) ()) p \<and>
     workers p = [Returned, Returned] \<and> set (map hook_idx (hook_log (shared p))) = {0..<1}"
proof -
  from sample_pool_run obtain p where
    p: "par_steps (counting_scheduler 1) sample_move
       (parallel_start 2 (length [()]) other_output sample_cache () (0, [], []) ()) p"
    "workers p = [Returned, Returned]" "parallel_result p = Inr (Some [sample_output])" "fst (sh_sch (shared p)) = 1"
    using run_schedule_par_steps by blast
  have start: "par_steps (counting_scheduler 1) sample_move
      (parallel_start 2 1 other_output sample_cache () (0, [], []) ()) p" using p(1) by simp
  have "set (map hook_idx (hook_log (shared p))) = {0..<1}"
    using hook_once_per_commit [OF counting_scheduler_contract counting_scheduler_drain _ _ _ start parallel_result_ok(1,2) [OF p(3)]] p(2,4)
    by (auto simp: Let_def)
  with p show ?thesis by blast
qed

end
