(* ===== verification/Account_Universe.thy ===== *)
theory Account_Universe
  imports Rust_Prelude "HOL-Library.Log_Nat"
begin

text \<open>
  The account universe of the Aptos end-to-end tests
  (\<^verbatim>\<open>e2e-tests/src/account_universe.rs\<close> and \<^verbatim>\<open>account_universe/universe.rs\<close>):
  the accounts a benchmark draws its senders and receivers from, the picker that draws
  them, and the balance ranges they start with.

  \<^item> \<open>Account\<close> and \<open>AccountData\<close> live in a file that is not part of the repository;
    the records below hold what their getters return.
  \<^item> \<open>Index::index\<close> (proptest) and \<open>pick_slice_idxs\<close> (\<^verbatim>\<open>aptos_proptest_helpers\<close>)
    are parameters; \<open>index_contract\<close> and \<open>slice_idxs_contract\<close> state their
    documented behaviour.
  \<^item> a \<open>&mut AccountCurrent\<close> handed out by a pick is its index in the account vector.
\<close>

named_theorems universe_defs \<open>definitions of the account universe\<close>

section \<open>Accounts\<close>

type_synonym AccountAddress = "u8 list"

record Account =
  address :: AccountAddress
  auth_key :: "u8 list"

record AccountData =
  ad_account :: Account
  ad_balance :: u64
  ad_sequence_number :: u64
  ad_sent_events_count :: u64
  ad_received_events_count :: u64

record AccountCurrent =
  initial_data :: AccountData
  balance :: u64
  sequence_number :: u64
  sent_events_count :: u64
  received_events_count :: u64
  event_counter_created :: bool

definition AccountCurrent_new :: "AccountData \<Rightarrow> AccountCurrent" where
  "AccountCurrent_new d =
     \<lparr> initial_data = d,
       balance = ad_balance d,
       sequence_number = ad_sequence_number d,
       sent_events_count = ad_sent_events_count d,
       received_events_count = ad_received_events_count d,
       event_counter_created = False \<rparr>"

definition account :: "AccountCurrent \<Rightarrow> Account" where
  "account a = ad_account (initial_data a)"

definition increase_account_sequence_number :: "AccountCurrent \<Rightarrow> AccountCurrent res" where
  "increase_account_sequence_number a =
     rbind (add_c (sequence_number a) 1) (\<lambda>n. Inr (a\<lparr>sequence_number := n\<rparr>))"

text \<open>The gas-cost table \<open>gas_costs\<close> of the crate.\<close>

record gas_costs =
  TXN_RESERVED :: u64
  CREATE_ACCOUNT_FIRST :: u64
  CREATE_ACCOUNT_NEXT :: u64
  CREATE_ACCOUNT_TOO_LOW_FIRST :: u64
  CREATE_ACCOUNT_TOO_LOW_NEXT :: u64
  CREATE_EXISTING_ACCOUNT_FIRST :: u64
  CREATE_EXISTING_ACCOUNT_NEXT :: u64
  PEER_TO_PEER :: u64
  PEER_TO_PEER_TOO_LOW :: u64
  PEER_TO_PEER_NEW_RECEIVER_FIRST :: u64
  PEER_TO_PEER_NEW_RECEIVER_NEXT :: u64
  PEER_TO_PEER_NEW_RECEIVER_TOO_LOW_FIRST :: u64
  PEER_TO_PEER_NEW_RECEIVER_TOO_LOW_NEXT :: u64

definition create_account_gas_cost :: "gas_costs \<Rightarrow> AccountCurrent \<Rightarrow> u64" where
  "create_account_gas_cost gc a =
     (if event_counter_created a then CREATE_ACCOUNT_NEXT gc else CREATE_ACCOUNT_FIRST gc)"

definition create_account_low_balance_gas_cost :: "gas_costs \<Rightarrow> AccountCurrent \<Rightarrow> u64" where
  "create_account_low_balance_gas_cost gc a =
     (if event_counter_created a then CREATE_ACCOUNT_TOO_LOW_NEXT gc
      else CREATE_ACCOUNT_TOO_LOW_FIRST gc)"

definition create_existing_account_gas_cost :: "gas_costs \<Rightarrow> AccountCurrent \<Rightarrow> u64" where
  "create_existing_account_gas_cost gc a =
     (if event_counter_created a then CREATE_EXISTING_ACCOUNT_NEXT gc
      else CREATE_EXISTING_ACCOUNT_FIRST gc)"

definition peer_to_peer_gas_cost :: "gas_costs \<Rightarrow> AccountCurrent \<Rightarrow> u64" where
  "peer_to_peer_gas_cost gc a = PEER_TO_PEER gc"

definition peer_to_peer_too_low_gas_cost :: "gas_costs \<Rightarrow> AccountCurrent \<Rightarrow> u64" where
  "peer_to_peer_too_low_gas_cost gc a = PEER_TO_PEER_TOO_LOW gc"

definition peer_to_peer_new_receiver_gas_cost :: "gas_costs \<Rightarrow> AccountCurrent \<Rightarrow> u64" where
  "peer_to_peer_new_receiver_gas_cost gc a =
     (if event_counter_created a then PEER_TO_PEER_NEW_RECEIVER_NEXT gc
      else PEER_TO_PEER_NEW_RECEIVER_FIRST gc)"

definition peer_to_peer_new_receiver_too_low_gas_cost :: "gas_costs \<Rightarrow> AccountCurrent \<Rightarrow> u64" where
  "peer_to_peer_new_receiver_too_low_gas_cost gc a =
     (if event_counter_created a then PEER_TO_PEER_NEW_RECEIVER_TOO_LOW_NEXT gc
      else PEER_TO_PEER_NEW_RECEIVER_TOO_LOW_FIRST gc)"

section \<open>Pickers\<close>

datatype AccountPickStyle = Unlimited | Limited nat

datatype AccountPicker =
    PickerUnlimited nat
  | PickerLimited "(nat \<times> nat) list"  \<comment> \<open>(index, times remaining)\<close>

definition AccountPicker_new :: "AccountPickStyle \<Rightarrow> nat \<Rightarrow> AccountPicker" where
  "AccountPicker_new pick_style num_accounts =
     (case pick_style of
        Unlimited \<Rightarrow> PickerUnlimited num_accounts
      | Limited limit \<Rightarrow> PickerLimited (map (\<lambda>idx. (idx, limit)) [0..<num_accounts]))"

definition pick_limited :: "(nat \<times> nat) list \<Rightarrow> nat \<Rightarrow> (nat \<times> (nat \<times> nat) list) res" where
  "pick_limited remaining remaining_idx =
     rbind (index_at remaining remaining_idx) (\<lambda>(account_idx, times).
       if times = 0 then Inl ArithOverflow
       else
         let times_remaining = times - 1;
             remaining' = remaining[remaining_idx := (account_idx, times_remaining)]
         in Inr (account_idx,
                 if times_remaining = 0 then remove_at remaining_idx remaining' else remaining'))"

definition AccountPicker_pick ::
  "('ix \<Rightarrow> nat \<Rightarrow> nat res) \<Rightarrow> AccountPicker \<Rightarrow> 'ix \<Rightarrow> (nat \<times> AccountPicker) res" where
  "AccountPicker_pick index p i =
     (case p of
        PickerUnlimited num_accounts \<Rightarrow> rbind (index i num_accounts) (\<lambda>k. Inr (k, p))
      | PickerLimited remaining \<Rightarrow>
          rbind (index i (length remaining)) (\<lambda>remaining_idx.
          rbind (pick_limited remaining remaining_idx) (\<lambda>(k, remaining').
          Inr (k, PickerLimited remaining'))))"

definition pick_pair_impl ::
  "(nat \<Rightarrow> 'ix \<times> 'ix \<Rightarrow> nat list) \<Rightarrow> nat \<Rightarrow> 'ix \<times> 'ix \<Rightarrow> (nat \<times> nat) res" where
  "pick_pair_impl pick_slice_idxs mx indexes =
     (let idxs = pick_slice_idxs mx indexes in
      rbind (assert_that (length idxs = 2)) (\<lambda>_.
      rbind (assert_that (idxs ! 0 < idxs ! 1)) (\<lambda>_.
      Inr (idxs ! 0, idxs ! 1))))"

definition pick_pair ::
  "(nat \<Rightarrow> 'ix \<times> 'ix \<Rightarrow> nat list) \<Rightarrow> AccountPicker \<Rightarrow> 'ix \<times> 'ix
    \<Rightarrow> ((nat \<times> nat) \<times> AccountPicker) res" where
  "pick_pair pick_slice_idxs p indexes =
     (case p of
        PickerUnlimited num_accounts \<Rightarrow>
          rbind (pick_pair_impl pick_slice_idxs num_accounts indexes) (\<lambda>pr. Inr (pr, p))
      | PickerLimited remaining \<Rightarrow>
          rbind (pick_pair_impl pick_slice_idxs (length remaining) indexes)
            (\<lambda>(remaining_idx_1, remaining_idx_2).
          rbind (pick_limited remaining remaining_idx_2) (\<lambda>(account_idx_2, remaining1).
          rbind (pick_limited remaining1 remaining_idx_1) (\<lambda>(account_idx_1, remaining2).
          Inr ((account_idx_1, account_idx_2), PickerLimited remaining2)))))"

section \<open>The universe\<close>

record AccountUniverseGen =
  gen_accounts :: "AccountData list"
  gen_pick_style :: AccountPickStyle

record AccountUniverse =
  accounts :: "AccountCurrent list"
  pick_style :: AccountPickStyle
  picker :: AccountPicker
  ignore_new_accounts :: bool

definition AccountUniverse_new ::
  "AccountData list \<Rightarrow> AccountPickStyle \<Rightarrow> bool \<Rightarrow> AccountUniverse" where
  "AccountUniverse_new ds style ignore =
     (let accs = map AccountCurrent_new ds in
      \<lparr> accounts = accs,
        pick_style = style,
        picker = AccountPicker_new style (length accs),
        ignore_new_accounts = ignore \<rparr>)"

definition set_pick_style :: "AccountPickStyle \<Rightarrow> AccountUniverseGen \<Rightarrow> AccountUniverseGen" where
  "set_pick_style style g = g\<lparr>gen_pick_style := style\<rparr>"

text \<open>\<open>FakeExecutor::add_account_data\<close> is the parameter \<open>add_data\<close> of the two set-ups.\<close>

definition setup_universe ::
  "('ex \<Rightarrow> AccountData \<Rightarrow> 'ex) \<Rightarrow> AccountUniverseGen \<Rightarrow> 'ex \<Rightarrow> AccountUniverse \<times> 'ex" where
  "setup_universe add_data g ex =
     (AccountUniverse_new (gen_accounts g) (gen_pick_style g) False,
      foldl add_data ex (gen_accounts g))"

definition setup_gas_cost_stability ::
  "('ex \<Rightarrow> AccountData \<Rightarrow> 'ex) \<Rightarrow> AccountUniverseGen \<Rightarrow> 'ex \<Rightarrow> AccountUniverse \<times> 'ex" where
  "setup_gas_cost_stability add_data g ex =
     (AccountUniverse_new (gen_accounts g) (gen_pick_style g) True,
      foldl add_data ex (gen_accounts g))"

definition num_accounts :: "AccountUniverse \<Rightarrow> nat" where
  "num_accounts u = length (accounts u)"

definition account_at :: "AccountUniverse \<Rightarrow> nat \<Rightarrow> AccountCurrent res" where
  "account_at u i = index_at (accounts u) i"

definition add_account :: "AccountData \<Rightarrow> AccountUniverse \<Rightarrow> AccountUniverse" where
  "add_account d u =
     (if \<not> ignore_new_accounts u then u\<lparr>accounts := accounts u @ [AccountCurrent_new d]\<rparr> else u)"

definition reset_picker :: "AccountUniverse \<Rightarrow> AccountUniverse" where
  "reset_picker u = u\<lparr>picker := AccountPicker_new (pick_style u) (length (accounts u))\<rparr>"

definition AccountUniverse_pick ::
  "('ix \<Rightarrow> nat \<Rightarrow> nat res) \<Rightarrow> AccountUniverse \<Rightarrow> 'ix \<Rightarrow> (nat \<times> AccountUniverse) res" where
  "AccountUniverse_pick index u i =
     rbind (AccountPicker_pick index (picker u) i) (\<lambda>(idx, p').
     rbind (index_at (accounts u) idx) (\<lambda>_.
     Inr (idx, u\<lparr>picker := p'\<rparr>)))"

record 'ix AccountPairGen =
  pair :: "'ix \<times> 'ix"
  rev_pair :: bool

text \<open>
  \<open>AccountPairGen::pick\<close>: the two mutable references are the positions \<open>(idx_1, idx_2)\<close>
  of the account vector; the split of the vector and the two slice accesses are kept,
  because each can panic.
\<close>

definition AccountPairGen_pick ::
  "(nat \<Rightarrow> 'ix \<times> 'ix \<Rightarrow> nat list) \<Rightarrow> 'ix AccountPairGen \<Rightarrow> AccountUniverse
    \<Rightarrow> ((nat \<times> nat) \<times> AccountUniverse) res" where
  "AccountPairGen_pick pick_slice_idxs g u =
     rbind (pick_pair pick_slice_idxs (picker u) (pair g)) (\<lambda>((low_idx, high_idx), p').
       if length (accounts u) < low_idx + 1 then Inl IndexOutOfBounds
       else
         let head = take (low_idx + 1) (accounts u);
             tail = drop (low_idx + 1) (accounts u)
         in rbind (index_at head low_idx) (\<lambda>_.
              if high_idx < low_idx + 1 then Inl ArithOverflow
              else rbind (index_at tail (high_idx - low_idx - 1)) (\<lambda>_.
                Inr (if rev_pair g then (high_idx, low_idx) else (low_idx, high_idx),
                     u\<lparr>picker := p'\<rparr>))))"

section \<open>Contracts of the two library functions\<close>

text \<open>
  \<open>Index::index(size)\<close> panics on an empty range and otherwise returns a position below
  \<open>size\<close>. \<open>pick_slice_idxs(max, indexes)\<close> returns positions below \<open>max\<close>, in
  increasing order and without repetition, one per index as long as there are enough.
\<close>

definition index_contract :: "('ix \<Rightarrow> nat \<Rightarrow> nat res) \<Rightarrow> bool" where
  "index_contract index \<longleftrightarrow>
     (\<forall>i. (\<exists>e. index i 0 = Inl e)) \<and> (\<forall>i n. 0 < n \<longrightarrow> (\<exists>k. index i n = Inr k \<and> k < n))"

definition slice_idxs_contract :: "(nat \<Rightarrow> 'ix \<times> 'ix \<Rightarrow> nat list) \<Rightarrow> bool" where
  "slice_idxs_contract psi \<longleftrightarrow>
     (\<forall>n ixs. sorted_wrt (<) (psi n ixs) \<and> (\<forall>k \<in> set (psi n ixs). k < n) \<and>
              length (psi n ixs) = min 2 n)"

lemma slice_idxs_contractD:
  "slice_idxs_contract psi \<Longrightarrow>
     sorted_wrt (<) (psi n ixs) \<and> (\<forall>k \<in> set (psi n ixs). k < n) \<and> length (psi n ixs) = min 2 n"
  unfolding slice_idxs_contract_def by blast

section \<open>The picker invariant\<close>

text \<open>
  Account indices are below the number of accounts; the remaining list of a limited picker
  is sorted by index, has no index twice and holds only positive counts.
\<close>

fun picker_inv :: "nat \<Rightarrow> AccountPicker \<Rightarrow> bool" where
  "picker_inv n (PickerUnlimited m) \<longleftrightarrow> m \<le> n"
| "picker_inv n (PickerLimited remaining) \<longleftrightarrow>
     sorted_wrt (<) (map fst remaining) \<and> (\<forall>(i, t) \<in> set remaining. i < n \<and> 0 < t)"

fun picker_avail :: "AccountPicker \<Rightarrow> nat" where
  "picker_avail (PickerUnlimited m) = m"
| "picker_avail (PickerLimited remaining) = length remaining"

definition universe_inv :: "AccountUniverse \<Rightarrow> bool" where
  "universe_inv u \<longleftrightarrow> picker_inv (length (accounts u)) (picker u)"

lemma picker_inv_mono: "picker_inv n p \<Longrightarrow> n \<le> m \<Longrightarrow> picker_inv m p"
  by (cases p) fastforce+

lemma picker_inv_new: "style \<noteq> Limited 0 \<Longrightarrow> picker_inv n (AccountPicker_new style n)"
  by (cases style) (auto simp: AccountPicker_new_def comp_def)

text \<open>A pick removes one from the count at the picked position, and the entry when it is used up.\<close>

lemma pick_limited_split:
  "pick_limited (xs @ (a, t) # ys) (length xs) =
     (if t = 0 then Inl ArithOverflow
      else Inr (a, xs @ (if t = 1 then [] else [(a, t - 1)]) @ ys))"
  by (auto simp: pick_limited_def index_at_def remove_at_def Let_def)

lemma pick_limited_nth:
  assumes "i < length remaining" and "remaining ! i = (a, t)" and "t \<noteq> 0"
  shows "remaining = take i remaining @ (a, t) # drop (Suc i) remaining"
    and "pick_limited remaining i =
      Inr (a, take i remaining @ (if t = 1 then [] else [(a, t - 1)]) @ drop (Suc i) remaining)"
proof -
  let ?xs = "take i remaining" and ?ys = "drop (Suc i) remaining"
  show s: "remaining = ?xs @ (a, t) # ?ys"
    using id_take_nth_drop [OF assms(1)] assms(2) by simp
  have "length ?xs = i" using assms(1) by simp
  then show "pick_limited remaining i = Inr (a, ?xs @ (if t = 1 then [] else [(a, t - 1)]) @ ?ys)"
    using pick_limited_split [of ?xs a t ?ys] assms(3) s by metis
qed

lemma pick_limited_inv:
  assumes inv: "picker_inv n (PickerLimited remaining)" and i: "i < length remaining"
  shows "\<exists>remaining'. pick_limited remaining i = Inr (fst (remaining ! i), remaining') \<and>
           picker_inv n (PickerLimited remaining') \<and>
           take i remaining' = take i remaining \<and> fst (remaining ! i) < n"
proof -
  obtain a t where at: "remaining ! i = (a, t)" by fastforce
  have "(a, t) \<in> set remaining" using i at by (metis nth_mem)
  with inv have "t \<noteq> 0" by auto
  note s = pick_limited_nth [OF i at this]
  have "sorted_wrt (<) (map fst (take i remaining @ (a, t) # drop (Suc i) remaining))"
    "\<forall>(j, t) \<in> set (take i remaining @ (a, t) # drop (Suc i) remaining). j < n \<and> 0 < t"
    using inv s(1) by (metis picker_inv.simps(2))+
  then show ?thesis using s(2) at i by (auto simp: sorted_wrt_append)
qed

lemma pick_pair_impl_ok:
  assumes "slice_idxs_contract psi" and "2 \<le> n"
  shows "\<exists>i j. pick_pair_impl psi n ixs = Inr (i, j) \<and> i < j \<and> j < n"
proof -
  let ?l = "psi n ixs"
  have l: "sorted_wrt (<) ?l" "\<forall>k \<in> set ?l. k < n" "length ?l = 2"
    using slice_idxs_contractD [OF assms(1), of n ixs] assms(2) by auto
  then have "?l ! 0 < ?l ! 1" by (simp add: sorted_wrt_nth_less)
  moreover have "?l ! 1 < n" using l by simp
  ultimately show ?thesis using l by (simp add: pick_pair_impl_def Let_def)
qed

lemma pick_pair_limited_ok:
  assumes inv: "picker_inv n (PickerLimited remaining)" and ij: "i < j" "j < length remaining"
  shows "\<exists>r1 r2. pick_limited remaining j = Inr (fst (remaining ! j), r1) \<and>
           pick_limited r1 i = Inr (fst (remaining ! i), r2) \<and>
           picker_inv n (PickerLimited r2) \<and>
           fst (remaining ! i) < fst (remaining ! j) \<and> fst (remaining ! j) < n"
proof -
  from pick_limited_inv [OF inv ij(2)] obtain r1 where
    r1: "pick_limited remaining j = Inr (fst (remaining ! j), r1)"
      "picker_inv n (PickerLimited r1)" "take j r1 = take j remaining" "fst (remaining ! j) < n"
    by blast
  have "length (take j r1) = j" using r1(3) ij by simp
  then have i1: "i < length r1" using ij by simp
  have "r1 ! i = remaining ! i" using r1(3) ij(1) by (metis nth_take)
  with pick_limited_inv [OF r1(2) i1] obtain r2 where
    "pick_limited r1 i = Inr (fst (remaining ! i), r2)" "picker_inv n (PickerLimited r2)"
    by auto
  moreover have "fst (remaining ! i) < fst (remaining ! j)"
    using inv ij by (auto simp: sorted_wrt_iff_nth_less)
  ultimately show ?thesis using r1 by blast
qed

lemma pick_pair_ok:
  assumes psi: "slice_idxs_contract psi" and inv: "picker_inv n p" and avail: "2 \<le> picker_avail p"
  shows "\<exists>a b p'. pick_pair psi p ixs = Inr ((a, b), p') \<and> a < b \<and> b < n \<and> picker_inv n p'"
proof (cases p)
  case (PickerUnlimited m)
  with pick_pair_impl_ok [OF psi, of m ixs] inv avail show ?thesis
    by (fastforce simp: pick_pair_def)
next
  case (PickerLimited remaining)
  with avail have "2 \<le> length remaining" by simp
  with pick_pair_impl_ok [OF psi] obtain i j where
    ij: "pick_pair_impl psi (length remaining) ixs = Inr (i, j)" "i < j" "j < length remaining"
    by blast
  from inv PickerLimited have inv': "picker_inv n (PickerLimited remaining)" by simp
  from pick_pair_limited_ok [OF inv' ij(2,3)] ij(1) PickerLimited show ?thesis
    by (fastforce simp: pick_pair_def)
qed

section \<open>What the pickers promise\<close>

text \<open>
  C1. \<open>AccountPicker::pick_pair\<close> on a picker with at least two accounts left returns two
  positions in strictly increasing order, both below the number of accounts, without
  panicking, and keeps the picker invariant. This is the ordering the caller's
  \<open>split_at_mut\<close> relies on; it holds for the limited picker because the later position
  is consumed first.
\<close>

theorem pick_pair_ordered:
  assumes psi: "slice_idxs_contract psi" and inv: "picker_inv n p" and avail: "2 \<le> picker_avail p"
  shows "\<exists>a b p'. pick_pair psi p ixs = Inr ((a, b), p') \<and> a < b \<and> b < n \<and> picker_inv n p'"
  using assms by (rule pick_pair_ok)

text \<open>The lowest two positions: an instance of \<open>pick_slice_idxs\<close> for concrete runs.\<close>

definition lowest_idxs :: "nat \<Rightarrow> 'ix \<times> 'ix \<Rightarrow> nat list" where
  "lowest_idxs n ixs = [0..<min 2 n]"

lemma lowest_idxs_contract: "slice_idxs_contract lowest_idxs"
  by (auto simp: slice_idxs_contract_def lowest_idxs_def)

theorem pick_pair_ordered_witness:
  "pick_pair lowest_idxs (PickerLimited [(1, 1), (4, 2)]) ((0::nat), (0::nat)) =
     Inr ((1, 4), PickerLimited [(4, 1)]) \<and>
   (\<exists>a b p'. pick_pair lowest_idxs (PickerLimited [(1, 1), (4, 2)]) ((0::nat), (0::nat)) =
       Inr ((a, b), p') \<and> a < b \<and> b < 5 \<and> picker_inv 5 p')"
proof -
  have "picker_inv 5 (PickerLimited [(1, 1), (4, 2)])" by simp
  from pick_pair_ordered [OF lowest_idxs_contract this, of "(0::nat, 0)"] show ?thesis
    by (simp add: pick_pair_def pick_pair_impl_def lowest_idxs_def pick_limited_def
        index_at_def remove_at_def upt_rec)
qed

lemma AccountPairGen_pick_total:
  assumes psi: "slice_idxs_contract psi" and inv: "universe_inv u"
    and avail: "2 \<le> picker_avail (picker u)"
  shows "\<exists>i j p'. AccountPairGen_pick psi g u = Inr ((i, j), u\<lparr>picker := p'\<rparr>) \<and> i \<noteq> j \<and>
           i < length (accounts u) \<and> j < length (accounts u) \<and> universe_inv (u\<lparr>picker := p'\<rparr>)"
proof -
  from pick_pair_ok [OF psi inv [unfolded universe_inv_def] avail, of "pair g"]
  obtain a b p' where pp: "pick_pair psi (picker u) (pair g) = Inr ((a, b), p')"
    "a < b" "b < length (accounts u)" "picker_inv (length (accounts u)) p'"
    by blast
  then have "AccountPairGen_pick psi g u =
      Inr (if rev_pair g then (b, a) else (a, b), u\<lparr>picker := p'\<rparr>)"
    by (simp add: AccountPairGen_pick_def Let_def index_at_def)
  with pp show ?thesis by (cases "rev_pair g") (auto simp: universe_inv_def)
qed

text \<open>
  C2. \<open>AccountPairGen::pick\<close> on a well-formed universe whose picker has two accounts left
  never panics: neither \<open>split_at_mut\<close> nor the two slice accesses nor the subtraction
  \<open>high_idx - low_idx - 1\<close> can fail. It returns two distinct positions of the account
  vector and leaves the accounts alone.
\<close>

theorem AccountPairGen_pick_ok:
  assumes psi: "slice_idxs_contract psi" and inv: "universe_inv u"
    and avail: "2 \<le> picker_avail (picker u)"
  shows "\<exists>i j p'. AccountPairGen_pick psi g u = Inr ((i, j), u\<lparr>picker := p'\<rparr>) \<and> i \<noteq> j \<and>
           i < length (accounts u) \<and> j < length (accounts u) \<and> universe_inv (u\<lparr>picker := p'\<rparr>)"
  using assms by (rule AccountPairGen_pick_total)

text \<open>Account data for concrete runs: an address whose last byte is given, and a balance.\<close>

definition sample_data :: "u8 \<Rightarrow> u64 \<Rightarrow> AccountData" where
  "sample_data b amount =
     \<lparr> ad_account = \<lparr>address = replicate 31 0 @ [b], auth_key = []\<rparr>,
       ad_balance = amount, ad_sequence_number = 0,
       ad_sent_events_count = 0, ad_received_events_count = 0 \<rparr>"

definition sample_universe :: AccountUniverse where
  "sample_universe =
     AccountUniverse_new [sample_data 1 1000, sample_data 2 20, sample_data 3 0] (Limited 2) False"

lemma sample_universe_inv: "universe_inv sample_universe" "picker_avail (picker sample_universe) = 3"
  "length (accounts sample_universe) = 3"
  by (auto simp: universe_inv_def sample_universe_def AccountUniverse_new_def AccountPicker_new_def)

theorem AccountPairGen_pick_ok_witness:
  "\<exists>i j p'. AccountPairGen_pick lowest_idxs \<lparr>pair = (0::nat, 0), rev_pair = True\<rparr> sample_universe =
       Inr ((i, j), sample_universe\<lparr>picker := p'\<rparr>) \<and> i \<noteq> j \<and>
       i < length (accounts sample_universe) \<and> j < length (accounts sample_universe) \<and>
       universe_inv (sample_universe\<lparr>picker := p'\<rparr>)"
proof -
  have "2 \<le> picker_avail (picker sample_universe)" by (simp add: sample_universe_inv)
  from AccountPairGen_pick_ok [OF lowest_idxs_contract sample_universe_inv(1) this]
  show ?thesis .
qed

lemma AccountPairGen_pick_frame:
  assumes "AccountPairGen_pick psi g u = Inr ((i, j), u')"
  shows "accounts u' = accounts u \<and> i \<noteq> j \<and> i < length (accounts u) \<and> j < length (accounts u)"
  using assms
  by (auto simp: AccountPairGen_pick_def Let_def split: if_splits prod.splits)

subsection \<open>The budget of a limited picker\<close>

text \<open>A run of single and paired picks on one picker, collecting the picked accounts in order.\<close>

datatype 'ix pick_op = OpPick 'ix | OpPair "'ix \<times> 'ix"

fun run_picks ::
  "('ix \<Rightarrow> nat \<Rightarrow> nat res) \<Rightarrow> (nat \<Rightarrow> 'ix \<times> 'ix \<Rightarrow> nat list) \<Rightarrow> AccountPicker \<Rightarrow> 'ix pick_op list
    \<Rightarrow> (nat list \<times> AccountPicker) res" where
  "run_picks index psi p [] = Inr ([], p)"
| "run_picks index psi p (OpPick i # ops) =
     rbind (AccountPicker_pick index p i) (\<lambda>(k, p').
     rbind (run_picks index psi p' ops) (\<lambda>(ks, p''). Inr (k # ks, p'')))"
| "run_picks index psi p (OpPair ixs # ops) =
     rbind (pick_pair psi p ixs) (\<lambda>((a, b), p').
     rbind (run_picks index psi p' ops) (\<lambda>(ks, p''). Inr (a # b # ks, p'')))"

definition uses_left :: "(nat \<times> nat) list \<Rightarrow> nat \<Rightarrow> nat" where
  "uses_left remaining a = sum_list (map snd (filter (\<lambda>e. fst e = a) remaining))"

lemma pick_limited_uses:
  assumes "pick_limited remaining i = Inr (a, remaining')"
  shows "uses_left remaining b = uses_left remaining' b + (if b = a then 1 else 0)"
proof -
  from assms obtain t where i: "i < length remaining" and at: "remaining ! i = (a, t)" and t: "t \<noteq> 0"
    by (auto simp: pick_limited_def Let_def split: if_splits prod.splits)
  note s = pick_limited_nth [OF i at t]
  from assms s(2) have "remaining' = take i remaining @ (if t = 1 then [] else [(a, t - 1)]) @
      drop (Suc i) remaining"
    by simp
  then show ?thesis using t by (subst s(1)) (auto simp: uses_left_def)
qed

lemma run_picks_uses:
  "run_picks index psi (PickerLimited remaining) ops = Inr (ks, p') \<Longrightarrow>
     \<exists>remaining'. p' = PickerLimited remaining' \<and>
       uses_left remaining a = count_list ks a + uses_left remaining' a"
proof (induction ops arbitrary: remaining ks)
  case Nil
  then show ?case by auto
next
  case (Cons op ops)
  show ?case
  proof (cases op)
    case (OpPick i)
    with Cons.prems obtain ri k r ks' where
      "pick_limited remaining ri = Inr (k, r)"
      "run_picks index psi (PickerLimited r) ops = Inr (ks', p')" "ks = k # ks'"
      by (auto simp: AccountPicker_pick_def)
    with Cons.IH [of r ks'] show ?thesis
      by (auto simp: pick_limited_uses [where b = a])
  next
    case (OpPair ixs)
    with Cons.prems obtain ri rj k1 k2 r1 r2 ks' where
      "pick_limited remaining rj = Inr (k2, r1)" "pick_limited r1 ri = Inr (k1, r2)"
      "run_picks index psi (PickerLimited r2) ops = Inr (ks', p')" "ks = k1 # k2 # ks'"
      by (auto simp: pick_pair_def split: prod.splits)
    with Cons.IH [of r2 ks'] show ?thesis
      by (auto simp: pick_limited_uses [where b = a])
  qed
qed

text \<open>
  C3. A universe configured with \<open>AccountPickStyle::Limited(limit)\<close> never hands out an
  account more than \<open>limit\<close> times, over any sequence of single and paired picks that
  does not panic, whatever the two library functions return.
\<close>

theorem limited_picker_budget:
  assumes "run_picks index psi (AccountPicker_new (Limited limit) n) ops = Inr (ks, p')"
  shows "count_list ks a \<le> limit"
proof -
  let ?r = "map (\<lambda>idx. (idx, limit)) [0..<n]"
  have "uses_left (map (\<lambda>idx. (idx, limit)) [0..<m]) a = (if a < m then limit else 0)" for m
    by (induction m) (auto simp: uses_left_def)
  then have "uses_left ?r a \<le> limit" by simp
  moreover from assms have "run_picks index psi (PickerLimited ?r) ops = Inr (ks, p')"
    by (simp add: AccountPicker_new_def)
  from run_picks_uses [OF this, of a] have "count_list ks a \<le> uses_left ?r a" by auto
  ultimately show ?thesis by simp
qed

theorem limited_picker_budget_witness:
  "count_list [0, 1, 0::nat] 0 \<le> 2"
proof -
  have "run_picks (\<lambda>i n. Inr (0::nat)) lowest_idxs (AccountPicker_new (Limited 2) 2)
      [OpPair (0::nat, 0), OpPick 0] = Inr ([0, 1, 0], PickerLimited [(1, 1)])"
    by (simp add: AccountPicker_new_def AccountPicker_pick_def pick_pair_def pick_pair_impl_def
        lowest_idxs_def pick_limited_def index_at_def remove_at_def upt_rec)
  from limited_picker_budget [OF this, of 0] show ?thesis .
qed

section \<open>Sizes and balances\<close>

text \<open>
  \<open>UNIVERSE_SIZE\<close>: the environment variable, 20 when it is not set; a value that is not
  a \<open>usize\<close>, or is not Unicode, aborts the process.
\<close>

datatype env_var = VarOk string | VarNotPresent | VarNotUnicode

definition universe_size :: "env_var \<Rightarrow> nat res" where
  "universe_size v =
     (case v of
        VarOk s \<Rightarrow> (case parse_u64 s of Some val \<Rightarrow> Inr val | None \<Rightarrow> Inl ExplicitPanic)
      | VarNotPresent \<Rightarrow> Inr 20
      | VarNotUnicode \<Rightarrow> Inl ExplicitPanic)"

definition default_num_accounts :: "nat \<Rightarrow> u64" where
  "default_num_accounts univ_size = of_nat univ_size"

definition default_num_transactions :: "nat \<Rightarrow> u64 res" where
  "default_num_transactions univ_size = mul_c (of_nat univ_size) 2"

text \<open>
  \<open>success_strategy\<close>: the half-open ranges of account numbers and of initial balances
  from which the strategy draws.
\<close>

definition success_strategy :: "nat \<Rightarrow> u64 \<Rightarrow> ((u64 \<times> u64) \<times> (u64 \<times> u64) \<times> AccountPickStyle) res" where
  "success_strategy univ_size min_accounts =
     rbind (default_num_transactions univ_size) (\<lambda>txns.
     rbind (mul_c 100000 txns) (\<lambda>t.
     rbind (mul_c t 5) (\<lambda>min_balance.
     rbind (mul_c min_balance 10) (\<lambda>max_balance.
     Inr ((min_accounts, default_num_accounts univ_size), (min_balance, max_balance), Unlimited)))))"

text \<open>
  \<open>log_balance_strategy\<close>: the list of half-open ranges of powers of two. The loop of the
  source has no bound of its own, so it runs on fuel; the range list is wrapped in an option
  (\<open>None\<close>: fuel exhausted) around the panics.
\<close>

definition next_power_of_two :: "nat \<Rightarrow> nat res" where
  "next_power_of_two n =
     (let p = 2 ^ floorlog 2 (n - 1) in if p < 2 ^ 64 then Inr p else Inl ArithOverflow)"

fun log_balance_loop :: "nat \<Rightarrow> nat \<Rightarrow> nat \<Rightarrow> nat \<Rightarrow> (nat \<times> nat) list \<Rightarrow> (nat \<times> nat) list res option" where
  "log_balance_loop 0 max_balance lower_bound upper_bound strategies = None"
| "log_balance_loop (Suc fuel) max_balance lower_bound upper_bound strategies =
     (let strategies' = strategies @ [(lower_bound, upper_bound)] in
      if max_balance \<le> upper_bound then Some (Inr strategies')
      else if 2 ^ 64 \<le> upper_bound * 2 then Some (Inl ArithOverflow)
      else log_balance_loop fuel max_balance upper_bound (min (upper_bound * 2) max_balance)
             strategies')"

definition log_balance_strategy :: "gas_costs \<Rightarrow> nat \<Rightarrow> (nat \<times> nat) list res option" where
  "log_balance_strategy gc max_balance =
     (case next_power_of_two (unat (TXN_RESERVED gc)) of
        Inl e \<Rightarrow> Some (Inl e)
      | Inr minimum \<Rightarrow>
          if \<not> minimum \<le> max_balance then Some (Inl AssertFailed)
          else log_balance_loop 65 max_balance 0 minimum [])"

text \<open>Consecutive ranges from \<open>a\<close> to \<open>b\<close>, none of them empty.\<close>

fun tiles :: "nat \<Rightarrow> nat \<Rightarrow> (nat \<times> nat) list \<Rightarrow> bool" where
  "tiles a b [] \<longleftrightarrow> a = b"
| "tiles a b ((l, u) # rs) \<longleftrightarrow> l = a \<and> l < u \<and> tiles u b rs"

lemma tiles_snoc: "tiles a b (rs @ [(l, u)]) \<longleftrightarrow> tiles a l rs \<and> l < u \<and> u = b"
  by (induction rs arbitrary: a) auto

lemma tiles_le: "tiles a b rs \<Longrightarrow> a \<le> b"
  by (induction a b rs rule: tiles.induct) auto

lemma tiles_cover: "tiles a b rs \<Longrightarrow> (\<exists>r \<in> set rs. fst r \<le> x \<and> x < snd r) \<longleftrightarrow> a \<le> x \<and> x < b"
proof (induction a b rs rule: tiles.induct)
  case (2 a b l u rs)
  then have p: "l = a" "l < u" "tiles u b rs" by auto
  with 2 have "(\<exists>r \<in> set rs. fst r \<le> x \<and> x < snd r) \<longleftrightarrow> u \<le> x \<and> x < b" by simp
  with p tiles_le [OF p(3)] show ?case by auto
qed auto

lemma tiles_disjoint: "tiles a b rs \<Longrightarrow> sorted_wrt (\<lambda>r q. snd r \<le> fst q) rs \<and> (\<forall>q \<in> set rs. a \<le> fst q)"
proof (induction a b rs rule: tiles.induct)
  case (2 a b l u rs)
  then show ?case by fastforce
qed auto

lemma log_balance_loop_tiles:
  assumes "tiles 0 l acc" "l < u" "u \<le> m" "m \<le> 2 ^ 63" "m \<le> u * 2 ^ fuel"
  shows "\<exists>rs. log_balance_loop (Suc fuel) m l u acc = Some (Inr rs) \<and> tiles 0 m rs"
  using assms
proof (induction fuel arbitrary: l u acc)
  case 0
  then show ?case by (auto simp: tiles_snoc)
next
  case (Suc fuel)
  show ?case
  proof (cases "m \<le> u")
    case True
    with Suc.prems show ?thesis by (auto simp: tiles_snoc)
  next
    case False
    let ?u = "min (u * 2) m"
    have "tiles 0 u (acc @ [(l, u)])" using Suc.prems by (simp add: tiles_snoc)
    moreover have "u < ?u" "?u \<le> m" using False Suc.prems by auto
    moreover have "m \<le> ?u * 2 ^ fuel" using Suc.prems(5) by (auto simp: min_def)
    ultimately have "\<exists>rs. log_balance_loop (Suc fuel) m u ?u (acc @ [(l, u)]) = Some (Inr rs) \<and>
        tiles 0 m rs"
      using Suc.IH Suc.prems(4) by blast
    moreover have "\<not> 2 ^ 64 \<le> u * 2" using False Suc.prems(4) by simp
    ultimately show ?thesis using False
      by (simp add: log_balance_loop.simps(2) [of "Suc fuel"] Let_def del: log_balance_loop.simps)
  qed
qed

text \<open>
  C4. \<open>log_balance_strategy\<close> returns, for every maximum balance between the rounded-up
  reserved gas and \<open>2^63\<close>, a list of ranges that do not overlap, each ending before the
  next begins, and that together hold exactly the balances below the maximum. The loop
  stops within its fuel and does not panic.
\<close>

theorem log_balance_strategy_partition:
  assumes "next_power_of_two (unat (TXN_RESERVED gc)) = Inr minimum"
    and "minimum \<le> max_balance" and "max_balance \<le> 2 ^ 63"
  shows "\<exists>rs. log_balance_strategy gc max_balance = Some (Inr rs) \<and>
     sorted_wrt (\<lambda>r q. snd r \<le> fst q) rs \<and>
     (\<forall>x. (\<exists>r \<in> set rs. fst r \<le> x \<and> x < snd r) \<longleftrightarrow> x < max_balance)"
proof -
  from assms(1) have m1: "0 < minimum" by (auto simp: next_power_of_two_def Let_def split: if_splits)
  have "max_balance \<le> 2 ^ 64" using assms(3) by simp
  also have "\<dots> \<le> minimum * 2 ^ 64" using m1 by simp
  finally have "\<exists>rs. log_balance_loop (Suc 64) max_balance 0 minimum [] = Some (Inr rs) \<and>
      tiles 0 max_balance rs"
    using log_balance_loop_tiles [of 0 "[]" minimum max_balance 64] assms(2,3) m1 by simp
  then obtain rs where rs: "log_balance_loop 65 max_balance 0 minimum [] = Some (Inr rs)"
    "tiles 0 max_balance rs"
    by auto
  with assms(1,2) tiles_disjoint [OF rs(2)] show ?thesis
    using tiles_cover [OF rs(2)] by (auto simp: log_balance_strategy_def)
qed

definition sample_gas_costs :: gas_costs where
  "sample_gas_costs =
     \<lparr> TXN_RESERVED = 3, CREATE_ACCOUNT_FIRST = 9, CREATE_ACCOUNT_NEXT = 8,
       CREATE_ACCOUNT_TOO_LOW_FIRST = 9, CREATE_ACCOUNT_TOO_LOW_NEXT = 8,
       CREATE_EXISTING_ACCOUNT_FIRST = 9, CREATE_EXISTING_ACCOUNT_NEXT = 8,
       PEER_TO_PEER = 2, PEER_TO_PEER_TOO_LOW = 1,
       PEER_TO_PEER_NEW_RECEIVER_FIRST = 9, PEER_TO_PEER_NEW_RECEIVER_NEXT = 8,
       PEER_TO_PEER_NEW_RECEIVER_TOO_LOW_FIRST = 9,
       PEER_TO_PEER_NEW_RECEIVER_TOO_LOW_NEXT = 8 \<rparr>"

lemma log_balance_loop_numeral:
  "log_balance_loop (numeral k) m l u acc =
     (let acc' = acc @ [(l, u)] in
      if m \<le> u then Some (Inr acc')
      else if 2 ^ 64 \<le> u * 2 then Some (Inl ArithOverflow)
      else log_balance_loop (pred_numeral k) m u (min (u * 2) m) acc')"
  by (subst numeral_eq_Suc) (rule log_balance_loop.simps(2))

theorem log_balance_strategy_partition_witness:
  "log_balance_strategy sample_gas_costs 10 = Some (Inr [(0, 4), (4, 8), (8, 10)]) \<and>
   (\<exists>rs. log_balance_strategy sample_gas_costs 10 = Some (Inr rs) \<and>
      sorted_wrt (\<lambda>r q. snd r \<le> fst q) rs \<and>
      (\<forall>x. (\<exists>r \<in> set rs. fst r \<le> x \<and> x < snd r) \<longleftrightarrow> x < 10))"
proof
  have m: "next_power_of_two (unat (TXN_RESERVED sample_gas_costs)) = Inr 4"
    by (simp add: next_power_of_two_def sample_gas_costs_def compute_floorlog)
  show "log_balance_strategy sample_gas_costs 10 = Some (Inr [(0, 4), (4, 8), (8, 10)])"
    by (simp add: log_balance_strategy_def m log_balance_loop_numeral)
  show "\<exists>rs. log_balance_strategy sample_gas_costs 10 = Some (Inr rs) \<and>
      sorted_wrt (\<lambda>r q. snd r \<le> fst q) rs \<and>
      (\<forall>x. (\<exists>r \<in> set rs. fst r \<le> x \<and> x < snd r) \<longleftrightarrow> x < 10)"
    by (rule log_balance_strategy_partition [OF m]) simp_all
qed

lemmas [universe_defs] =
  AccountPicker_new_def AccountUniverse_new_def AccountPicker_pick_def pick_pair_def
  AccountUniverse_pick_def AccountPairGen_pick_def

end
