(* ===== verification/Peer_To_Peer.thy ===== *)
theory Peer_To_Peer
  imports Account_Universe
begin

text \<open>
  Transactions on the account universe: the builders of
  \<^verbatim>\<open>e2e-tests/src/common_transactions.rs\<close>, the oracle for transfers out of one account
  (\<open>txn_one_account_result\<close>, \<^verbatim>\<open>account_universe.rs\<close>) and the peer-to-peer generator
  (\<^verbatim>\<open>account_universe/peer_to_peer.rs\<close>).

  A \<open>SignedTransaction\<close> is what the builder was told before \<open>sign()\<close>; a field the
  builder was not told is \<open>None\<close>. A status the code never inspects is \<open>OtherStatus\<close>.
  The trait \<open>AUTransactionGen\<close> is the locale of the same name: its laws are what the
  drivers \<open>run_and_assert_*\<close> rely on, its lemmas are about a whole run of generators, and
  the peer-to-peer generator interprets it.
\<close>

section \<open>Transactions\<close>

datatype payload =
    EmptyScript
  | aptos_account_create_account AccountAddress
  | aptos_coin_transfer AccountAddress u64
  | xtl_airdrop_initialize u64
  | xtl_airdrop_transfer_n "AccountAddress list"
  | xtl_ballot_initialize "u8 list list"
  | xtl_ballot_vote AccountAddress u64
  | xtl_million_pixel_initialize
  | xtl_million_pixel_occupy AccountAddress u16 u16
  | xtl_kitty_breeding_initialize
  | xtl_kitty_breeding_mint AccountAddress u64 bool
  | xtl_kitty_breeding_breed AccountAddress u64 u64 bool
  | xtl_empty_empty

record SignedTransaction =
  txn_sender :: Account
  txn_payload :: payload
  txn_sequence_number :: u64
  txn_max_gas_amount :: "u64 option"
  txn_gas_unit_price :: "u64 option"

definition signed :: "Account \<Rightarrow> payload \<Rightarrow> u64 \<Rightarrow> u64 option \<Rightarrow> u64 option \<Rightarrow> SignedTransaction" where
  "signed sender p seq max_gas price =
     \<lparr> txn_sender = sender, txn_payload = p, txn_sequence_number = seq,
       txn_max_gas_amount = max_gas, txn_gas_unit_price = price \<rparr>"

definition empty_txn :: "Account \<Rightarrow> u64 \<Rightarrow> u64 \<Rightarrow> u64 \<Rightarrow> SignedTransaction" where
  "empty_txn sender seq_num max_gas_amount gas_unit_price =
     signed sender EmptyScript seq_num (Some max_gas_amount) (Some gas_unit_price)"

definition create_account_txn :: "Account \<Rightarrow> Account \<Rightarrow> u64 \<Rightarrow> SignedTransaction" where
  "create_account_txn sender new_account seq_num =
     signed sender (aptos_account_create_account (address new_account)) seq_num None None"

definition peer_to_peer_txn :: "Account \<Rightarrow> Account \<Rightarrow> u64 \<Rightarrow> u64 \<Rightarrow> u64 \<Rightarrow> SignedTransaction" where
  "peer_to_peer_txn sender receiver seq_num transfer_amount gas_unit_price =
     signed sender (aptos_coin_transfer (address receiver) transfer_amount) seq_num None
       (Some gas_unit_price)"

definition airdrop_initialize_txn :: "Account \<Rightarrow> u64 \<Rightarrow> u64 \<Rightarrow> u64 \<Rightarrow> SignedTransaction" where
  "airdrop_initialize_txn sender amount seq_num gas_unit_price =
     signed sender (xtl_airdrop_initialize amount) seq_num None (Some gas_unit_price)"

definition airdrop_transfer_txn ::
  "Account \<Rightarrow> AccountAddress list \<Rightarrow> u64 \<Rightarrow> u64 \<Rightarrow> SignedTransaction" where
  "airdrop_transfer_txn sender receiver seq_num gas_unit_price =
     signed sender (xtl_airdrop_transfer_n receiver) seq_num None (Some gas_unit_price)"

definition ballot_initialize_txn :: "Account \<Rightarrow> u8 list list \<Rightarrow> u64 \<Rightarrow> u64 \<Rightarrow> SignedTransaction" where
  "ballot_initialize_txn sender names seq gas_unit_price =
     signed sender (xtl_ballot_initialize names) seq None (Some gas_unit_price)"

definition ballot_vote_txn ::
  "Account \<Rightarrow> AccountAddress \<Rightarrow> u64 \<Rightarrow> u64 \<Rightarrow> u64 \<Rightarrow> SignedTransaction" where
  "ballot_vote_txn sender forum proposal_index seq gas_unit_price =
     signed sender (xtl_ballot_vote forum proposal_index) seq None (Some gas_unit_price)"

definition million_pixel_initialize_txn :: "Account \<Rightarrow> u64 \<Rightarrow> u64 \<Rightarrow> SignedTransaction" where
  "million_pixel_initialize_txn sender seq gas_unit_price =
     signed sender xtl_million_pixel_initialize seq None (Some gas_unit_price)"

definition million_pixel_occupy_txn ::
  "Account \<Rightarrow> AccountAddress \<Rightarrow> u16 \<Rightarrow> u16 \<Rightarrow> u64 \<Rightarrow> u64 \<Rightarrow> SignedTransaction" where
  "million_pixel_occupy_txn sender globalstore x y seq gas_unit_price =
     signed sender (xtl_million_pixel_occupy globalstore x y) seq None (Some gas_unit_price)"

definition kitty_initialize_txn :: "Account \<Rightarrow> u64 \<Rightarrow> u64 \<Rightarrow> SignedTransaction" where
  "kitty_initialize_txn sender seq gas_unit_price =
     signed sender xtl_kitty_breeding_initialize seq None (Some gas_unit_price)"

definition kitty_mint_txn ::
  "Account \<Rightarrow> AccountAddress \<Rightarrow> u64 \<Rightarrow> bool \<Rightarrow> u64 \<Rightarrow> u64 \<Rightarrow> SignedTransaction" where
  "kitty_mint_txn sender globalstore genes gender seq gas_unit_price =
     signed sender (xtl_kitty_breeding_mint globalstore genes gender) seq None
       (Some gas_unit_price)"

definition kitty_breed_txn ::
  "Account \<Rightarrow> AccountAddress \<Rightarrow> u64 \<Rightarrow> u64 \<Rightarrow> bool \<Rightarrow> u64 \<Rightarrow> u64 \<Rightarrow> SignedTransaction" where
  "kitty_breed_txn sender globalstore m s gender seq gas_unit_price =
     signed sender (xtl_kitty_breeding_breed globalstore m s gender) seq None
       (Some gas_unit_price)"

definition empty_empty_txn :: "Account \<Rightarrow> u64 \<Rightarrow> u64 \<Rightarrow> SignedTransaction" where
  "empty_empty_txn sender seq gas_unit_price =
     signed sender xtl_empty_empty seq None (Some gas_unit_price)"

section \<open>Statuses\<close>

datatype AbortLocation =
    core_account_module_abort
  | CoreModule string  \<comment> \<open>a module at \<open>CORE_CODE_ADDRESS\<close>\<close>

datatype ExecutionStatus =
    Success
  | MoveAbort AbortLocation nat
  | OtherStatus nat

datatype StatusCode =
    INSUFFICIENT_BALANCE_FOR_TRANSACTION_FEE
  | DELAYED_MATERIALIZATION_CODE_INVARIANT_ERROR
  | UNKNOWN_INVARIANT_VIOLATION_ERROR
  | OtherCode nat

datatype TransactionStatus = Keep ExecutionStatus | Discard StatusCode | Retry

fun kept :: "TransactionStatus \<Rightarrow> bool" where
  "kept (Keep _) = True"
| "kept _ = False"

section \<open>Transfers out of one account\<close>

definition txn_one_account_result ::
  "gas_costs \<Rightarrow> AccountCurrent \<Rightarrow> u64 \<Rightarrow> u64 \<Rightarrow> u64 \<Rightarrow> u64
    \<Rightarrow> (AccountCurrent \<times> TransactionStatus \<times> bool) res" where
  "txn_one_account_result gc sender amount gas_price gas_used low_gas_used =
     rbind (mul_c (TXN_RESERVED gc) gas_price) (\<lambda>reserved.
     let enough_max_gas = reserved \<le> balance sender;
         enough_to_transfer = amount \<le> balance sender in
     rbind (mul_c gas_used gas_price) (\<lambda>gas.
     rbind (add_c amount gas) (\<lambda>to_deduct.
     let enough_to_succeed = to_deduct \<le> balance sender in
     case (enough_max_gas, enough_to_transfer, enough_to_succeed) of
       (True, True, True) \<Rightarrow>
         rbind (add_c (sequence_number sender) 1) (\<lambda>seq.
         rbind (add_c (sent_events_count sender) 1) (\<lambda>sent.
         rbind (sub_c (balance sender) to_deduct) (\<lambda>b.
         Inr (sender\<lparr>sequence_number := seq, sent_events_count := sent, balance := b\<rparr>,
              Keep Success, True))))
     | (True, True, False) \<Rightarrow>
         rbind (add_c (sequence_number sender) 1) (\<lambda>seq.
         rbind (sub_c (balance sender) gas) (\<lambda>b.
         Inr (sender\<lparr>sequence_number := seq, balance := b\<rparr>,
              Keep (MoveAbort core_account_module_abort 6), False)))
     | (True, False, _) \<Rightarrow>
         rbind (add_c (sequence_number sender) 1) (\<lambda>seq.
         rbind (mul_c low_gas_used gas_price) (\<lambda>low_gas.
         rbind (sub_c (balance sender) low_gas) (\<lambda>b.
         Inr (sender\<lparr>sequence_number := seq, balance := b\<rparr>,
              Keep (MoveAbort core_account_module_abort 10), False))))
     | (False, _, _) \<Rightarrow>
         Inr (sender, Discard INSUFFICIENT_BALANCE_FOR_TRANSACTION_FEE, False))))"

section \<open>The peer-to-peer generator\<close>

record 'ix P2PTransferGen =
  sender_receiver :: "'ix AccountPairGen"
  amount :: u64

text \<open>
  The sender and the receiver are the accounts at the two picked positions; writing them
  back is two updates of the account vector. \<open>txn.gas_unit_price()\<close> reads back the price
  the builder was given.
\<close>

definition P2PTransferGen_apply ::
  "(nat \<Rightarrow> 'ix \<times> 'ix \<Rightarrow> nat list) \<Rightarrow> gas_costs \<Rightarrow> 'ix P2PTransferGen \<Rightarrow> AccountUniverse
    \<Rightarrow> (AccountUniverse \<times> SignedTransaction \<times> TransactionStatus \<times> u64) res" where
  "P2PTransferGen_apply psi gc self universe =
     rbind (AccountPairGen_pick psi (sender_receiver self) universe) (\<lambda>((si, ri), u).
     let sender = accounts u ! si; receiver = accounts u ! ri;
         txn = peer_to_peer_txn (account sender) (account receiver) (sequence_number sender)
                 (amount self) 100;
         enough_to_transfer = amount self \<le> balance sender in
     rbind (unwrap (txn_gas_unit_price txn)) (\<lambda>price.
     rbind (mul_c (peer_to_peer_gas_cost gc sender) price) (\<lambda>gas_amount.
     rbind (add_c (amount self) gas_amount) (\<lambda>to_deduct.
     let enough_max_gas = gas_amount \<le> balance sender;
         enough_to_succeed = to_deduct \<le> balance sender in
     case (enough_max_gas, enough_to_transfer, enough_to_succeed) of
       (True, True, True) \<Rightarrow>
         rbind (add_c (sequence_number sender) 1) (\<lambda>seq.
         rbind (add_c (sent_events_count sender) 1) (\<lambda>sent.
         rbind (sub_c (balance sender) to_deduct) (\<lambda>b.
         rbind (add_c (balance receiver) (amount self)) (\<lambda>rb.
         rbind (add_c (received_events_count receiver) 1) (\<lambda>received.
         Inr (u\<lparr>accounts := (accounts u)
                [si := sender\<lparr>sequence_number := seq, sent_events_count := sent, balance := b\<rparr>,
                 ri := receiver\<lparr>balance := rb, received_events_count := received\<rparr>]\<rparr>,
              txn, Keep Success, peer_to_peer_gas_cost gc sender))))))
     | (True, True, False) \<Rightarrow>
         rbind (add_c (sequence_number sender) 1) (\<lambda>seq.
         let gas_used = peer_to_peer_gas_cost gc sender in
         rbind (mul_c gas_used price) (\<lambda>gas.
         rbind (sub_c (balance sender) gas) (\<lambda>b.
         Inr (u\<lparr>accounts := (accounts u)[si := sender\<lparr>sequence_number := seq, balance := b\<rparr>]\<rparr>,
              txn, Keep (MoveAbort (CoreModule ''coin'') 65542), gas_used))))
     | (True, False, _) \<Rightarrow>
         rbind (add_c (sequence_number sender) 1) (\<lambda>seq.
         let gas_used = peer_to_peer_too_low_gas_cost gc sender in
         rbind (mul_c gas_used price) (\<lambda>gas.
         rbind (sub_c (balance sender) gas) (\<lambda>b.
         Inr (u\<lparr>accounts := (accounts u)[si := sender\<lparr>sequence_number := seq, balance := b\<rparr>]\<rparr>,
              txn, Keep (MoveAbort (CoreModule ''coin'') 65542), gas_used))))
     | (False, _, _) \<Rightarrow>
         Inr (u, txn, Discard INSUFFICIENT_BALANCE_FOR_TRANSACTION_FEE, 0)))))"

text \<open>
  The driver loop of \<open>run_and_assert_gas_cost_stability\<close> and \<open>run_and_assert_universe\<close>:
  each generator in turn is applied to the universe the previous one left.
\<close>

fun apply_gens :: "('g \<Rightarrow> 'u \<Rightarrow> ('u \<times> 'o) res) \<Rightarrow> 'g list \<Rightarrow> 'u \<Rightarrow> ('u \<times> 'o list) res" where
  "apply_gens apply [] u = Inr (u, [])"
| "apply_gens apply (g # gs) u =
     rbind (apply g u) (\<lambda>(u', out).
     rbind (apply_gens apply gs u') (\<lambda>(u'', outs). Inr (u'', out # outs)))"

definition total_balance :: "AccountUniverse \<Rightarrow> nat" where
  "total_balance u = sum_list (map (unat \<circ> balance) (accounts u))"

lemma total_balance_update:
  assumes "i < length xs"
  shows "sum_list (map f (xs[i := x])) + f (xs ! i) = sum_list (map f xs) + (f x :: nat)"
  using sum_list_update_nat [of i "map f xs" "f x"] assms by (simp add: map_update)

text \<open>
  What one application promises: the sender at \<open>i\<close> pays the gas it is charged and, on a
  success, the amount; the receiver at \<open>j\<close> gains the amount on a success; the sender's
  sequence number moves iff the transaction is kept; on a success, and only then, the sender counts
  a sent and the receiver a received event; nothing else changes. The status is
  decided by comparing the sender's balance with the full gas price and with the amount
  plus that price.
\<close>

definition p2p_status :: "gas_costs \<Rightarrow> u64 \<Rightarrow> AccountCurrent \<Rightarrow> TransactionStatus \<times> u64" where
  "p2p_status gc amt s =
     (if unat (balance s) < unat (PEER_TO_PEER gc) * 100
      then (Discard INSUFFICIENT_BALANCE_FOR_TRANSACTION_FEE, 0)
      else if unat amt + unat (PEER_TO_PEER gc) * 100 \<le> unat (balance s)
      then (Keep Success, PEER_TO_PEER gc)
      else (Keep (MoveAbort (CoreModule ''coin'') 65542),
            if unat amt \<le> unat (balance s) then PEER_TO_PEER gc else PEER_TO_PEER_TOO_LOW gc))"

definition p2p_effect ::
  "u64 \<Rightarrow> TransactionStatus \<Rightarrow> u64 \<Rightarrow> nat \<Rightarrow> nat \<Rightarrow> AccountCurrent list \<Rightarrow> AccountCurrent list \<Rightarrow> bool" where
  "p2p_effect amt st gas i j as as' \<longleftrightarrow>
     length as' = length as \<and>
     (\<forall>k < length as. initial_data (as' ! k) = initial_data (as ! k)) \<and>
     (\<forall>k < length as. k \<noteq> i \<longrightarrow> k \<noteq> j \<longrightarrow> as' ! k = as ! k) \<and>
     unat (balance (as' ! i)) + (if st = Keep Success then unat amt else 0) + unat gas * 100 =
       unat (balance (as ! i)) \<and>
     unat (balance (as' ! j)) =
       unat (balance (as ! j)) + (if st = Keep Success then unat amt else 0) \<and>
     unat (sequence_number (as' ! i)) = unat (sequence_number (as ! i)) + (if kept st then 1 else 0) \<and>
     sequence_number (as' ! j) = sequence_number (as ! j) \<and>
     unat (sent_events_count (as' ! i)) = unat (sent_events_count (as ! i)) + (if st = Keep Success then 1 else 0) \<and>
     sent_events_count (as' ! j) = sent_events_count (as ! j) \<and>
     unat (received_events_count (as' ! j)) =
       unat (received_events_count (as ! j)) + (if st = Keep Success then 1 else 0) \<and>
     received_events_count (as' ! i) = received_events_count (as ! i) \<and>
     event_counter_created (as' ! i) = event_counter_created (as ! i) \<and>
     event_counter_created (as' ! j) = event_counter_created (as ! j)"

lemma P2PTransferGen_apply_body:
  assumes "P2PTransferGen_apply psi gc g u = Inr (u', txn, st, gas)"
  obtains i j u1 ga td where
    "AccountPairGen_pick psi (sender_receiver g) u = Inr ((i, j), u1)"
    "accounts u1 = accounts u" "i \<noteq> j" "i < length (accounts u)" "j < length (accounts u)"
    "unat ga = unat (PEER_TO_PEER gc) * 100" "unat td = unat (amount g) + unat ga"
    "mul_c (PEER_TO_PEER gc) 100 = Inr ga" "add_c (amount g) ga = Inr td"
    "txn = peer_to_peer_txn (account (accounts u ! i)) (account (accounts u ! j))
       (sequence_number (accounts u ! i)) (amount g) 100"
proof -
  from assms obtain i j u1 where
    pick: "AccountPairGen_pick psi (sender_receiver g) u = Inr ((i, j), u1)"
    by (auto simp: P2PTransferGen_apply_def split: prod.splits)
  note frame = AccountPairGen_pick_frame [OF pick]
  from assms pick frame obtain ga td where
    ga: "mul_c (PEER_TO_PEER gc) 100 = Inr ga" and td: "add_c (amount g) ga = Inr td"
    by (auto simp: P2PTransferGen_apply_def peer_to_peer_txn_def signed_def
        peer_to_peer_gas_cost_def Let_def)
  have "txn = peer_to_peer_txn (account (accounts u ! i)) (account (accounts u ! j))
       (sequence_number (accounts u ! i)) (amount g) 100"
    using assms pick frame ga td
    by (auto simp: P2PTransferGen_apply_def peer_to_peer_gas_cost_def Let_def split: bool.splits)
  with pick frame ga td show thesis
    by (intro that [of i j u1 ga td]) (auto simp: checked_simps)
qed

lemma P2PTransferGen_apply_effect:
  assumes "P2PTransferGen_apply psi gc g u = Inr (u', txn, st, gas)"
  shows "\<exists>i j. i \<noteq> j \<and> i < length (accounts u) \<and> j < length (accounts u) \<and>
     txn = peer_to_peer_txn (account (accounts u ! i)) (account (accounts u ! j))
             (sequence_number (accounts u ! i)) (amount g) 100 \<and>
     (st, gas) = p2p_status gc (amount g) (accounts u ! i) \<and>
     p2p_effect (amount g) st gas i j (accounts u) (accounts u')"
proof -
  from assms obtain i j u1 ga td where
    pick: "AccountPairGen_pick psi (sender_receiver g) u = Inr ((i, j), u1)"
      "accounts u1 = accounts u" "i \<noteq> j" "i < length (accounts u)" "j < length (accounts u)"
    and n: "unat ga = unat (PEER_TO_PEER gc) * 100" "unat td = unat (amount g) + unat ga"
    and c: "mul_c (PEER_TO_PEER gc) 100 = Inr ga" "add_c (amount g) ga = Inr td"
    and txn: "txn = peer_to_peer_txn (account (accounts u ! i)) (account (accounts u ! j))
       (sequence_number (accounts u ! i)) (amount g) 100"
    by (rule P2PTransferGen_apply_body)
  let ?s = "accounts u ! i"
  note body = assms [unfolded P2PTransferGen_apply_def pick(1) rbind_Inr, simplified]
  note defs = peer_to_peer_txn_def signed_def peer_to_peer_gas_cost_def
    peer_to_peer_too_low_gas_cost_def p2p_status_def p2p_effect_def account_def
  have "(st, gas) = p2p_status gc (amount g) ?s \<and>
     p2p_effect (amount g) st gas i j (accounts u) (accounts u')"
  proof (cases "ga \<le> balance ?s"; cases "td \<le> balance ?s")
    assume le: "ga \<le> balance ?s" "td \<le> balance ?s"
    then have "amount g \<le> balance ?s" using n by (simp add: word_le_nat_alt)
    with le body pick n c show ?thesis
      by (auto simp: defs Let_def checked_simps word_le_nat_alt nth_list_update)
  next
    assume le: "ga \<le> balance ?s" "\<not> td \<le> balance ?s"
    with body pick n c show ?thesis
      by (auto simp: defs Let_def checked_simps word_le_nat_alt nth_list_update split: bool.splits)
  next
    assume le: "\<not> ga \<le> balance ?s" "td \<le> balance ?s"
    with n show ?thesis by (simp add: word_le_nat_alt)
  next
    assume le: "\<not> ga \<le> balance ?s" "\<not> td \<le> balance ?s"
    with body pick n c show ?thesis
      by (auto simp: defs Let_def word_le_nat_alt)
  qed
  with pick txn show ?thesis by blast
qed

section \<open>The generator trait\<close>

text \<open>
  \<open>AUTransactionGen\<close>: a generator keeps the accounts of the universe, charges exactly
  the gas it reports at the unit price, and signs with the current sequence number of one
  account, which it advances iff the transaction is kept.
\<close>

locale AUTransactionGen =
  fixes app :: "'g \<Rightarrow> AccountUniverse
      \<Rightarrow> (AccountUniverse \<times> SignedTransaction \<times> TransactionStatus \<times> u64) res"
    and price :: nat
  assumes apply_accounts:
      "app g u = Inr (u', txn, st, gas) \<Longrightarrow> map account (accounts u') = map account (accounts u)"
    and apply_pays:
      "app g u = Inr (u', txn, st, gas) \<Longrightarrow> total_balance u = total_balance u' + unat gas * price"
    and apply_numbers:
      "app g u = Inr (u', txn, st, gas) \<Longrightarrow>
         \<exists>i < length (accounts u). txn_sender txn = account (accounts u ! i) \<and>
           txn_sequence_number txn = sequence_number (accounts u ! i) \<and>
           (\<forall>k < length (accounts u). unat (sequence_number (accounts u' ! k)) =
              unat (sequence_number (accounts u ! k)) + (if k = i \<and> kept st then 1 else 0))"
begin

lemma run_accounts:
  "apply_gens app gs u = Inr (u', outs) \<Longrightarrow> map account (accounts u') = map account (accounts u)"
  by (induction gs arbitrary: u outs) (auto dest!: apply_accounts)

lemma run_pays:
  "apply_gens app gs u = Inr (u', outs) \<Longrightarrow>
     total_balance u = total_balance u' + sum_list (map (\<lambda>(txn, st, gas). unat gas) outs) * price"
proof (induction gs arbitrary: u outs)
  case (Cons g gs)
  then obtain u1 txn st gas outs' where
    "app g u = Inr (u1, txn, st, gas)" "apply_gens app gs u1 = Inr (u', outs')"
    "outs = (txn, st, gas) # outs'"
    by (auto split: prod.splits)
  with Cons.IH [of u1 outs'] apply_pays [of g u u1 txn st gas] show ?case
    by (simp add: algebra_simps)
qed simp

lemma run_numbers:
  assumes "apply_gens app gs u = Inr (u', outs)" and "distinct (map account (accounts u))"
    and "k < length (accounts u)"
  shows "map (\<lambda>(txn, st, gas). unat (txn_sequence_number txn))
           (filter (\<lambda>(txn, st, gas). txn_sender txn = account (accounts u ! k) \<and> kept st) outs) =
         [unat (sequence_number (accounts u ! k))..<unat (sequence_number (accounts u' ! k))] \<and>
         unat (sequence_number (accounts u ! k)) \<le> unat (sequence_number (accounts u' ! k))"
  using assms
proof (induction gs arbitrary: u outs)
  case (Cons g gs)
  then obtain u1 txn st gas outs' where
    s1: "app g u = Inr (u1, txn, st, gas)" and rest: "apply_gens app gs u1 = Inr (u', outs')"
    and outs: "outs = (txn, st, gas) # outs'"
    by (auto split: prod.splits)
  have accs: "map account (accounts u1) = map account (accounts u)" by (rule apply_accounts [OF s1])
  then have len: "length (accounts u1) = length (accounts u)" by (metis length_map)
  have acck: "account (accounts u1 ! k) = account (accounts u ! k)"
    using accs len Cons.prems(3) by (metis nth_map)
  from apply_numbers [OF s1] obtain i where i: "i < length (accounts u)"
    "txn_sender txn = account (accounts u ! i)"
    "txn_sequence_number txn = sequence_number (accounts u ! i)"
    and seqs: "\<forall>k < length (accounts u). unat (sequence_number (accounts u1 ! k)) =
        unat (sequence_number (accounts u ! k)) + (if k = i \<and> kept st then 1 else 0)"
    by blast
  have same: "txn_sender txn = account (accounts u ! k) \<longleftrightarrow> i = k"
    using i Cons.prems(2,3) nth_eq_iff_index_eq [of "map account (accounts u)" i k] by simp
  note IH = Cons.IH [OF rest, unfolded accs len acck, OF Cons.prems(2,3)]
  from seqs Cons.prems(3) have sk: "unat (sequence_number (accounts u1 ! k)) =
      unat (sequence_number (accounts u ! k)) + (if k = i \<and> kept st then 1 else 0)" by blast
  show ?case
  proof (cases "k = i \<and> kept st")
    case True
    with IH sk i same outs show ?thesis by (simp add: upt_conv_Cons)
  next
    case False
    with IH sk same outs show ?thesis by auto
  qed
qed simp

end

section \<open>The peer-to-peer generator implements the trait\<close>

lemma sum_list_two_changed:
  fixes f :: "'a \<Rightarrow> nat"
  assumes len: "length ys = length xs" and ij: "i \<noteq> j" "i < length xs" "j < length xs"
    and same: "\<forall>k < length xs. k \<noteq> i \<longrightarrow> k \<noteq> j \<longrightarrow> ys ! k = xs ! k"
  shows "sum_list (map f ys) + f (xs ! i) + f (xs ! j) = sum_list (map f xs) + f (ys ! i) + f (ys ! j)"
proof -
  have ys: "ys = xs[i := ys ! i, j := ys ! j]"
    using len same ij by (auto intro!: nth_equalityI simp: nth_list_update)
  have "sum_list (map f (xs[i := ys ! i])) + f (xs ! i) = sum_list (map f xs) + f (ys ! i)"
    by (rule total_balance_update) (rule ij)
  moreover have "sum_list (map f (xs[i := ys ! i, j := ys ! j])) + f (xs ! j) =
      sum_list (map f (xs[i := ys ! i])) + f (ys ! j)"
    using total_balance_update [of j "xs[i := ys ! i]" f "ys ! j"] ij by simp
  moreover have "sum_list (map f ys) = sum_list (map f (xs[i := ys ! i, j := ys ! j]))"
    by (subst ys) (rule refl)
  ultimately show ?thesis by linarith
qed

lemma p2p_effect_pays:
  assumes "p2p_effect amt st gas i j as as'" "i \<noteq> j" "i < length as" "j < length as"
  shows "sum_list (map (unat \<circ> balance) as) =
     sum_list (map (unat \<circ> balance) as') + unat gas * 100"
  using sum_list_two_changed [of as' as i j "unat \<circ> balance"] assms
  by (auto simp: p2p_effect_def split: if_splits)

lemma p2p_effect_numbers:
  assumes "p2p_effect amt st gas i j as as'" "i \<noteq> j" "k < length as"
  shows "unat (sequence_number (as' ! k)) =
     unat (sequence_number (as ! k)) + (if k = i \<and> kept st then 1 else 0)"
  using assms by (cases "k = i"; cases "k = j") (auto simp: p2p_effect_def)

interpretation p2p: AUTransactionGen "P2PTransferGen_apply psi gc" 100 for psi gc
proof
  fix g u u' txn st gas
  assume "P2PTransferGen_apply psi gc g u = Inr (u', txn, st, gas)"
  from P2PTransferGen_apply_effect [OF this] obtain i j where
    ij: "i \<noteq> j" "i < length (accounts u)" "j < length (accounts u)"
    and txn: "txn = peer_to_peer_txn (account (accounts u ! i)) (account (accounts u ! j))
       (sequence_number (accounts u ! i)) (amount g) 100"
    and eff: "p2p_effect (amount g) st gas i j (accounts u) (accounts u')"
    by blast
  show "map account (accounts u') = map account (accounts u)"
    using eff by (auto simp: p2p_effect_def account_def intro!: nth_equalityI)
  show "total_balance u = total_balance u' + unat gas * 100"
    using p2p_effect_pays [OF eff ij] by (simp add: total_balance_def)
  show "\<exists>i < length (accounts u). txn_sender txn = account (accounts u ! i) \<and>
           txn_sequence_number txn = sequence_number (accounts u ! i) \<and>
           (\<forall>k < length (accounts u). unat (sequence_number (accounts u' ! k)) =
              unat (sequence_number (accounts u ! k)) + (if k = i \<and> kept st then 1 else 0))"
    using ij txn p2p_effect_numbers [OF eff ij(1)]
    by (intro exI [of _ i]) (simp add: peer_to_peer_txn_def signed_def)
qed

section \<open>Runs that cannot fail\<close>

text \<open>An account is funded for m more transfers when it can pay 500,000 for each and its
  counters have room; the universe is when every account is and the supply fits u64.\<close>

definition funded :: "nat \<Rightarrow> AccountCurrent \<Rightarrow> bool" where
  "funded m a \<longleftrightarrow> m * 500000 \<le> unat (balance a) \<and>
     unat (sequence_number a) + m < 2 ^ 64 \<and> unat (sent_events_count a) + m < 2 ^ 64 \<and>
     unat (received_events_count a) + m < 2 ^ 64"

definition flush :: "nat \<Rightarrow> AccountUniverse \<Rightarrow> bool" where
  "flush m u \<longleftrightarrow>
     2 \<le> length (accounts u) \<and> picker u = PickerUnlimited (length (accounts u)) \<and>
     (\<forall>a \<in> set (accounts u). funded m a) \<and> total_balance u < 2 ^ 64"

lemma two_members_le_sum:
  fixes f :: "'a \<Rightarrow> nat"
  assumes "i \<noteq> j" "i < length xs" "j < length xs"
  shows "f (xs ! i) + f (xs ! j) \<le> sum_list (map f xs)"
proof -
  have "sum_list (map f xs) = (\<Sum>k<length xs. f (xs ! k))"
    by (simp add: sum_list_sum_nth atLeast0LessThan)
  moreover have "sum (\<lambda>k. f (xs ! k)) {i, j} \<le> (\<Sum>k<length xs. f (xs ! k))"
    by (rule sum_mono2) (use assms in auto)
  ultimately show ?thesis using assms(1) by simp
qed

lemma P2PTransferGen_apply_flush:
  assumes psi: "slice_idxs_contract psi" and fl: "flush (Suc m) u"
    and amt: "unat (amount g) \<le> 100000" and gas: "unat (PEER_TO_PEER gc) \<le> 4000"
  shows "\<exists>u' txn. P2PTransferGen_apply psi gc g u = Inr (u', txn, Keep Success, PEER_TO_PEER gc) \<and>
           flush m u'"
proof -
  have inv: "universe_inv u" "2 \<le> picker_avail (picker u)"
    using fl by (auto simp: flush_def universe_inv_def)
  from AccountPairGen_pick_total [OF psi inv, of "sender_receiver g"] obtain i j p' where
    pick: "AccountPairGen_pick psi (sender_receiver g) u = Inr ((i, j), u\<lparr>picker := p'\<rparr>)"
    and ij: "i \<noteq> j" "i < length (accounts u)" "j < length (accounts u)"
    by blast
  have "picker v = PickerUnlimited (length (accounts u))"
    if "AccountPairGen_pick psi (sender_receiver g) u = Inr (ij, v)" for ij v
    using that fl by (auto simp: AccountPairGen_pick_def flush_def pick_pair_def Let_def
        split: prod.splits if_splits)
  from this [OF pick] have p': "p' = PickerUnlimited (length (accounts u))" by simp
  let ?s = "accounts u ! i" and ?r = "accounts u ! j"
  have "?s \<in> set (accounts u)" "?r \<in> set (accounts u)" using ij by auto
  then have f: "funded (Suc m) ?s" "funded (Suc m) ?r" using fl by (auto simp: flush_def)
  then have s: "Suc m * 500000 \<le> unat (balance ?s)" "unat (sequence_number ?s) + Suc m < 2 ^ 64"
      "unat (sent_events_count ?s) + Suc m < 2 ^ 64"
    and r: "unat (received_events_count ?r) + Suc m < 2 ^ 64" "Suc m * 500000 \<le> unat (balance ?r)"
    by (auto simp: funded_def)
  have tot: "unat (balance ?s) + unat (balance ?r) < 2 ^ 64"
    using two_members_le_sum [OF ij, of "unat \<circ> balance"] fl
    by (simp add: flush_def total_balance_def)
  from mul_c_ok [of "PEER_TO_PEER gc" 100] gas obtain ga where
    ga: "mul_c (PEER_TO_PEER gc) 100 = Inr ga" "unat ga = unat (PEER_TO_PEER gc) * 100" by auto
  from add_c_ok [of "amount g" ga] gas amt ga obtain td where
    td: "add_c (amount g) ga = Inr td" "unat td = unat (amount g) + unat ga" by auto
  from add_c_ok [of "sequence_number ?s" 1] s obtain seq where
    seq: "add_c (sequence_number ?s) 1 = Inr seq" "unat seq = unat (sequence_number ?s) + 1" by auto
  from add_c_ok [of "sent_events_count ?s" 1] s obtain sent where
    sent: "add_c (sent_events_count ?s) 1 = Inr sent" "unat sent = unat (sent_events_count ?s) + 1"
    by auto
  from sub_c_ok [of td "balance ?s"] s td ga gas amt obtain b where
    b: "sub_c (balance ?s) td = Inr b" "unat b + unat td = unat (balance ?s)" by auto
  from add_c_ok [of "balance ?r" "amount g"] tot s amt obtain rb where
    rb: "add_c (balance ?r) (amount g) = Inr rb" "unat rb = unat (balance ?r) + unat (amount g)"
    by auto
  from add_c_ok [of "received_events_count ?r" 1] r obtain rc where
    rc: "add_c (received_events_count ?r) 1 = Inr rc"
      "unat rc = unat (received_events_count ?r) + 1" by auto
  have le: "ga \<le> balance ?s" "amount g \<le> balance ?s" "td \<le> balance ?s"
    using s td ga gas amt by (auto simp: word_le_nat_alt)
  define as' where "as' = (accounts u)
      [i := ?s\<lparr>sequence_number := seq, sent_events_count := sent, balance := b\<rparr>,
       j := ?r\<lparr>balance := rb, received_events_count := rc\<rparr>]"
  let ?u' = "u\<lparr>picker := p', accounts := as'\<rparr>"
  have run: "\<exists>txn. P2PTransferGen_apply psi gc g u = Inr (?u', txn, Keep Success, PEER_TO_PEER gc)"
    using pick ga td seq sent b rb rc le
    by (simp add: P2PTransferGen_apply_def Let_def peer_to_peer_txn_def signed_def
        peer_to_peer_gas_cost_def as'_def)
  then obtain txn where
    run': "P2PTransferGen_apply psi gc g u = Inr (?u', txn, Keep Success, PEER_TO_PEER gc)" ..
  have "total_balance u = total_balance ?u' + unat (PEER_TO_PEER gc) * 100"
    by (rule p2p.apply_pays [OF run'])
  moreover have "funded m a" if "a \<in> set as'" for a
  proof -
    have "a \<in> insert (?r\<lparr>balance := rb, received_events_count := rc\<rparr>)
       (insert (?s\<lparr>sequence_number := seq, sent_events_count := sent, balance := b\<rparr>) (set (accounts u)))"
      using that unfolding as'_def by (meson insert_mono order_trans set_update_subset_insert subsetD)
    then consider "a = ?r\<lparr>balance := rb, received_events_count := rc\<rparr>"
      | "a = ?s\<lparr>sequence_number := seq, sent_events_count := sent, balance := b\<rparr>"
      | "a \<in> set (accounts u)" by blast
    then show ?thesis
      using f seq(2) sent(2) b(2) rb(2) rc(2) td(2) ga(2) gas amt fl
      by cases (auto simp: funded_def flush_def)
  qed
  ultimately have "flush m ?u'"
    using fl p' by (auto simp: flush_def as'_def)
  with run' show ?thesis by blast
qed


lemma apply_gens_flush:
  assumes psi: "slice_idxs_contract psi" and gas: "unat (PEER_TO_PEER gc) \<le> 4000"
  shows "flush m u \<Longrightarrow> length gens \<le> m \<Longrightarrow> 
    \<forall>g \<in> set gens. unat (amount g) \<le> 100000 \<Longrightarrow>
    \<exists>u' outs. apply_gens (P2PTransferGen_apply psi gc) gens u = Inr (u', outs) \<and>
      length outs = length gens \<and> (\<forall>(txn, status, cost) \<in> set outs. status = Keep Success)"
proof (induction gens arbitrary: m u)
  case (Cons g gens)
  then obtain m' where m: "m = Suc m'" by (cases m) auto
  from P2PTransferGen_apply_flush [OF psi Cons.prems(1) [unfolded m] _ gas] Cons.prems(3) obtain u' txn
    where step: "P2PTransferGen_apply psi gc g u = Inr (u', txn, Keep Success, PEER_TO_PEER gc)"
      and fl: "flush m' u'" by fastforce
  from Cons.IH [OF fl] Cons.prems m step show ?case by fastforce
qed simp


lemma flush_new:
  assumes "2 \<le> length ds" and "\<forall>d \<in> set ds. funded m (AccountCurrent_new d)"
    and "sum_list (map (unat \<circ> ad_balance) ds) < 2 ^ 64"
  shows "flush m (AccountUniverse_new ds Unlimited ignore)"
proof -
  have "unat \<circ> balance \<circ> AccountCurrent_new = unat \<circ> ad_balance"
    by (simp add: fun_eq_iff AccountCurrent_new_def)
  with assms show ?thesis
    by (auto simp: flush_def AccountUniverse_new_def AccountPicker_new_def total_balance_def)
qed

lemma success_strategy_min_balance:
  assumes "success_strategy n k = Inr (nums, (lo, hi), style)" and "n < 2 ^ 64"
  shows "style = Unlimited" "unat lo = (2 * n) * 500000"
proof -
  from assms(1) obtain txns t where c: "mul_c (word_of_nat n) 2 = Inr txns" "mul_c 100000 txns = Inr t"
    "mul_c t 5 = Inr lo" "style = Unlimited"
    by (auto simp: success_strategy_def default_num_transactions_def)
  then show "style = Unlimited" by simp
  show "unat lo = (2 * n) * 500000"
    using c assms(2) by (simp add: checked_simps unat_of_nat)
qed

definition sample_funded :: AccountUniverse where
  "sample_funded = AccountUniverse_new [sample_data 1 3000000, sample_data 2 3000000] Unlimited False"

definition sample_gen :: "u64 \<Rightarrow> nat P2PTransferGen" where
  "sample_gen amt = \<lparr>sender_receiver = \<lparr>pair = (0, 0), rev_pair = True\<rparr>, amount = amt\<rparr>"

lemma sample_flush: "flush 2 sample_funded"
  unfolding sample_funded_def
  by (rule flush_new) (simp_all add: funded_def AccountCurrent_new_def sample_data_def)

lemma sample_step:
  "\<exists>u' txn. P2PTransferGen_apply lowest_idxs sample_gas_costs (sample_gen 70) sample_funded =
     Inr (u', txn, Keep Success, 2)"
proof -
  have "flush (Suc 1) sample_funded" using sample_flush by (simp only: Suc_1)
  moreover have "unat (amount (sample_gen 70)) \<le> 100000"
    "unat (PEER_TO_PEER sample_gas_costs) \<le> 4000" "PEER_TO_PEER sample_gas_costs = 2"
    by (simp_all add: sample_gen_def sample_gas_costs_def)
  ultimately show ?thesis
    using P2PTransferGen_apply_flush [OF lowest_idxs_contract] by metis
qed

lemma sample_run:
  "\<exists>u' outs. apply_gens (P2PTransferGen_apply lowest_idxs sample_gas_costs)
     [sample_gen 70, sample_gen 30] sample_funded = Inr (u', outs) \<and> length outs = 2"
proof -
  have "unat (PEER_TO_PEER sample_gas_costs) \<le> 4000" "length [sample_gen 70, sample_gen 30] \<le> 2"
    "\<forall>g \<in> set [sample_gen 70, sample_gen 30]. unat (amount g) \<le> 100000"
    by (simp_all add: sample_gen_def sample_gas_costs_def)
  from apply_gens_flush [OF lowest_idxs_contract this(1) sample_flush this(2,3)] show ?thesis
    by (auto simp del: apply_gens.simps)
qed

section \<open>What a run of transfers does\<close>

text \<open>
  C8. The guarantee the success strategy is made for. With initial balances from the range
  \<open>success_strategy\<close> computes, sequence numbers and event counters that leave room for the
  transactions of the run, a supply within u64, a gas cost of at most
  4,000 units per transfer and amounts of at most 100,000, every one of up to
  \<open>default_num_transactions\<close> transfers is applied without a panic and expected to succeed.
\<close>

theorem success_strategy_all_succeed:
  assumes "slice_idxs_contract psi" and "unat (PEER_TO_PEER gc) \<le> 4000"
    and "success_strategy n k = Inr (nums, (lo, hi), style)" and "n < 2 ^ 64"
    and "2 \<le> length ds"
    and "\<forall>d \<in> set ds. lo \<le> ad_balance d \<and> unat (ad_sequence_number d) + 2 * n < 2 ^ 64 \<and>
           unat (ad_sent_events_count d) + 2 * n < 2 ^ 64 \<and> unat (ad_received_events_count d) + 2 * n < 2 ^ 64"
    and "sum_list (map (unat \<circ> ad_balance) ds) < 2 ^ 64"
    and "length gens \<le> 2 * n" and "\<forall>g \<in> set gens. unat (amount g) \<le> 100000"
  shows "\<exists>u' outs. apply_gens (P2PTransferGen_apply psi gc) gens (AccountUniverse_new ds style ignore) =
             Inr (u', outs) \<and>
      length outs = length gens \<and> (\<forall>(txn, status, cost) \<in> set outs. status = Keep Success)"
proof -
  note lo = success_strategy_min_balance [OF assms(3,4)]
  have "funded (2 * n) (AccountCurrent_new d)" if "d \<in> set ds" for d
    using assms(6) that lo by (auto simp: funded_def AccountCurrent_new_def word_le_nat_alt)
  with assms lo have "flush (2 * n) (AccountUniverse_new ds style ignore)"
    by (intro flush_new [of ds "2 * n" ignore, folded lo(1)]) auto
  from apply_gens_flush [OF assms(1,2) this assms(8)] assms(9) show ?thesis by blast
qed

theorem success_strategy_all_succeed_witness:
  "\<exists>u' outs. apply_gens (P2PTransferGen_apply lowest_idxs sample_gas_costs)
       [sample_gen 100000, sample_gen 30]
       (AccountUniverse_new [sample_data 1 3000000, sample_data 2 3000000] Unlimited False) =
         Inr (u', outs) \<and>
     length outs = length [sample_gen 100000, sample_gen 30] \<and>
     (\<forall>(txn, status, cost) \<in> set outs. status = Keep Success)"
proof -
  have strategy: "success_strategy 1 2 = Inr ((2, 1), (1000000, 10000000), Unlimited)"
    by (simp add: success_strategy_def default_num_transactions_def default_num_accounts_def mul_c_def)
  show ?thesis
    by (rule success_strategy_all_succeed [OF lowest_idxs_contract _ strategy])
      (simp_all add: sample_gas_costs_def sample_data_def sample_gen_def)
qed

text \<open>
  C5. One application of the peer-to-peer generator that returns picks two distinct
  accounts, builds the transfer with the sender's current sequence number, and updates
  exactly these two accounts as \<open>p2p_effect\<close> says, every field of them included, with the status and the gas that
  \<open>p2p_status\<close> reads off the sender's balance. All four branches of the source, with
  the checked arithmetic, are covered.
\<close>

theorem P2PTransferGen_apply_spec:
  assumes "P2PTransferGen_apply psi gc g u = Inr (u', txn, st, gas)"
  shows "\<exists>i j. i \<noteq> j \<and> i < length (accounts u) \<and> j < length (accounts u) \<and>
     txn = peer_to_peer_txn (account (accounts u ! i)) (account (accounts u ! j))
             (sequence_number (accounts u ! i)) (amount g) 100 \<and>
     (st, gas) = p2p_status gc (amount g) (accounts u ! i) \<and>
     p2p_effect (amount g) st gas i j (accounts u) (accounts u')"
  using assms by (rule P2PTransferGen_apply_effect)

theorem P2PTransferGen_apply_spec_witness:
  "\<exists>u' txn. P2PTransferGen_apply lowest_idxs sample_gas_costs (sample_gen 70) sample_funded =
       Inr (u', txn, Keep Success, 2) \<and>
     (\<exists>i j. i \<noteq> j \<and> i < length (accounts sample_funded) \<and> j < length (accounts sample_funded) \<and>
       txn = peer_to_peer_txn (account (accounts sample_funded ! i)) (account (accounts sample_funded ! j))
               (sequence_number (accounts sample_funded ! i)) (amount (sample_gen 70)) 100 \<and>
       (Keep Success, 2) = p2p_status sample_gas_costs (amount (sample_gen 70)) (accounts sample_funded ! i) \<and>
       p2p_effect (amount (sample_gen 70)) (Keep Success) 2 i j (accounts sample_funded) (accounts u'))"
proof -
  from sample_step obtain u' txn where
    run: "P2PTransferGen_apply lowest_idxs sample_gas_costs (sample_gen 70) sample_funded =
       Inr (u', txn, Keep Success, 2)" by blast
  from P2PTransferGen_apply_spec [OF run] run show ?thesis by blast
qed

text \<open>
  C6. Conservation. Over any run of peer-to-peer generators that returns, the coins held by
  all accounts of the universe drop by exactly the gas reported in the expected outputs, at
  the unit price of 100: transfers move coins between accounts and create or lose none.
\<close>

theorem p2p_run_conservation:
  assumes "apply_gens (P2PTransferGen_apply psi gc) gens u = Inr (u', outs)"
  shows "total_balance u =
     total_balance u' + sum_list (map (\<lambda>(txn, st, gas). unat gas) outs) * 100"
  using assms by (rule p2p.run_pays)

theorem p2p_run_conservation_witness:
  "\<exists>u' outs. apply_gens (P2PTransferGen_apply lowest_idxs sample_gas_costs)
       [sample_gen 70, sample_gen 30] sample_funded = Inr (u', outs) \<and> length outs = 2 \<and>
     total_balance sample_funded =
       total_balance u' + sum_list (map (\<lambda>(txn, st, gas). unat gas) outs) * 100"
proof -
  from sample_run obtain u' outs where
    run: "apply_gens (P2PTransferGen_apply lowest_idxs sample_gas_costs)
       [sample_gen 70, sample_gen 30] sample_funded = Inr (u', outs)" "length outs = 2" by blast
  from p2p_run_conservation [OF run(1)] run show ?thesis by blast
qed

text \<open>
  C7. In a universe of distinct accounts, the kept transactions of each account in a run
  carry consecutive sequence numbers, from the account's number before the run up to its
  number after it; a discarded transaction does not use a number up.
\<close>

theorem p2p_run_sequence_numbers:
  assumes "apply_gens (P2PTransferGen_apply psi gc) gens u = Inr (u', outs)"
    and "distinct (map account (accounts u))" and "k < length (accounts u)"
  shows "map (\<lambda>(txn, st, gas). unat (txn_sequence_number txn))
           (filter (\<lambda>(txn, st, gas). txn_sender txn = account (accounts u ! k) \<and> kept st) outs) =
         [unat (sequence_number (accounts u ! k))..<unat (sequence_number (accounts u' ! k))]"
  using p2p.run_numbers [OF assms] by blast

theorem p2p_run_sequence_numbers_witness:
  "\<exists>u' outs. apply_gens (P2PTransferGen_apply lowest_idxs sample_gas_costs)
       [sample_gen 70, sample_gen 30] sample_funded = Inr (u', outs) \<and> length outs = 2 \<and>
     map (\<lambda>(txn, st, gas). unat (txn_sequence_number txn))
       (filter (\<lambda>(txn, st, gas). txn_sender txn = account (accounts sample_funded ! 0) \<and> kept st) outs) =
     [unat (sequence_number (accounts sample_funded ! 0))..<unat (sequence_number (accounts u' ! 0))]"
proof -
  from sample_run obtain u' outs where
    run: "apply_gens (P2PTransferGen_apply lowest_idxs sample_gas_costs)
       [sample_gen 70, sample_gen 30] sample_funded = Inr (u', outs)" "length outs = 2" by blast
  have "distinct (map account (accounts sample_funded))" "0 < length (accounts sample_funded)"
    by (simp_all add: sample_funded_def AccountUniverse_new_def AccountCurrent_new_def account_def
        sample_data_def)
  from p2p_run_sequence_numbers [OF run(1) this] run show ?thesis by blast
qed

end
