(* ===== verification/Block_Sequential.thy ===== *)
theory Block_Sequential
  imports Block_Parallel Peer_To_Peer
begin

text \<open>
  Sequential execution and the entry point of the block executor
  (\<^verbatim>\<open>block-executor/src/executor.rs\<close>): \<open>BlockExecutor::new\<close>,
  \<open>apply_output_sequential\<close>, \<open>execute_transactions_sequential\<close> and \<open>execute_block\<close>.

  The unsynchronised map, the VM with the view it reads through, the block limits and the
  helpers that patch outputs are parameters. An error returned with \<open>?\<close> ends the
  block; a failed \<open>assert\<close> or \<open>unwrap\<close> is a panic. The order in which a hash map is
  drained is the parameter \<open>order\<close>.
\<close>

section \<open>Configuration and errors\<close>

record BlockExecutorConfig =
  concurrency_level :: nat
  allow_fallback :: bool
  discard_failed_blocks :: bool

definition BlockExecutor_new :: "BlockExecutorConfig \<Rightarrow> nat \<Rightarrow> BlockExecutorConfig res" where
  "BlockExecutor_new config num_cpus =
     rbind (assert_that (concurrency_level config > 0 \<and> concurrency_level config \<le> num_cpus)) (\<lambda>_.
     Inr config)"

datatype 'e BlockExecutionError = FatalBlockExecutorError string | FatalVMError 'e

datatype 'e SequentialBlockExecutionError =
    ResourceGroupSerializationError
  | ErrorToReturn "'e BlockExecutionError"

abbreviation code_invariant :: "string \<Rightarrow> 'e SequentialBlockExecutionError" where
  "code_invariant msg \<equiv> ErrorToReturn (FatalBlockExecutorError msg)"

section \<open>The external components\<close>

datatype 'id ApplyBase = Previous 'id | Current 'id

record ('um, 'k, 'tag, 'v, 'l, 'id, 'dv, 'ap) UnsyncMap =
  um_write :: "'k \<Rightarrow> 'v \<Rightarrow> 'l option \<Rightarrow> 'um \<Rightarrow> 'um"
  insert_group_op :: "'k \<Rightarrow> 'tag \<Rightarrow> 'v \<Rightarrow> 'l option \<Rightarrow> 'um \<Rightarrow> (string + unit) \<times> 'um"
  write_module :: "'k \<Rightarrow> 'v \<Rightarrow> 'um \<Rightarrow> 'um"
  fetch_delayed_field :: "'id \<Rightarrow> 'um \<Rightarrow> 'dv option"
  write_delayed_field :: "'id \<Rightarrow> 'dv \<Rightarrow> 'um \<Rightarrow> 'um"
  um_finalize_group :: "'k \<Rightarrow> 'um \<Rightarrow> ('tag \<times> 'v) list"
  get_apply_base_id :: "'ap \<Rightarrow> 'id \<Rightarrow> 'id ApplyBase"
  apply_to_base :: "'ap \<Rightarrow> 'dv \<Rightarrow> string + 'dv"

section \<open>apply_output_sequential\<close>

fun insert_group_ops where
  "insert_group_ops U group_key [] um = (Inr (), um)"
| "insert_group_ops U group_key ((value_tag, group_op, maybe_layout) # ops) um =
     (case insert_group_op U group_key value_tag group_op maybe_layout um of
        (Inl e, um1) \<Rightarrow> (Inl e, um1)
      | (Inr _, um1) \<Rightarrow> insert_group_ops U group_key ops um1)"

fun write_groups where
  "write_groups U [] um = (Inr (), um)"
| "write_groups U ((group_key, metadata_op, group_ops) # gs) um =
     (case insert_group_ops U group_key group_ops um of
        (Inl e, um1) \<Rightarrow> (Inl e, um1)
      | (Inr _, um1) \<Rightarrow> write_groups U gs (um_write U group_key metadata_op None um1))"

text \<open>
  The first pass over the delayed changes: creations and changes against the value before the
  transaction go into \<open>updates\<close>, changes against the current value wait in
  \<open>second_phase\<close>.
\<close>

fun delayed_first_phase where
  "delayed_first_phase U um [] updates second_phase = Inr (updates, second_phase)"
| "delayed_first_phase U um ((fid, change) # cs) updates second_phase =
     (case change of
        Create value \<Rightarrow>
          rbind (assert_that (fetch_delayed_field U fid um = None)) (\<lambda>_.
          delayed_first_phase U um cs (AList.update fid value updates) second_phase)
      | Apply ap \<Rightarrow>
          (case get_apply_base_id U ap fid of
             Previous base_id \<Rightarrow>
               rbind (unwrap (fetch_delayed_field U base_id um)) (\<lambda>base.
               rbind (unwrap_ok (apply_to_base U ap base)) (\<lambda>value.
               delayed_first_phase U um cs (AList.update fid value updates) second_phase))
           | Current base_id \<Rightarrow>
               delayed_first_phase U um cs updates (second_phase @ [(fid, base_id, ap)])))"

fun delayed_second_phase where
  "delayed_second_phase U um [] updates = Inr updates"
| "delayed_second_phase U um ((fid, base_id, ap) # rest) updates =
     rbind (case map_of updates base_id of
              Some value \<Rightarrow> Inr value
            | None \<Rightarrow> unwrap (fetch_delayed_field U base_id um)) (\<lambda>base.
     rbind (unwrap_ok (apply_to_base U ap base)) (\<lambda>value.
     delayed_second_phase U um rest (AList.update fid value updates)))"

definition apply_output_sequential where
  "apply_output_sequential U order output resource_writes um =
     (let um1 = fold (\<lambda>(key, write_op, layout). um_write U key write_op layout) resource_writes um in
      case write_groups U (resource_group_write_set output) um1 of
        (Inl e, um2) \<Rightarrow> Inr (Inl (code_invariant e), um2)
      | (Inr _, um2) \<Rightarrow>
          let um3 = fold (\<lambda>(key, write_op). um_write U key write_op None) (aggregator_v1_write_set output) um2;
              um4 = fold (\<lambda>(key, write_op). write_module U key write_op) (module_write_set output) um3
          in rbind (delayed_first_phase U um4 (delayed_field_change_set output) [] []) (\<lambda>(updates, second_phase).
             rbind (delayed_second_phase U um4 second_phase updates) (\<lambda>updates'.
             Inr (Inr (), fold (\<lambda>(fid, value). write_delayed_field U fid value) (order updates') um4))))"

section \<open>execute_transactions_sequential\<close>

text \<open>
  The remaining parameters of the sequential loop. A view \<open>'vw\<close> is what the VM returns
  beside the status: it remembers the reads. Functions on outputs are those of the trait
  \<open>TransactionOutput\<close>; the helpers of \<^verbatim>\<open>executor_utilities\<close> get the map they read.
\<close>

record ('o, 'um, 'vw, 'k, 'tag, 'v, 'l, 'bytes, 'fee, 'rw, 'rd, 'fg, 'mg, 'mw, 'ev, 't) SequentialOps =
  output_fee_statement :: "'o \<Rightarrow> 'fee"
  approx_size :: "'o \<Rightarrow> u64"
  user_txn_bytes_len :: "'t \<Rightarrow> u64"
  take_sequential_reads :: "'vw \<Rightarrow> 'rd"
  new_read_write_summary :: "'rd \<Rightarrow> 'o \<Rightarrow> 'rw"
  materialize_agg_v1 :: "'o \<Rightarrow> 'vw \<Rightarrow> 'um \<Rightarrow> 'o"
  group_reads_needing_exchange :: "'o \<Rightarrow> 'k list"
  is_deletion :: "'v \<Rightarrow> bool"
  extract_raw_bytes :: "'v \<Rightarrow> 'bytes option"
  bcs_to_bytes_is_err :: "('tag \<times> 'bytes) list \<Rightarrow> bool"
  output_groups_to_finalize :: "'o \<Rightarrow> (('k \<times> 'v) \<times> bool) list"
  seq_map_finalized_group :: "'k \<Rightarrow> ('tag \<times> 'v) list \<Rightarrow> 'v \<Rightarrow> bool \<Rightarrow> string + 'fg"
  seq_group_writes :: "'fg list \<Rightarrow> 'vw \<Rightarrow> 'um \<Rightarrow> string + 'mg list"
  seq_serialize_groups :: "'mg list \<Rightarrow> string + ('k \<times> 'v) list"
  seq_writes_to_materialize :: "('k \<times> 'v \<times> 'l option) list \<Rightarrow> 'o \<Rightarrow> 'um \<Rightarrow> string + 'mw list"
  seq_write_set :: "'mw list \<Rightarrow> 'vw \<Rightarrow> 'um \<Rightarrow> string + ('k \<times> 'v) list"
  seq_events :: "'o \<Rightarrow> 'vw \<Rightarrow> 'um \<Rightarrow> string + 'ev list"
  incorporate_materialized_txn_output :: "('k \<times> 'v) list \<Rightarrow> 'ev list \<Rightarrow> 'o \<Rightarrow> string + 'o"
  view_is_incorrect_use :: "'vw \<Rightarrow> bool"
  skip_output :: 'o
  discard_output :: "StatusCode \<Rightarrow> 'o"

record ('bl, 'lio, 'fee, 'rw, 'rd, 'k) SequentialLimit =
  seq_accumulate_fee_statement :: "'fee \<Rightarrow> 'rw option \<Rightarrow> u64 option \<Rightarrow> 'bl \<Rightarrow> 'bl"
  should_end_block_sequential :: "'bl \<Rightarrow> bool"
  process_module_rw_conflict :: "'bl \<Rightarrow> 'bl"
  check_and_append_module_rw_conflict :: "'rd \<Rightarrow> 'k list \<Rightarrow> 'lio \<Rightarrow> bool \<times> 'lio"
  seq_block_output_limit :: "u64 option"
  seq_include_user_txn_size :: bool
  seq_conflict_penalty_window :: "u64 option"

text \<open>The state of the loop; \<open>ret\<close> is the vector of outputs pushed so far.\<close>

record ('o, 'um, 'bl, 'lio) SeqState =
  unsync_map :: 'um
  limit :: 'bl
  module_io :: 'lio
  ret :: "'o list"
  seq_hook_log :: "'o hook_event list"

datatype seq_exit = Discarded | Pushed bool

text \<open>Lines 1074 to 1119: the accounting of a successful transaction.\<close>

definition account_sequential where
  "account_sequential Q B txn vw output st =
     rbind (case seq_block_output_limit B of
              None \<Rightarrow> Inr None
            | Some _ \<Rightarrow>
                rbind (add_c (approx_size Q output)
                         (if seq_include_user_txn_size B then user_txn_bytes_len Q txn else 0)) (\<lambda>s.
                Inr (Some s))) (\<lambda>approx_output_size.
     let reads = take_sequential_reads Q vw;
         summary = map_option (\<lambda>_. new_read_write_summary Q reads output) (seq_conflict_penalty_window B);
         (conflict, lio) = check_and_append_module_rw_conflict B reads
            (map fst (module_write_set output)) (module_io st);
         bl = (if conflict then process_module_rw_conflict B (limit st) else limit st)
     in Inr (st\<lparr>module_io := lio,
                limit := seq_accumulate_fee_statement B (output_fee_statement Q output) summary
                           approx_output_size bl\<rparr>))"

text \<open>Lines 1128 to 1184: would the groups of the output fail to serialise?\<close>

definition finalize_bytes where
  "finalize_bytes Q U um group_key =
     mapM (\<lambda>(resource_tag, value). rbind (unwrap (extract_raw_bytes Q value)) (\<lambda>b. Inr (resource_tag, b)))
       (um_finalize_group U group_key um)"

definition overlay_group_op where
  "overlay_group_op Q finalized_group tagged_op =
     (case tagged_op of (value_tag, group_op, _) \<Rightarrow>
      if is_deletion Q group_op then Inr (AList.delete value_tag finalized_group)
      else rbind (unwrap (extract_raw_bytes Q group_op)) (\<lambda>b.
           Inr (AList.update value_tag b finalized_group)))"

fun any_group where
  "any_group test [] = Inr False"
| "any_group test (g # gs) = rbind (test g) (\<lambda>b. if b then Inr True else any_group test gs)"

definition serialization_error where
  "serialization_error Q U um output =
     rbind (any_group (\<lambda>group_key.
              rbind (finalize_bytes Q U um group_key) (\<lambda>g. Inr (bcs_to_bytes_is_err Q g)))
              (group_reads_needing_exchange Q output)) (\<lambda>read_error.
     if read_error then Inr True
     else any_group (\<lambda>(group_key, _, group_ops).
            rbind (finalize_bytes Q U um group_key) (\<lambda>g.
            rbind (foldM (overlay_group_op Q) g group_ops) (\<lambda>g'. Inr (bcs_to_bytes_is_err Q g'))))
            (resource_group_write_set output))"

text \<open>
  Lines 1206 to 1262: the materialisation of an output after its writes were applied. A
  failed group serialisation has its own error, every other failure is an invariant error.
\<close>

definition materialize_sequential where
  "materialize_sequential Q U vw um output =
     (case mapM (\<lambda>((group_key, metadata_op), is_read).
              seq_map_finalized_group Q group_key (um_finalize_group U group_key um) metadata_op is_read)
            (output_groups_to_finalize Q output) of
        Inl e \<Rightarrow> Inl (code_invariant e)
      | Inr finalized_groups \<Rightarrow>
      (case seq_group_writes Q finalized_groups vw um of
        Inl e \<Rightarrow> Inl (code_invariant e)
      | Inr materialized_finalized_groups \<Rightarrow>
      (case seq_serialize_groups Q materialized_finalized_groups of
        Inl _ \<Rightarrow> Inl ResourceGroupSerializationError
      | Inr serialized_groups \<Rightarrow>
      (case seq_writes_to_materialize Q (resource_write_set output) output um of
        Inl e \<Rightarrow> Inl (code_invariant e)
      | Inr writes \<Rightarrow>
      (case seq_write_set Q writes vw um of
        Inl e \<Rightarrow> Inl (code_invariant e)
      | Inr materialized_resource_write_set \<Rightarrow>
      (case seq_events Q output vw um of
        Inl e \<Rightarrow> Inl (code_invariant e)
      | Inr materialized_events \<Rightarrow>
      (case incorporate_materialized_txn_output Q (materialized_resource_write_set @ serialized_groups)
              materialized_events output of
        Inl e \<Rightarrow> Inl (code_invariant e)
      | Inr output' \<Rightarrow>
          if view_is_incorrect_use Q vw
          then Inl (code_invariant ''Incorrect use in sequential execution'')
          else Inr output')))))))"

text \<open>The arm for a successful transaction, from the accounting to the push.\<close>

definition commit_sequential where
  "commit_sequential Q U B order hook resource_group_bcs_fallback idx txn vw must_skip output st =
     rbind (account_sequential Q B txn vw output st) (\<lambda>st1.
     let output1 = materialize_agg_v1 Q output vw (unsync_map st1) in
     rbind (assert_that (length (aggregator_v1_delta_set output1) = 0)) (\<lambda>_.
     rbind (if resource_group_bcs_fallback then serialization_error Q U (unsync_map st1) output1
            else Inr False) (\<lambda>failed.
     if failed
     then Inr (Inr Discarded,
            st1\<lparr>ret := ret st1 @ [discard_output Q DELAYED_MATERIALIZATION_CODE_INVARIANT_ERROR]\<rparr>)
     else
       rbind (apply_output_sequential U order output1 (resource_write_set output1) (unsync_map st1))
         (\<lambda>(r, um).
       let st2 = st1\<lparr>unsync_map := um\<rparr> in
       case r of
         Inl e \<Rightarrow> Inr (Inl e, st2)
       | Inr _ \<Rightarrow>
           (case materialize_sequential Q U vw um output1 of
              Inl e \<Rightarrow> Inr (Inl e, st2)
            | Inr output2 \<Rightarrow>
                Inr (Inr (Pushed must_skip),
                  st2\<lparr>seq_hook_log := seq_hook_log st2 @
                         (if hook then [on_transaction_committed idx output2] else []),
                      ret := ret st2 @ [output2]\<rparr>))))))"

definition abort_sequential where
  "abort_sequential hook idx e st =
     (Inl (ErrorToReturn e),
      st\<lparr>seq_hook_log := seq_hook_log st @ (if hook then [on_execution_aborted idx] else [])\<rparr>)"

definition seq_txn where
  "seq_txn Q U B order vm hook resource_group_bcs_fallback idx txn st =
     (let (res, vw, um) = vm txn idx (unsync_map st);
          st0 = st\<lparr>unsync_map := um\<rparr>
      in case res of
           TaskAbort err \<Rightarrow> Inr (abort_sequential hook idx (FatalVMError err) st0)
         | TaskDelayedFieldsCodeInvariantError msg \<Rightarrow>
             Inr (abort_sequential hook idx (FatalBlockExecutorError msg) st0)
         | TaskSpeculativeExecutionAbortError msg \<Rightarrow>
             Inr (abort_sequential hook idx (FatalBlockExecutorError msg) st0)
         | TaskSuccess output \<Rightarrow>
             commit_sequential Q U B order hook resource_group_bcs_fallback idx txn vw False output st0
         | TaskSkipRest output \<Rightarrow>
             commit_sequential Q U B order hook resource_group_bcs_fallback idx txn vw True output st0)"

fun seq_loop where
  "seq_loop B step n idx [] st = Inr (Inr (), st)"
| "seq_loop B step n idx (txn # txns) st =
     rbind (step idx txn st) (\<lambda>(r, st').
     case r of
       Inl e \<Rightarrow> Inr (Inl e, st')
     | Inr Discarded \<Rightarrow> seq_loop B step n (Suc idx) txns st'
     | Inr (Pushed must_skip) \<Rightarrow>
         if must_skip \<or> (idx < n - 1 \<and> should_end_block_sequential B (limit st'))
         then Inr (Inr (), st')
         else seq_loop B step n (Suc idx) txns st')"

text \<open>\<open>Vec::resize_with\<close>\<close>

definition resize_with :: "nat \<Rightarrow> 'a \<Rightarrow> 'a list \<Rightarrow> 'a list" where
  "resize_with n x xs = take n xs @ replicate (n - length xs) x"

definition execute_transactions_sequential where
  "execute_transactions_sequential Q U B order vm hook um bl lio resource_group_bcs_fallback block =
     (let n = length block;
          st = \<lparr> unsync_map = um, limit = bl, module_io = lio, ret = [], seq_hook_log = [] \<rparr>
      in rbind (seq_loop B (seq_txn Q U B order vm hook resource_group_bcs_fallback) n 0 block st)
           (\<lambda>(r, st').
         Inr (case r of
                Inl e \<Rightarrow> (Inl e, seq_hook_log st')
              | Inr _ \<Rightarrow> (Inr (resize_with n (skip_output Q) (ret st')), seq_hook_log st'))))"

section \<open>execute_block\<close>

text \<open>
  The choice between the two executions. \<open>par\<close> is the outcome of
  \<open>execute_transactions_parallel\<close> and \<open>seq\<close> maps the fallback flag to the outcome of
  \<open>execute_transactions_sequential\<close>.
\<close>

definition execute_block where
  "execute_block config par seq discard block =
     rbind (if concurrency_level config > 1 then par else Inr None) (\<lambda>parallel_result.
     case parallel_result of
       Some output \<Rightarrow> Inr (Inr output)
     | None \<Rightarrow>
         if concurrency_level config > 1 \<and> \<not> allow_fallback config then Inl ExplicitPanic
         else
           let finish = (\<lambda>sequential_error.
                 if discard_failed_blocks config
                 then Inr (map (\<lambda>_. discard (case sequential_error of
                         FatalBlockExecutorError _ \<Rightarrow> DELAYED_MATERIALIZATION_CODE_INVARIANT_ERROR
                       | FatalVMError _ \<Rightarrow> UNKNOWN_INVARIANT_VIOLATION_ERROR)) block)
                 else Inl sequential_error)
           in rbind (seq False) (\<lambda>sequential_result.
              case sequential_result of
                Inr output \<Rightarrow> Inr (Inr output)
              | Inl (ErrorToReturn err) \<Rightarrow> Inr (finish err)
              | Inl ResourceGroupSerializationError \<Rightarrow>
                  if \<not> allow_fallback config then Inl ExplicitPanic
                  else rbind (seq True) (\<lambda>second_result.
                    Inr (case second_result of
                      Inr output \<Rightarrow> Inr output
                    | Inl ResourceGroupSerializationError \<Rightarrow>
                        finish (FatalBlockExecutorError
                          ''resource group serialization during bcs fallback should not happen'')
                    | Inl (ErrorToReturn err) \<Rightarrow> finish err))))"

end
