(* ===== verification/Block_Results.thy ===== *)
theory Block_Results
  imports Block_Sequential
begin

text \<open>
  The lemmas and properties of the sequential execution and of \<open>execute_block\<close>: the
  delayed fields of an applied output against a specification without phases or order, the
  shape of the outputs and of the calls of the commit hook, the errors, and the composition of
  the parallel and the sequential execution.
\<close>

section \<open>The two phases of the delayed fields\<close>

text \<open>
  What the code relies on: the map of delayed fields is a map, and no other write touches it.
\<close>

definition delayed_contract where
  "delayed_contract U \<longleftrightarrow>
     (\<forall>f g v um. fetch_delayed_field U g (write_delayed_field U f v um) =
        (if g = f then Some v else fetch_delayed_field U g um)) \<and>
     (\<forall>k v l g um. fetch_delayed_field U g (um_write U k v l um) = fetch_delayed_field U g um) \<and>
     (\<forall>k v g um. fetch_delayed_field U g (write_module U k v um) = fetch_delayed_field U g um) \<and>
     (\<forall>k t v l g um. fetch_delayed_field U g (snd (insert_group_op U k t v l um)) =
        fetch_delayed_field U g um)"

text \<open>
  The specification, without phases or order. A change is against the current value, or it has
  a value of its own: the created one, or the result of applying it to the value its base had
  before the transaction. A change against the current value applies to the own value of its
  base, or to the old value when the base is not changed.
\<close>

definition current_base where
  "current_base U f change =
     (case change of
        Create _ \<Rightarrow> None
      | Apply ap \<Rightarrow> (case get_apply_base_id U ap f of Previous _ \<Rightarrow> None | Current b \<Rightarrow> Some (b, ap)))"

definition applied where
  "applied U ap base =
     (case base of None \<Rightarrow> None
      | Some x \<Rightarrow> (case apply_to_base U ap x of Inl _ \<Rightarrow> None | Inr y \<Rightarrow> Some y))"

definition own_value where
  "own_value U um f change =
     (case change of
        Create v \<Rightarrow> Some v
      | Apply ap \<Rightarrow> (case get_apply_base_id U ap f of
          Previous b \<Rightarrow> applied U ap (fetch_delayed_field U b um) | Current b \<Rightarrow> None))"

definition value_or_old where
  "value_or_old U um changes b =
     (case map_of changes b of None \<Rightarrow> fetch_delayed_field U b um | Some change \<Rightarrow> own_value U um b change)"

definition delayed_spec where
  "delayed_spec U um changes f =
     (case map_of changes f of
        None \<Rightarrow> fetch_delayed_field U f um
      | Some change \<Rightarrow> (case current_base U f change of
          None \<Rightarrow> own_value U um f change
        | Some (b, ap) \<Rightarrow> applied U ap (value_or_old U um changes b)))"

definition currents where
  "currents U changes = concat (map (\<lambda>(f, change). case current_base U f change of
     None \<Rightarrow> [] | Some (b, ap) \<Rightarrow> [(f, b, ap)]) changes)"

text \<open>No change against the current value has a base that is itself changed so.\<close>

definition no_current_chain where
  "no_current_chain U changes \<longleftrightarrow>
     (\<forall>(f, b, ap) \<in> set (currents U changes). b \<notin> fst ` set (currents U changes))"

lemma currents_Cons:
  "currents U ((f, change) # cs) =
     (case current_base U f change of None \<Rightarrow> [] | Some (b, ap) \<Rightarrow> [(f, b, ap)]) @ currents U cs"
  by (simp add: currents_def)

lemma currents_keys: "fst ` set (currents U cs) \<subseteq> fst ` set cs"
  by (force simp: currents_def split: option.splits)

lemma map_of_currents:
  "distinct (map fst cs) \<Longrightarrow>
     map_of (currents U cs) f = (case map_of cs f of None \<Rightarrow> None | Some change \<Rightarrow> current_base U f change)"
proof (induction cs)
  case (Cons c cs)
  obtain g change where c: "c = (g, change)" by (cases c)
  have "map_of (currents U cs) g = None"
    using Cons.prems currents_keys [of U cs] c by (auto simp: map_of_eq_None_iff)
  with Cons c show ?case by (auto simp: currents_Cons split: option.splits)
qed (simp add: currents_def)

lemma distinct_currents: "distinct (map fst cs) \<Longrightarrow> distinct (map fst (currents U cs))"
proof (induction cs)
  case (Cons c cs)
  obtain g change where c: "c = (g, change)" by (cases c)
  have "g \<notin> fst ` set (currents U cs)"
    using Cons.prems currents_keys [of U cs] c by auto
  with Cons c show ?case by (auto simp: currents_Cons split: option.splits)
qed (simp add: currents_def)

lemma first_phase_spec:
  assumes "delayed_first_phase U um cs updates sp = Inr (updates', sp')" and "distinct (map fst cs)"
  shows "sp' = sp @ currents U cs \<and>
     (distinct (map fst updates) \<longrightarrow> distinct (map fst updates')) \<and>
     (\<forall>f. map_of updates' f =
        (case map_of cs f of None \<Rightarrow> map_of updates f
         | Some change \<Rightarrow> (if current_base U f change = None then own_value U um f change
                         else map_of updates f))) \<and>
     (\<forall>f change. map_of cs f = Some change \<longrightarrow> current_base U f change = None \<longrightarrow>
        own_value U um f change \<noteq> None)"
  using assms
proof (induction cs arbitrary: updates sp)
  case (Cons c cs)
  obtain g change where c: "c = (g, change)" by (cases c)
  have g: "map_of cs g = None" using Cons.prems(2) c by (simp add: map_of_eq_None_iff)
  show ?case
  proof (cases "current_base U g change")
    case (Some bap)
    then obtain b ap where b: "change = Apply ap" "get_apply_base_id U ap g = Current b" "bap = (b, ap)"
      by (auto simp: current_base_def split: DelayedChange.splits ApplyBase.splits)
    with Cons.prems c have "delayed_first_phase U um cs updates (sp @ [(g, b, ap)]) = Inr (updates', sp')"
      by simp
    from Cons.IH [OF this] Cons.prems(2) c g b Some show ?thesis
      by (auto simp: currents_Cons split: option.splits)
  next
    case None
    then obtain v where v: "own_value U um g change = Some v"
      "delayed_first_phase U um cs (AList.update g v updates) sp = Inr (updates', sp')"
      using Cons.prems c
      by (auto simp: current_base_def own_value_def applied_def split: DelayedChange.splits ApplyBase.splits)
    from Cons.IH [OF v(2)] Cons.prems(2) c g v(1) None show ?thesis
      by (auto simp: currents_Cons update_conv' distinct_update split: option.splits)
  qed
qed (simp add: currents_def)

lemma second_phase_spec:
  assumes "delayed_second_phase U um sp updates = Inr updates'" and "distinct (map fst sp)"
    and "\<forall>(f, b, ap) \<in> set sp. b \<notin> fst ` set sp"
  shows "(distinct (map fst updates) \<longrightarrow> distinct (map fst updates')) \<and>
     (\<forall>f. map_of updates' f =
        (case map_of sp f of None \<Rightarrow> map_of updates f
         | Some (b, ap) \<Rightarrow> applied U ap
             (case map_of updates b of None \<Rightarrow> fetch_delayed_field U b um | Some v \<Rightarrow> Some v)))"
  using assms
proof (induction sp arbitrary: updates)
  case (Cons e sp)
  obtain g b ap where e: "e = (g, b, ap)" by (cases e)
  have g: "map_of sp g = None" using Cons.prems(2) e by (simp add: map_of_eq_None_iff)
  from Cons.prems(1) e obtain x y where
    x: "(case map_of updates b of None \<Rightarrow> fetch_delayed_field U b um | Some v \<Rightarrow> Some v) = Some x"
    and y: "apply_to_base U ap x = Inr y"
    and rest: "delayed_second_phase U um sp (AList.update g y updates) = Inr updates'"
    by (auto split: option.splits)
  have base: "b' \<noteq> g" if "map_of sp f = Some (b', ap')" for f b' ap'
    using Cons.prems(3) e map_of_SomeD [OF that] by fastforce
  have sub: "\<forall>(f, b, ap) \<in> set sp. b \<notin> fst ` set sp" using Cons.prems(3) by fastforce
  from Cons.IH [OF rest _ sub] Cons.prems(2) e g x y base show ?case
    by (auto simp: applied_def update_conv' distinct_update split: option.splits)
qed simp

lemma second_phase_keys:
  "delayed_second_phase U um sp updates = Inr updates' \<Longrightarrow>
     fst ` set updates' = fst ` set updates \<union> fst ` set sp"
proof (induction sp arbitrary: updates)
  case (Cons e sp)
  obtain g b ap where e: "e = (g, b, ap)" by (cases e)
  from Cons.prems e obtain y where "delayed_second_phase U um sp (AList.update g y updates) = Inr updates'"
    by auto
  from Cons.IH [OF this] e show ?case by (simp add: dom_update)
qed simp

lemma two_phases_spec:
  assumes p1: "delayed_first_phase U um cs [] [] = Inr (us, sp)"
    and p2: "delayed_second_phase U um sp us = Inr us'"
    and dist: "distinct (map fst cs)" and chain: "no_current_chain U cs"
  shows "distinct (map fst us') \<and>
     (case map_of us' f of None \<Rightarrow> fetch_delayed_field U f um | Some v \<Rightarrow> Some v) = delayed_spec U um cs f"
proof -
  note f1 = first_phase_spec [OF p1 dist, simplified]
  have sp: "sp = currents U cs" using f1 by simp
  have us: "map_of us f = (case map_of cs f of None \<Rightarrow> None
      | Some change \<Rightarrow> if current_base U f change = None then own_value U um f change else None)" for f
    using f1 by (auto split: option.split)
  have total: "map_of cs f = Some change \<Longrightarrow> current_base U f change = None \<Longrightarrow>
      own_value U um f change \<noteq> None" for f change
    using f1 by simp
  note f2 = second_phase_spec [OF p2, unfolded sp, OF distinct_currents [OF dist]
      chain [unfolded no_current_chain_def]]
  have us': "map_of us' f = (case map_of (currents U cs) f of None \<Rightarrow> map_of us f
      | Some (b, ap) \<Rightarrow> applied U ap
         (case map_of us b of None \<Rightarrow> fetch_delayed_field U b um | Some v \<Rightarrow> Some v))" for f
    using f2 by simp
  note cur = map_of_currents [OF dist, of U]
  have base: "(case map_of us b of None \<Rightarrow> fetch_delayed_field U b um | Some v \<Rightarrow> Some v) =
      value_or_old U um cs b" if "map_of (currents U cs) b = None" for b
    using that total [of b] us [of b] cur [of b]
    by (cases "map_of cs b") (auto simp: value_or_old_def)
  have "(case map_of us' f of None \<Rightarrow> fetch_delayed_field U f um | Some v \<Rightarrow> Some v) = delayed_spec U um cs f"
  proof (cases "map_of (currents U cs) f")
    case None
    with total [of f] us [of f] us' [of f] cur [of f] show ?thesis
      by (cases "map_of cs f") (auto simp: delayed_spec_def)
  next
    case (Some bap)
    obtain b ap where bap: "bap = (b, ap)" by (cases bap)
    have mem: "(f, b, ap) \<in> set (currents U cs)" using map_of_SomeD [OF Some] bap by simp
    then have "b \<notin> fst ` set (currents U cs)" using chain unfolding no_current_chain_def by blast
    then have b: "map_of (currents U cs) b = None" by (simp add: map_of_eq_None_iff)
    have "f \<in> fst ` set us'" using second_phase_keys [OF p2] sp mem by force
    then obtain v where v: "map_of us' f = Some v" by (metis map_of_eq_None_iff not_None_eq)
    then have "applied U ap (value_or_old U um cs b) = Some v"
      using us' [of f] Some bap base [OF b] by simp
    with v Some bap cur [of f] show ?thesis
      by (auto simp: delayed_spec_def split: option.splits)
  qed
  then show ?thesis using f1 f2 by simp
qed

lemma fold_frame:
  "(\<And>x um. x \<in> set xs \<Longrightarrow> g (h x um) = g um) \<Longrightarrow> g (fold h xs um) = g um"
  by (induction xs arbitrary: um) auto

lemma write_groups_delayed:
  assumes "delayed_contract U"
  shows "fetch_delayed_field U g (snd (insert_group_ops U k ops um)) = fetch_delayed_field U g um"
    and "fetch_delayed_field U g (snd (write_groups U gs um)) = fetch_delayed_field U g um"
proof -
  note C = assms [unfolded delayed_contract_def]
  have ops: "fetch_delayed_field U g (snd (insert_group_ops U k ops um)) = fetch_delayed_field U g um" for k ops um
  proof (induction ops arbitrary: um)
    case (Cons op ops)
    obtain t v l where op: "op = (t, v, l)" by (cases op)
    obtain r um1 where r: "insert_group_op U k t v l um = (r, um1)" by (cases "insert_group_op U k t v l um")
    have "fetch_delayed_field U g (snd (insert_group_op U k t v l um)) = fetch_delayed_field U g um"
      using C by blast
    with Cons.IH r op show ?case by (cases r) simp_all
  qed simp
  show "fetch_delayed_field U g (snd (insert_group_ops U k ops um)) = fetch_delayed_field U g um"
    by (rule ops)
  show "fetch_delayed_field U g (snd (write_groups U gs um)) = fetch_delayed_field U g um"
  proof (induction gs arbitrary: um)
    case (Cons x gs)
    obtain k m os where x: "x = (k, m, os)" by (cases x)
    obtain r um1 where r: "insert_group_ops U k os um = (r, um1)" by (cases "insert_group_ops U k os um")
    have "fetch_delayed_field U g um1 = fetch_delayed_field U g um" using ops [of k os um] r by simp
    with Cons.IH C r x show ?case by (cases r) simp_all
  qed simp
qed

lemma fold_write_delayed:
  assumes "delayed_contract U"
  shows "distinct (map fst us) \<Longrightarrow>
    fetch_delayed_field U g (fold (\<lambda>(f, v). write_delayed_field U f v) us um) =
     (case map_of us g of None \<Rightarrow> fetch_delayed_field U g um | Some v \<Rightarrow> Some v)"
proof (induction us arbitrary: um)
  case (Cons u us)
  obtain f v where u: "u = (f, v)" by (cases u)
  have "map_of us f = None" using Cons.prems u by (simp add: map_of_eq_None_iff)
  moreover have "fetch_delayed_field U g (write_delayed_field U f v um) =
      (if g = f then Some v else fetch_delayed_field U g um)"
    using assms by (simp add: delayed_contract_def)
  ultimately show ?case using Cons u by (auto split: option.splits)
qed simp

lemma map_of_permuted:
  assumes "mset ys = mset xs" and "distinct (map fst xs)"
  shows "distinct (map fst ys) \<and> map_of ys = map_of xs"
proof -
  have "mset (map fst ys) = mset (map fst xs)" using assms(1) by (metis mset_map)
  then have "distinct (map fst ys)" using assms(2) by (metis mset_eq_imp_distinct_iff)
  moreover have "set ys = set xs" using assms(1) by (rule mset_eq_setD)
  ultimately show ?thesis using assms(2) map_of_inject_set by blast
qed

lemma apply_output_sequential_delayed:
  assumes U: "delayed_contract U" and order: "\<And>xs. mset (order xs) = mset xs"
    and dist: "distinct (map fst (delayed_field_change_set output))"
    and chain: "no_current_chain U (delayed_field_change_set output)"
    and run: "apply_output_sequential U order output ws um = Inr (Inr (), um')"
  shows "fetch_delayed_field U f um' = delayed_spec U um (delayed_field_change_set output) f"
proof -
  let ?cs = "delayed_field_change_set output"
  note C = U [unfolded delayed_contract_def]
  define um1 where "um1 = fold (\<lambda>(key, write_op, layout). um_write U key write_op layout) ws um"
  obtain r um2 where g: "write_groups U (resource_group_write_set output) um1 = (r, um2)"
    by (cases "write_groups U (resource_group_write_set output) um1")
  define um3 where "um3 = fold (\<lambda>(key, write_op). um_write U key write_op None) (aggregator_v1_write_set output) um2"
  define um4 where "um4 = fold (\<lambda>(key, write_op). write_module U key write_op) (module_write_set output) um3"
  from run g obtain us sp us' where
    p1: "delayed_first_phase U um4 ?cs [] [] = Inr (us, sp)"
    and p2: "delayed_second_phase U um4 sp us = Inr us'"
    and um': "um' = fold (\<lambda>(fid, value). write_delayed_field U fid value) (order us') um4"
    by (auto simp: apply_output_sequential_def um1_def [symmetric] um3_def [symmetric] um4_def [symmetric] Let_def
        split: sum.splits)
  have same: "fetch_delayed_field U b um4 = fetch_delayed_field U b um" for b
  proof -
    have "fetch_delayed_field U b um1 = fetch_delayed_field U b um"
      unfolding um1_def by (rule fold_frame) (use C in \<open>auto\<close>)
    moreover have "fetch_delayed_field U b um2 = fetch_delayed_field U b um1"
      using write_groups_delayed(2) [OF U, of b "resource_group_write_set output" um1] g by simp
    moreover have "fetch_delayed_field U b um3 = fetch_delayed_field U b um2"
      unfolding um3_def by (rule fold_frame) (use C in \<open>auto\<close>)
    moreover have "fetch_delayed_field U b um4 = fetch_delayed_field U b um3"
      unfolding um4_def by (rule fold_frame) (use C in \<open>auto\<close>)
    ultimately show ?thesis by simp
  qed
  note spec = two_phases_spec [OF p1 p2 dist chain]
  have "fetch_delayed_field U f um' =
      (case map_of us' f of None \<Rightarrow> fetch_delayed_field U f um4 | Some v \<Rightarrow> Some v)"
    using fold_write_delayed [OF U] map_of_permuted [OF order] spec [of f] unfolding um' by simp
  also have "\<dots> = delayed_spec U um4 ?cs f" using spec by blast
  also have "\<dots> = delayed_spec U um ?cs f"
    by (simp add: delayed_spec_def value_or_old_def own_value_def same cong: option.case_cong
        DelayedChange.case_cong ApplyBase.case_cong)
  finally show ?thesis .
qed

section \<open>The sequential loop\<close>

text \<open>What one pass does to the vector of outputs and to the log of the hook.\<close>

definition pushes where
  "pushes Q hook fallback step \<longleftrightarrow> (\<forall>idx txn st r st'. step idx txn st = Inr (r, st') \<longrightarrow>
     (case r of
        Inl e \<Rightarrow> ret st' = ret st \<and>
          (\<forall>err. e = ErrorToReturn (FatalVMError err) \<longrightarrow>
             seq_hook_log st' = seq_hook_log st @ (if hook then [on_execution_aborted idx] else []))
      | Inr Discarded \<Rightarrow> fallback \<and> seq_hook_log st' = seq_hook_log st \<and>
          ret st' = ret st @ [discard_output Q DELAYED_MATERIALIZATION_CODE_INVARIANT_ERROR]
      | Inr (Pushed _) \<Rightarrow> (\<exists>out. ret st' = ret st @ [out] \<and>
          seq_hook_log st' = seq_hook_log st @ (if hook then [on_transaction_committed idx out] else []))))"

lemma account_sequential_frame:
  "account_sequential Q B txn vw output st = Inr st' \<Longrightarrow>
     ret st' = ret st \<and> seq_hook_log st' = seq_hook_log st"
  by (auto simp: account_sequential_def Let_def case_prod_unfold)

lemma materialize_sequential_error:
  "materialize_sequential Q U vw um output = Inl e \<Longrightarrow> e \<noteq> ErrorToReturn (FatalVMError err)"
  by (auto simp: materialize_sequential_def split: sum.splits if_splits)

lemma apply_output_sequential_error:
  "apply_output_sequential U order output ws um = Inr (Inl e, um') \<Longrightarrow> e \<noteq> ErrorToReturn (FatalVMError err)"
  by (auto simp: apply_output_sequential_def Let_def split: sum.splits prod.splits)

lemma commit_sequential_pushes:
  fixes r :: "'e SequentialBlockExecutionError + seq_exit"
  assumes "commit_sequential Q U B order hook fallback idx txn vw must_skip output st = Inr (r, st')"
  shows "case r of
        Inl e \<Rightarrow> ret st' = ret st \<and> (\<forall>err. e \<noteq> ErrorToReturn (FatalVMError err))
      | Inr Discarded \<Rightarrow> fallback \<and> seq_hook_log st' = seq_hook_log st \<and>
          ret st' = ret st @ [discard_output Q DELAYED_MATERIALIZATION_CODE_INVARIANT_ERROR]
      | Inr (Pushed _) \<Rightarrow> (\<exists>out. ret st' = ret st @ [out] \<and>
          seq_hook_log st' = seq_hook_log st @ (if hook then [on_transaction_committed idx out] else []))"
proof -
  from assms obtain st1 where a: "account_sequential Q B txn vw output st = Inr st1"
    by (auto simp: commit_sequential_def)
  note fr = account_sequential_frame [OF a]
  define output1 where "output1 = materialize_agg_v1 Q output vw (unsync_map st1)"
  define check where
    "check = (if fallback then serialization_error Q U (unsync_map st1) output1 else Inr False)"
  have body: "commit_sequential Q U B order hook fallback idx txn vw must_skip output st =
     rbind (assert_that (length (aggregator_v1_delta_set output1) = 0)) (\<lambda>_.
     rbind check (\<lambda>failed.
     if failed
     then Inr (Inr Discarded,
            st1\<lparr>ret := ret st1 @ [discard_output Q DELAYED_MATERIALIZATION_CODE_INVARIANT_ERROR]\<rparr>)
     else
       rbind (apply_output_sequential U order output1 (resource_write_set output1) (unsync_map st1))
         (\<lambda>(r, um).
       let st2 = st1\<lparr>unsync_map := um\<rparr> in
       case r of
         Inl e \<Rightarrow> Inr (Inl e, st2)
       | Inr _ \<Rightarrow>
           (case materialize_sequential Q U vw um output1 of
              Inl e \<Rightarrow> Inr (Inl e, st2)
            | Inr output2 \<Rightarrow>
                Inr (Inr (Pushed must_skip),
                  st2\<lparr>seq_hook_log := seq_hook_log st2 @
                         (if hook then [on_transaction_committed idx output2] else []),
                      ret := ret st2 @ [output2]\<rparr>)))))"
    by (simp only: commit_sequential_def a rbind_Inr Let_def output1_def [symmetric] check_def [symmetric])
  note run = assms [unfolded body]
  from run obtain failed where f: "check = Inr failed" by auto
  from run have d: "length (aggregator_v1_delta_set output1) = 0" by auto
  show ?thesis
  proof (cases failed)
    case True
    with run f d fr show ?thesis by (auto simp: check_def split: if_splits)
  next
    case False
    from run f d False obtain r1 :: "'e SequentialBlockExecutionError + unit" and um where
      ap: "apply_output_sequential U order output1 (resource_write_set output1) (unsync_map st1) = Inr (r1, um)"
      by auto
    show ?thesis
    proof (cases r1)
      case (Inl e)
      with run f d False ap fr apply_output_sequential_error [OF ap [unfolded Inl]] show ?thesis
        by (auto simp: Let_def)
    next
      case (Inr u)
      define m :: "'e SequentialBlockExecutionError + _" where "m = materialize_sequential Q U vw um output1"
      have "\<forall>e err. m = Inl e \<longrightarrow> e \<noteq> ErrorToReturn (FatalVMError err)"
        unfolding m_def by (auto dest: materialize_sequential_error)
      with run f d False ap fr Inr show ?thesis
        by (cases m) (auto simp: Let_def m_def [symmetric])
    qed
  qed
qed

lemma seq_txn_pushes: "pushes Q hook fallback (seq_txn Q U B order vm hook fallback)"
  unfolding pushes_def
proof (intro allI impI)
  fix idx txn st r st'
  assume run: "seq_txn Q U B order vm hook fallback idx txn st = Inr (r, st')"
  obtain res vw um where vm: "vm txn idx (unsync_map st) = (res, vw, um)"
    by (cases "vm txn idx (unsync_map st)")
  show "case r of
        Inl e \<Rightarrow> ret st' = ret st \<and>
          (\<forall>err. e = ErrorToReturn (FatalVMError err) \<longrightarrow>
             seq_hook_log st' = seq_hook_log st @ (if hook then [on_execution_aborted idx] else []))
      | Inr Discarded \<Rightarrow> fallback \<and> seq_hook_log st' = seq_hook_log st \<and>
          ret st' = ret st @ [discard_output Q DELAYED_MATERIALIZATION_CODE_INVARIANT_ERROR]
      | Inr (Pushed _) \<Rightarrow> (\<exists>out. ret st' = ret st @ [out] \<and>
          seq_hook_log st' = seq_hook_log st @ (if hook then [on_transaction_committed idx out] else []))"
    using run vm
    by (cases res) (auto simp: seq_txn_def abort_sequential_def dest!: commit_sequential_pushes
        split: sum.splits seq_exit.splits)
qed

text \<open>
  The shape of a run: from position \<open>idx\<close> to \<open>m\<close> the loop pushed one output per
  transaction; the hook was called, in order, for the kept ones, with the output pushed for
  them; the others were discarded, which happens in the fallback only.
\<close>

definition pushed_shape where
  "pushed_shape Q hook fallback idx m keep st st' evs \<longleftrightarrow>
     idx \<le> m \<and> length (ret st') = m \<and> take idx (ret st') = ret st \<and>
     (\<forall>i. idx \<le> i \<longrightarrow> i < m \<longrightarrow> \<not> keep i \<longrightarrow>
        fallback \<and> ret st' ! i = discard_output Q DELAYED_MATERIALIZATION_CODE_INVARIANT_ERROR) \<and>
     seq_hook_log st' = seq_hook_log st @
       (if hook then map (\<lambda>i. on_transaction_committed i (ret st' ! i)) (filter keep [idx..<m]) else []) @ evs"

lemma pushed_shape_Cons:
  assumes IH: "pushed_shape Q hook fallback (Suc idx) m keep st1 st' evs"
    and ret: "ret st1 = ret st @ [out]" and len: "length (ret st) = idx"
    and b: "b \<or> fallback \<and> out = discard_output Q DELAYED_MATERIALIZATION_CODE_INVARIANT_ERROR"
    and hook: "seq_hook_log st1 = seq_hook_log st @ (if hook \<and> b then [on_transaction_committed idx out] else [])"
  shows "pushed_shape Q hook fallback idx m (keep(idx := b)) st st' evs"
proof -
  have m: "idx < m" "length (ret st') = m" "take (Suc idx) (ret st') = ret st @ [out]"
    using IH ret by (auto simp: pushed_shape_def)
  then have out: "ret st' ! idx = out" "take idx (ret st') = ret st"
    using len by (auto simp: take_Suc_conv_app_nth)
  have upt: "filter (keep(idx := b)) [idx..<m] = (if b then [idx] else []) @ filter keep [Suc idx..<m]"
    using m(1) by (auto simp: upt_conv_Cons intro!: filter_cong)
  have "fallback \<and> ret st' ! i = discard_output Q DELAYED_MATERIALIZATION_CODE_INVARIANT_ERROR"
    if "idx \<le> i" "i < m" "\<not> (keep(idx := b)) i" for i
  proof (cases "i = idx")
    case False
    with that have "Suc idx \<le> i" by simp
    with that False IH show ?thesis by (simp add: pushed_shape_def)
  qed (use that out(1) b in auto)
  moreover have "seq_hook_log st' = seq_hook_log st @ (if hook then
      map (\<lambda>i. on_transaction_committed i (ret st' ! i)) (filter (keep(idx := b)) [idx..<m]) else []) @ evs"
    unfolding upt using IH out(1) hook by (auto simp: pushed_shape_def)
  ultimately show ?thesis using m out(2) by (simp add: pushed_shape_def)
qed

lemma seq_loop_shape:
  assumes step: "pushes Q hook fallback step"
  shows "seq_loop B step n idx txns st = Inr (r, st') \<Longrightarrow> length (ret st) = idx \<Longrightarrow>
    (r = Inr () \<longrightarrow> (\<exists>m keep. m \<le> idx + length txns \<and> pushed_shape Q hook fallback idx m keep st st' [])) \<and>
    (\<forall>err. r = Inl (ErrorToReturn (FatalVMError err)) \<longrightarrow>
       (\<exists>m keep. m < idx + length txns \<and>
          pushed_shape Q hook fallback idx m keep st st' (if hook then [on_execution_aborted m] else [])))"
proof (induction txns arbitrary: idx st)
  case Nil
  then show ?case by (auto simp: pushed_shape_def intro!: exI [of _ "length (ret st)"])
next
  case (Cons txn txns)
  from Cons.prems(1) obtain r1 st1 where s1: "step idx txn st = Inr (r1, st1)" by auto
  note P = step [unfolded pushes_def, rule_format, OF s1]
  show ?case
  proof (cases r1)
    case (Inl e)
    with Cons.prems s1 have "r = Inl e" "st' = st1" by auto
    with P Inl Cons.prems(2) show ?thesis
      by (auto simp: pushed_shape_def intro!: exI [of _ "length (ret st)"])
  next
    case (Inr x)
    obtain out b where out: "ret st1 = ret st @ [out]"
      "b \<or> fallback \<and> out = discard_output Q DELAYED_MATERIALIZATION_CODE_INVARIANT_ERROR"
      "seq_hook_log st1 = seq_hook_log st @ (if hook \<and> b then [on_transaction_committed idx out] else [])"
    proof (cases x)
      case Discarded
      with P Inr that [of "discard_output Q DELAYED_MATERIALIZATION_CODE_INVARIANT_ERROR" False]
      show thesis by simp
    next
      case (Pushed s)
      with P Inr that [of _ True] show thesis by auto
    qed
    have len: "length (ret st1) = Suc idx" using out(1) Cons.prems(2) by simp
    note lift = pushed_shape_Cons [OF _ out(1) Cons.prems(2) out(2,3)]
    show ?thesis
    proof (cases "seq_loop B step n (Suc idx) txns st1 = Inr (r, st')")
      case True
      have "idx + length (txn # txns) = Suc idx + length txns" by simp
      with Cons.IH [OF True len] lift show ?thesis by (simp only:) blast
    next
      case False
      with Cons.prems s1 Inr have "r = Inr ()" "st' = st1"
        by (auto split: seq_exit.splits if_splits)
      moreover have "pushed_shape Q hook fallback idx (Suc idx) ((\<lambda>_. True)(idx := b)) st st1 []"
        by (rule lift) (use len in \<open>simp add: pushed_shape_def\<close>)
      moreover have "Suc idx \<le> idx + length (txn # txns)" by simp
      ultimately show ?thesis by blast
    qed
  qed
qed

section \<open>execute_block\<close>

lemma resize_with_length [simp]: "length (resize_with n x xs) = n"
  by (simp add: resize_with_def)

lemma resize_with_nth:
  "length xs \<le> n \<Longrightarrow> i < n \<Longrightarrow> resize_with n x xs ! i = (if i < length xs then xs ! i else x)"
  by (simp add: resize_with_def nth_append)

lemma sequential_runE:
  assumes "execute_transactions_sequential Q U B order vm hook um bl lio fallback block = Inr (res, evs)"
  obtains (fails) e st' where
      "seq_loop B (seq_txn Q U B order vm hook fallback) (length block) 0 block
         \<lparr> unsync_map = um, limit = bl, module_io = lio, ret = [], seq_hook_log = [] \<rparr> = Inr (Inl e, st')"
      "res = Inl e" "evs = seq_hook_log st'"
    | (succeeds) st' where
      "seq_loop B (seq_txn Q U B order vm hook fallback) (length block) 0 block
         \<lparr> unsync_map = um, limit = bl, module_io = lio, ret = [], seq_hook_log = [] \<rparr> = Inr (Inr (), st')"
      "res = Inr (resize_with (length block) (skip_output Q) (ret st'))" "evs = seq_hook_log st'"
proof -
  from assms obtain r st' where loop: "seq_loop B (seq_txn Q U B order vm hook fallback) (length block) 0 block
         \<lparr> unsync_map = um, limit = bl, module_io = lio, ret = [], seq_hook_log = [] \<rparr> = Inr (r, st')"
    by (auto simp: execute_transactions_sequential_def Let_def)
  with assms that show thesis
    by (cases r) (simp_all add: execute_transactions_sequential_def)
qed

lemma sequential_length:
  "execute_transactions_sequential Q U B order vm hook um bl lio fallback block = Inr (Inr outs, evs) \<Longrightarrow>
     length outs = length block"
  by (erule sequential_runE) auto

definition sequential_result where
  "sequential_result Q U B order vm hook um bl lio block fallback =
     rbind (execute_transactions_sequential Q U B order vm hook um bl lio fallback block) (\<lambda>(r, evs). Inr r)"

lemma sequential_result_length:
  "sequential_result Q U B order vm hook um bl lio block fallback = Inr (Inr outs) \<Longrightarrow> length outs = length block"
  by (auto simp: sequential_result_def dest: sequential_length)

lemma sequential_shape:
  assumes "execute_transactions_sequential Q U B order vm hook um bl lio fallback block = Inr (Inr outs, evs)"
  shows "\<exists>m keep. m \<le> length block \<and> (\<forall>i. m \<le> i \<longrightarrow> i < length block \<longrightarrow> outs ! i = skip_output Q) \<and>
       (\<forall>i<m. \<not> keep i \<longrightarrow>
          fallback \<and> outs ! i = discard_output Q DELAYED_MATERIALIZATION_CODE_INVARIANT_ERROR) \<and>
       evs = (if hook then map (\<lambda>i. on_transaction_committed i (outs ! i)) (filter keep [0..<m]) else [])"
proof -
  let ?st = "\<lparr> unsync_map = um, limit = bl, module_io = lio, ret = [], seq_hook_log = [] \<rparr>"
  from assms obtain st' where
    loop: "seq_loop B (seq_txn Q U B order vm hook fallback) (length block) 0 block ?st = Inr (Inr (), st')"
    and outs: "outs = resize_with (length block) (skip_output Q) (ret st')" and evs: "evs = seq_hook_log st'"
    by (cases rule: sequential_runE) auto
  from seq_loop_shape [OF seq_txn_pushes loop] obtain m keep where
    m: "m \<le> length block" and sh: "pushed_shape Q hook fallback 0 m keep ?st st' []" by auto
  from sh have len: "length (ret st') = m" by (simp add: pushed_shape_def)
  have nth: "outs ! i = (if i < m then ret st' ! i else skip_output Q)" if "i < length block" for i
    using that m len by (simp add: outs resize_with_nth)
  have "map (\<lambda>i. on_transaction_committed i (outs ! i)) (filter keep [0..<m]) =
      map (\<lambda>i. on_transaction_committed i (ret st' ! i)) (filter keep [0..<m])"
    using m nth by auto
  then show ?thesis
    using sh m nth by (intro exI [of _ m] exI [of _ keep]) (auto simp: pushed_shape_def evs)
qed

lemma sequential_abort_shape:
  assumes "execute_transactions_sequential Q U B order vm True um bl lio False block =
      Inr (Inl (ErrorToReturn (FatalVMError err)), evs)"
  shows "\<exists>m outs. m < length block \<and> length outs = m \<and>
    evs = map (\<lambda>i. on_transaction_committed i (outs ! i)) [0..<m] @ [on_execution_aborted m]"
proof -
  let ?st = "\<lparr> unsync_map = um, limit = bl, module_io = lio, ret = [], seq_hook_log = [] \<rparr>"
  from assms obtain st' where
    loop: "seq_loop B (seq_txn Q U B order vm True False) (length block) 0 block ?st =
       Inr (Inl (ErrorToReturn (FatalVMError err)), st')" and evs: "evs = seq_hook_log st'"
    by (cases rule: sequential_runE) auto
  from seq_loop_shape [OF seq_txn_pushes loop] obtain m keep where
    m: "m < length block" and sh: "pushed_shape Q True False 0 m keep ?st st' [on_execution_aborted m]" by auto
  from sh have "filter keep [0..<m] = [0..<m]" by (auto simp: pushed_shape_def filter_id_conv)
  then show ?thesis
    using sh m by (intro exI [of _ m] exI [of _ "ret st'"]) (auto simp: pushed_shape_def evs)
qed

lemma outcome_cases:
  obtains (panics) e where "x = Inl e"
    | (serialization) "x = Inr (Inl ResourceGroupSerializationError)"
    | (to_return) e where "x = Inr (Inl (ErrorToReturn e))" | (outputs) outs where "x = Inr (Inr outs)"
proof (cases x)
  case (Inr y)
  with that show thesis by (cases y; cases "projl y") auto
qed (rule that)

lemma execute_block_length_of:
  assumes "execute_block config par seq discard block = Inr (Inr outs)"
    and "\<And>outs. 1 < concurrency_level config \<Longrightarrow> par = Inr (Some outs) \<Longrightarrow> length outs = length block"
    and "\<And>fallback outs. seq fallback = Inr (Inr outs) \<Longrightarrow> length outs = length block"
  shows "length outs = length block"
proof (cases "1 < concurrency_level config \<and> par \<noteq> Inr None")
  case True
  show ?thesis
  proof (cases par)
    case (Inr o1)
    with True assms(1,2) show ?thesis by (cases o1) (auto simp: execute_block_def)
  qed (use True assms(1) in \<open>simp add: execute_block_def\<close>)
next
  case False
  with assms(1) have "execute_block (config\<lparr>concurrency_level := 0\<rparr>) par seq discard block = Inr (Inr outs)"
    by (auto simp: execute_block_def Let_def split: if_splits cong: if_cong)
  with assms(3) show ?thesis
    by (cases "seq False" rule: outcome_cases; cases "seq True" rule: outcome_cases)
      (auto simp: execute_block_def Let_def split: if_splits)
qed

lemma execute_block_total:
  assumes "discard_failed_blocks config" and "allow_fallback config"
  shows "(\<exists>outs. execute_block config par seq discard block = Inr (Inr outs)) \<or>
    (\<exists>e. execute_block config par seq discard block = Inl e \<and>
       (par = Inl e \<or> (\<exists>fallback. seq fallback = Inl e)))"
proof -
  have s: "(\<exists>outs. execute_block config (Inr None) seq discard block = Inr (Inr outs)) \<or>
    (\<exists>e. execute_block config (Inr None) seq discard block = Inl e \<and> (\<exists>fallback. seq fallback = Inl e))"
    by (cases "seq False" rule: outcome_cases; cases "seq True" rule: outcome_cases)
      (simp_all add: execute_block_def Let_def assms, blast+)
  show ?thesis
  proof (cases "1 < concurrency_level config")
    case True
    consider (panics) e where "par = Inl e" | (none) "par = Inr None" | (some) outs where "par = Inr (Some outs)"
      by (metis sum.exhaust option.exhaust)
    then show ?thesis
    proof cases
      case none
      with s show ?thesis by blast
    qed (use True in \<open>simp_all add: execute_block_def\<close>)
  next
    case False
    then have "execute_block config par seq discard block = execute_block config (Inr None) seq discard block"
      by (simp add: execute_block_def)
    with s show ?thesis by metis
  qed
qed

section \<open>A concrete map and a concrete block\<close>

definition field_map :: "(nat \<Rightarrow> nat option, nat, nat, nat, nat, nat, nat, nat) UnsyncMap" where
  "field_map =
     \<lparr> um_write = \<lambda>k v l um. um, insert_group_op = \<lambda>k t v l um. (Inr (), um),
       write_module = \<lambda>k v um. um, fetch_delayed_field = \<lambda>f um. um f,
       write_delayed_field = \<lambda>f v um. um(f \<mapsto> v), um_finalize_group = \<lambda>k um. [],
       get_apply_base_id = \<lambda>ap f. if ap = 0 then Previous f else Current ap,
       apply_to_base = \<lambda>ap v. Inr (v + 10) \<rparr>"

lemma field_map_contract: "delayed_contract field_map"
  by (simp add: delayed_contract_def field_map_def)

definition counter_output where
  "counter_output = sample_output\<lparr>delayed_field_change_set := [(2, Apply 1), (1, Apply 0), (3, Create 9)]\<rparr>"

definition plain_ops :: "((nat, nat, nat, nat, nat, nat, nat, nat, unit) TxnOutput, nat \<Rightarrow> nat option, unit,
    nat, nat, nat, nat, nat, nat, nat, nat, nat, nat, nat, nat, unit) SequentialOps" where
  "plain_ops =
     \<lparr> output_fee_statement = \<lambda>out. 0, approx_size = \<lambda>out. 0, user_txn_bytes_len = \<lambda>t. 0,
       take_sequential_reads = \<lambda>vw. 0, new_read_write_summary = \<lambda>rd out. 0,
       materialize_agg_v1 = \<lambda>out vw um. out, group_reads_needing_exchange = \<lambda>out. [],
       is_deletion = \<lambda>v. False, extract_raw_bytes = \<lambda>v. Some v, bcs_to_bytes_is_err = \<lambda>g. False,
       output_groups_to_finalize = \<lambda>out. [], seq_map_finalized_group = \<lambda>k g v b. Inr 0,
       seq_group_writes = \<lambda>g vw um. Inr [], seq_serialize_groups = \<lambda>g. Inr [],
       seq_writes_to_materialize = \<lambda>w out um. Inr [], seq_write_set = \<lambda>w vw um. Inr [],
       seq_events = \<lambda>out vw um. Inr [], incorporate_materialized_txn_output = \<lambda>w e out. Inr out,
       view_is_incorrect_use = \<lambda>vw. False, skip_output = sample_output,
       discard_output = \<lambda>c. sample_output \<rparr>"

definition plain_limit :: "(unit, unit, nat, nat, nat, nat) SequentialLimit" where
  "plain_limit =
     \<lparr> seq_accumulate_fee_statement = \<lambda>f s a b. b, should_end_block_sequential = \<lambda>b. False,
       process_module_rw_conflict = \<lambda>b. b, check_and_append_module_rw_conflict = \<lambda>r k l. (False, l),
       seq_block_output_limit = None, seq_include_user_txn_size = False,
       seq_conflict_penalty_window = None \<rparr>"

text \<open>The first transaction of the block changes three fields and skips the rest; a third index aborts.\<close>

definition skipping_vm :: "unit \<Rightarrow> nat \<Rightarrow> (nat \<Rightarrow> nat option) \<Rightarrow>
    ((nat, nat, nat, nat, nat, nat, nat, nat, unit) TxnOutput, nat) TaskStatus \<times> unit \<times> (nat \<Rightarrow> nat option)" where
  "skipping_vm txn idx um = (TaskSkipRest counter_output, (), um)"

definition aborting_vm :: "unit \<Rightarrow> nat \<Rightarrow> (nat \<Rightarrow> nat option) \<Rightarrow>
    ((nat, nat, nat, nat, nat, nat, nat, nat, unit) TxnOutput, nat) TaskStatus \<times> unit \<times> (nat \<Rightarrow> nat option)" where
  "aborting_vm txn idx um = (if idx = 0 then TaskSuccess counter_output else TaskAbort 5, (), um)"

definition two_workers where
  "two_workers = \<lparr>concurrency_level = 2, allow_fallback = True, discard_failed_blocks = True\<rparr>"

lemmas plain_defs =
  execute_transactions_sequential_def seq_txn_def commit_sequential_def account_sequential_def
  abort_sequential_def apply_output_sequential_def materialize_sequential_def resize_with_def
  field_map_def plain_ops_def plain_limit_def counter_output_def sample_output_def
  skipping_vm_def aborting_vm_def Let_def

lemma skipping_run:
  "execute_transactions_sequential plain_ops field_map plain_limit id skipping_vm True [1 \<mapsto> 5] () () False [(), ()] =
     Inr (Inr [counter_output, sample_output], [on_transaction_committed 0 counter_output])"
  by (simp add: plain_defs)

lemma aborting_run:
  "execute_transactions_sequential plain_ops field_map plain_limit id aborting_vm True [1 \<mapsto> 5] () () False [(), ()] =
     Inr (Inl (ErrorToReturn (FatalVMError 5)),
       [on_transaction_committed 0 counter_output, on_execution_aborted 1])"
  by (simp add: plain_defs)

section \<open>Properties\<close>

text \<open>
  C15. Applying an output sequentially gives every delayed field the value of the phase-free,
  order-free specification \<open>delayed_spec\<close>, whatever order the hash map of updates is drained
  in, as long as no change against a current value is based on another such change.
\<close>

theorem apply_output_sequential_spec:
  assumes "delayed_contract U" and "\<forall>xs. mset (order xs) = mset xs"
    and "distinct (map fst (delayed_field_change_set output))"
    and "no_current_chain U (delayed_field_change_set output)"
    and "apply_output_sequential U order output ws um = Inr (Inr (), um')"
  shows "fetch_delayed_field U f um' = delayed_spec U um (delayed_field_change_set output) f"
  using assms by (blast intro: apply_output_sequential_delayed)

theorem apply_output_sequential_spec_witness:
  "\<exists>um'. apply_output_sequential field_map rev counter_output [] [1 \<mapsto> 5] =
       Inr (Inr () :: nat SequentialBlockExecutionError + unit, um') \<and>
     fetch_delayed_field field_map 2 um' = Some 25"
proof -
  have run: "apply_output_sequential field_map rev counter_output [] [1 \<mapsto> 5] =
      Inr (Inr () :: nat SequentialBlockExecutionError + unit, [1 \<mapsto> 5, 2 \<mapsto> 25, 3 \<mapsto> 9, 1 \<mapsto> 15])"
    by (simp add: plain_defs)
  have "fetch_delayed_field field_map 2 [1 \<mapsto> 5, 2 \<mapsto> 25, 3 \<mapsto> 9, 1 \<mapsto> 15] =
      delayed_spec field_map [1 \<mapsto> 5] (delayed_field_change_set counter_output) 2"
    by (rule apply_output_sequential_spec [OF field_map_contract _ _ _ run])
      (simp_all add: plain_defs no_current_chain_def currents_def current_base_def)
  moreover have "delayed_spec field_map [1 \<mapsto> 5] (delayed_field_change_set counter_output) 2 = Some 25"
    by (simp add: plain_defs delayed_spec_def current_base_def value_or_old_def own_value_def applied_def)
  ultimately show ?thesis using run by (intro exI conjI) simp_all
qed


text \<open>
  C21. A sequential execution that succeeds returns one output per transaction: the outputs of
  the first m transactions, then skip outputs. The commit hook is called in block order with
  the returned outputs, for every one of the m transactions, except those that the BCS fallback
  replaced by a discarded output.
\<close>

theorem sequential_outputs:
  assumes "execute_transactions_sequential Q U B order vm hook um bl lio fallback block = Inr (Inr outs, evs)"
  shows "length outs = length block \<and>
    (\<exists>m keep. m \<le> length block \<and> (\<forall>i. m \<le> i \<longrightarrow> i < length block \<longrightarrow> outs ! i = skip_output Q) \<and>
       (\<forall>i<m. \<not> keep i \<longrightarrow>
          fallback \<and> outs ! i = discard_output Q DELAYED_MATERIALIZATION_CODE_INVARIANT_ERROR) \<and>
       evs = (if hook then map (\<lambda>i. on_transaction_committed i (outs ! i)) (filter keep [0..<m]) else []))"
  using sequential_length [OF assms] sequential_shape [OF assms] by blast

theorem sequential_outputs_witness:
  "execute_transactions_sequential plain_ops field_map plain_limit id skipping_vm True [1 \<mapsto> 5] () () False [(), ()] =
     Inr (Inr [counter_output, sample_output], [on_transaction_committed 0 counter_output]) \<and>
   length [counter_output, sample_output] = length [(), ()]"
  using skipping_run sequential_outputs [OF skipping_run] by blast

text \<open>
  When the VM aborts a sequential block, the block fails with that error, the hook has
  seen the commits of the transactions before the aborting one, and its last call is
  \<open>on_execution_aborted\<close> for the index of the aborting transaction.
\<close>

theorem sequential_vm_error:
  assumes "execute_transactions_sequential Q U B order vm True um bl lio False block =
      Inr (Inl (ErrorToReturn (FatalVMError err)), evs)"
  shows "\<exists>m outs. m < length block \<and> length outs = m \<and>
    evs = map (\<lambda>i. on_transaction_committed i (outs ! i)) [0..<m] @ [on_execution_aborted m]"
  using sequential_abort_shape [OF assms] .

theorem sequential_vm_error_witness:
  "\<exists>m outs. m < length [(), ()] \<and> length outs = m \<and>
    [on_transaction_committed 0 counter_output, on_execution_aborted 1] =
      map (\<lambda>i. on_transaction_committed i (outs ! i)) [0..<m] @ [on_execution_aborted m]"
  using sequential_vm_error [OF aborting_run] .

text \<open>
  C22. \<open>execute_block\<close> returns one output per transaction of the block, whichever path
  produced it: the parallel execution under any interleaving, the sequential one, the
  sequential one with the BCS fallback, or the discarded block.
\<close>

theorem execute_block_length:
  assumes "commit_contract S V vm cidx queued popped (length block)"
    and "cidx sch = 0" and "queued sch = []" and "popped sch = []"
    and "1 < concurrency_level config \<longrightarrow>
      execute_transactions_parallel M R L order idorder vm S V C BL Z ubl hook (concurrency_level config)
        (skip_output Q) mv io sch bl0 block par"
    and "execute_block config par (sequential_result Q U B order' seq_vm hook um bl lio block)
           (discard_output Q) block = Inr (Inr outs)"
  shows "length outs = length block"
proof (rule execute_block_length_of [OF assms(6)])
  show "length outs = length block" if "1 < concurrency_level config" "par = Inr (Some outs)" for outs
    by (rule parallel_length [OF assms(1)]) (use assms(5) that in simp)
  show "length outs = length block"
    if "sequential_result Q U B order' seq_vm hook um bl lio block fallback = Inr (Inr outs)" for fallback outs
    using that by (rule sequential_result_length)
qed

theorem execute_block_length_witness:
  "execute_block two_workers (Inr (Some [sample_output]))
     (sequential_result (plain_ops\<lparr>skip_output := other_output\<rparr>) field_map plain_limit id skipping_vm True
        Map.empty () () [()]) (discard_output plain_ops) [()] = Inr (Inr [sample_output]) \<and>
   length [sample_output] = length [()]"
    (is "?run \<and> _")
proof -
  have run: ?run by (simp add: execute_block_def two_workers_def)
  obtain p where
    p: "par_steps (counting_scheduler 1) sample_move
       (parallel_start 2 (length [()]) other_output sample_cache () (0, [], []) ()) p"
    "workers p = [Returned, Returned]" "parallel_result p = Inr (Some [sample_output])"
    using sample_pool_run run_schedule_par_steps by blast
  then have par: "1 < concurrency_level two_workers \<longrightarrow>
     execute_transactions_parallel map_cache sample_reads null_io id id null_vm (counting_scheduler 1)
       idle_validation null_table null_limit null_materializer (\<lambda>_. 0) True (concurrency_level two_workers)
       (skip_output (plain_ops\<lparr>skip_output := other_output\<rparr>))
       sample_cache () (0, [], []) () [()] (Inr (Some [sample_output]))"
    by (auto simp: execute_transactions_parallel_def two_workers_def intro!: exI [of _ p])
  have "length [sample_output] = length [()]"
    by (rule execute_block_length [OF _ _ _ _ par, of fst "fst \<circ> snd" "snd \<circ> snd"])
      (use counting_scheduler_contract [of 1] run in \<open>simp_all add: plain_ops_def\<close>)
  with run show ?thesis by blast
qed

text \<open>
  With \<open>discard_failed_blocks\<close> a block never fails, and with \<open>allow_fallback\<close> a panic
  of \<open>execute_block\<close> is a panic of one of the executions: the two \<open>panic!\<close> of the
  function itself are not reached.
\<close>

theorem execute_block_never_fails:
  assumes "discard_failed_blocks config" and "allow_fallback config"
  shows "(\<exists>outs. execute_block config par seq discard block = Inr (Inr outs)) \<or>
    (\<exists>e. execute_block config par seq discard block = Inl e \<and>
       (par = Inl e \<or> (\<exists>fallback. seq fallback = Inl e)))"
  using assms by (rule execute_block_total)


theorem execute_block_never_fails_witness:
  "execute_block \<lparr>concurrency_level = 1, allow_fallback = True, discard_failed_blocks = True\<rparr> (Inr None)
     (sequential_result plain_ops field_map plain_limit id aborting_vm True [1 \<mapsto> 5] () () [(), ()])
     (discard_output plain_ops) [(), ()] = Inr (Inr [sample_output, sample_output])"
  using execute_block_never_fails [of "\<lparr>concurrency_level = 1, allow_fallback = True, discard_failed_blocks = True\<rparr>" "Inr None"
     "sequential_result plain_ops field_map plain_limit id aborting_vm True [1 \<mapsto> 5] () () [(), ()]"
     "discard_output plain_ops" "[(), ()]"]
  by (simp add: execute_block_def sequential_result_def aborting_run del: One_nat_def) (simp add: plain_ops_def)

end
