(* ===== verification/Fake_Executor.thy ===== *)
theory Fake_Executor
  imports Peer_To_Peer
begin

text \<open>
  The executor of the Aptos end-to-end tests, \<^verbatim>\<open>e2e-tests/src/executor.rs\<close>, and the test
  drivers of \<^verbatim>\<open>account_universe.rs\<close> that run on it.

  \<^item> The data store, transaction outputs, the Aptos VM and the Move VM are not part of the
    repository: their types are type variables and their operations the records \<open>DataStore\<close>,
    \<open>OutputOps\<close>, \<open>BlockVm\<close> and \<open>MoveVm\<close>.
  \<^item> The trace directory is part of the state: \<open>World\<close> maps a directory to its files in the order
    they were created and holds the lines of the golden file. I/O errors other than a missing
    directory and an existing file do not occur in the model.
  \<^item> The thread pool has no state and is left out; environment variables are the parameter \<open>env\<close>.
\<close>

section \<open>What the executor uses\<close>

record ('ds, 'ws, 'k, 'v, 'mid, 'e) DataStore =
  ds_default :: 'ds
  ds_add_write_set :: "'ws \<Rightarrow> 'ds \<Rightarrow> 'ds"
  ds_add_account_data :: "AccountData \<Rightarrow> 'ds \<Rightarrow> 'ds"
  ds_add_coin_info :: "'ds \<Rightarrow> 'ds"
  ds_add_module :: "'mid \<Rightarrow> u8 list \<Rightarrow> 'ds \<Rightarrow> 'ds"
  ds_set :: "'k \<Rightarrow> 'v \<Rightarrow> 'ds \<Rightarrow> 'ds"
  get_state_value :: "'ds \<Rightarrow> 'k \<Rightarrow> 'e + 'v option"
  state_value_bytes :: "'v \<Rightarrow> u8 list"
  new_legacy :: "u8 list \<Rightarrow> 'v"

record ('out, 'ws, 'k, 'w, 'ev, 'fee) OutputOps =
  out_status :: "'out \<Rightarrow> TransactionStatus"
  out_write_set :: "'out \<Rightarrow> 'ws"
  write_set_entries :: "'ws \<Rightarrow> ('k \<times> 'w) list"
  out_events :: "'out \<Rightarrow> 'ev list"
  out_gas_used :: "'out \<Rightarrow> u64"
  extract_fee_statement :: "'out \<Rightarrow> 'fee option"
  default_fee_statement :: 'fee

datatype 'bm Transaction = UserTransaction SignedTransaction | BlockMetadata 'bm

record 'oc BlockExecutorConfig =
  cfg_concurrency_level :: nat
  cfg_allow_fallback :: bool
  cfg_discard_failed_blocks :: bool
  cfg_onchain :: 'oc

record ('ds, 'out, 'vtx, 'bm, 'oc, 'err) BlockVm =
  into_signature_verified_block :: "'bm Transaction list \<Rightarrow> 'vtx list"
  vm_execute_block :: "'vtx list \<Rightarrow> 'ds \<Rightarrow> 'oc BlockExecutorConfig \<Rightarrow> 'err + 'out list"
  on_but_large_for_test :: 'oc
  num_cpus :: nat

record ('rng, 'f) Defaults =
  rng_from_seed :: "u8 list \<Rightarrow> 'rng"
  default_features :: 'f
  chain_test :: u8
  chain_testnet :: u8
  chain_mainnet :: u8
  account_data_from_seed :: "'rng \<Rightarrow> u64 \<Rightarrow> u64 \<Rightarrow> AccountData \<times> 'rng"
  account_from_seed :: "'rng \<Rightarrow> Account \<times> 'rng"
  new_genesis_account :: "AccountAddress \<Rightarrow> Account"
  account_data_with_account :: "Account \<Rightarrow> u64 \<Rightarrow> u64 \<Rightarrow> AccountData"

section \<open>FakeExecutor\<close>

datatype ExecutorMode = SequentialOnly | ParallelOnly | BothComparison

record ('ds, 'ev, 'rng, 'f) FakeExecutor =
  data_store :: 'ds
  event_store :: "'ev list"
  block_time :: u64
  executed_output :: "string option"
  trace_dir :: "string list option"
  rng :: 'rng
  executor_mode :: "ExecutorMode option"
  features :: 'f
  chain_id :: u8
  allow_block_executor_fallback :: bool

definition RNG_SEED :: "u8 list" where
  "RNG_SEED = replicate 32 9"

definition apply_write_set where
  "apply_write_set D write_set self = self\<lparr>data_store := ds_add_write_set D write_set (data_store self)\<rparr>"

definition append_events where
  "append_events events self = self\<lparr>event_store := event_store self @ events\<rparr>"

definition add_account_data where
  "add_account_data D account_data self = self\<lparr>data_store := ds_add_account_data D account_data (data_store self)\<rparr>"

definition add_coin_info where
  "add_coin_info D self = self\<lparr>data_store := ds_add_coin_info D (data_store self)\<rparr>"

definition add_module where
  "add_module D module_id module_blob self = self\<lparr>data_store := ds_add_module D module_id module_blob (data_store self)\<rparr>"

definition no_genesis where
  "no_genesis D X =
     \<lparr> data_store = ds_default D, event_store = [], block_time = 0, executed_output = None, trace_dir = None,
       rng = rng_from_seed X RNG_SEED, executor_mode = None, features = default_features X,
       chain_id = chain_test X, allow_block_executor_fallback = True \<rparr>"

definition from_genesis where
  "from_genesis D X write_set chain =
     apply_write_set D write_set
     \<lparr> data_store = ds_default D, event_store = [], block_time = 0, executed_output = None, trace_dir = None,
       rng = rng_from_seed X RNG_SEED, executor_mode = None, features = default_features X,
       chain_id = chain, allow_block_executor_fallback = True \<rparr>"

definition from_head_genesis where
  "from_head_genesis D X genesis_change_set_head = from_genesis D X genesis_change_set_head (chain_test X)"

definition from_head_genesis_with_count where
  "from_head_genesis_with_count D X genesis_with_count cnt = from_genesis D X (genesis_with_count cnt) (chain_test X)"

definition from_testnet_genesis where
  "from_testnet_genesis D X genesis_change_set_testnet = from_genesis D X genesis_change_set_testnet (chain_testnet X)"

definition from_mainnet_genesis where
  "from_mainnet_genesis D X genesis_change_set_mainnet = from_genesis D X genesis_change_set_mainnet (chain_mainnet X)"

definition custom_genesis where
  "custom_genesis D X generate_test_genesis framework validator_accounts =
     from_genesis D X (generate_test_genesis framework validator_accounts) (chain_test X)"

definition stdlib_only_genesis where
  "stdlib_only_genesis D X head_modules =
     foldl (\<lambda>genesis (bytes, module_id). add_module D module_id bytes genesis) (no_genesis D X) head_modules"

definition set_executor_mode where
  "set_executor_mode mode self = self\<lparr>executor_mode := Some mode\<rparr>"

definition set_not_parallel where
  "set_not_parallel self = set_executor_mode SequentialOnly self"

definition set_parallel where
  "set_parallel self = set_executor_mode BothComparison self"

definition disable_block_executor_fallback where
  "disable_block_executor_fallback self = self\<lparr>allow_block_executor_fallback := False\<rparr>"

text \<open>Accounts.\<close>

definition create_raw_account where
  "create_raw_account X self = (let (a, r) = account_from_seed X (rng self) in (a, self\<lparr>rng := r\<rparr>))"

definition create_raw_account_data where
  "create_raw_account_data X bal seq_num self =
     (let (d, r) = account_data_from_seed X (rng self) bal seq_num in (d, self\<lparr>rng := r\<rparr>))"

fun create_accounts where
  "create_accounts D X 0 bal seq_num self = ([], self)"
| "create_accounts D X (Suc n) bal seq_num self =
     (let (d, r) = account_data_from_seed X (rng self) bal seq_num;
          (as, self') = create_accounts D X n bal seq_num (add_account_data D d (self\<lparr>rng := r\<rparr>))
      in (ad_account d # as, self'))"

definition new_account_data_at where
  "new_account_data_at D X addr self =
     (let acc = new_genesis_account X addr;
          data = account_data_with_account X acc 1000000000000000 0
      in (data, add_account_data D data self))"

definition new_account_at where
  "new_account_at D X addr self = (let (data, self') = new_account_data_at D X addr self in (ad_account data, self'))"

text \<open>Reading and writing state values.\<close>

definition read_resource where
  "read_resource D state_key from_bytes self addr =
     rbind (unwrap_ok (state_key addr)) (\<lambda>k.
     rbind (unwrap_ok (get_state_value D (data_store self) k)) (\<lambda>v.
     case v of
       None \<Rightarrow> Inl ExplicitPanic
     | Some data_blob \<Rightarrow>
         Inr (case from_bytes (state_value_bytes D data_blob) of Inl _ \<Rightarrow> None | Inr r \<Rightarrow> Some r)))"

definition read_state_value where
  "read_state_value D state_key self = unwrap_ok (get_state_value D (data_store self) state_key)"

definition read_state_value_bytes where
  "read_state_value_bytes D state_key self =
     rbind (unwrap_ok (get_state_value D (data_store self) state_key)) (\<lambda>v. Inr (map_option (state_value_bytes D) v))"

definition write_state_value where
  "write_state_value D state_key data_blob self =
     self\<lparr>data_store := ds_set D state_key (new_legacy D data_blob) (data_store self)\<rparr>"

section \<open>Golden files and traces\<close>

type_synonym path = "string list"

record World =
  directories :: "path \<Rightarrow> (string \<times> string) list option"
  golden_log :: "(string \<times> string) list"

text \<open>What is written to trace files, and how.\<close>

record ('ds, 'out, 'bm, 'err, 'e) TraceOps =
  ser_store :: "'ds \<Rightarrow> 'e + string"
  ser_txn :: "'bm Transaction \<Rightarrow> 'e + string"
  ser_out :: "'out \<Rightarrow> 'e + string"
  ser_map :: "nat \<times> nat list \<times> nat list \<Rightarrow> 'e + string"
  show_err :: "'err \<Rightarrow> string"
  show_output :: "'err + 'out list \<Rightarrow> string"

definition trace :: "(string \<times> string) list option \<Rightarrow> 'e + string \<Rightarrow> (nat \<times> (string \<times> string) list) res" where
  "trace dir item =
     (case dir of
        None \<Rightarrow> Inl UnwrapErr
      | Some files \<Rightarrow>
          let seq = length files
          in rbind (unwrap_ok item) (\<lambda>bytes.
             if map_of files (show_nat seq) \<noteq> None then Inl UnwrapErr
             else Inr (seq, files @ [(show_nat seq, bytes)])))"

definition trace_in :: "path \<Rightarrow> 'e + string \<Rightarrow> World \<Rightarrow> (nat \<times> World) res" where
  "trace_in dir item w =
     rbind (trace (directories w dir) item) (\<lambda>(seq, files).
     Inr (seq, w\<lparr>directories := (directories w)(dir \<mapsto> files)\<rparr>))"

fun trace_each :: "path \<Rightarrow> ('e + string) list \<Rightarrow> World \<Rightarrow> (nat list \<times> World) res" where
  "trace_each dir [] w = Inr ([], w)"
| "trace_each dir (item # items) w =
     rbind (trace_in dir item w) (\<lambda>(seq, w1).
     rbind (trace_each dir items w1) (\<lambda>(seqs, w2).
     Inr (seq # seqs, w2)))"

definition trace_inputs where
  "trace_inputs Z txn_block self w =
     (case trace_dir self of
        None \<Rightarrow> Inr ((0, [], [] :: nat list), w)
      | Some dir \<Rightarrow>
          rbind (trace_in (dir @ [''data'']) (ser_store Z (data_store self)) w) (\<lambda>(seq, w1).
          rbind (trace_each (dir @ [''input'']) (map (ser_txn Z) txn_block) w1) (\<lambda>(input_seqs, w2).
          Inr ((seq, input_seqs, []), w2))))"

definition write_new :: "path \<Rightarrow> string \<Rightarrow> string \<Rightarrow> World \<Rightarrow> World res" where
  "write_new dir file_name contents w =
     (case directories w dir of
        None \<Rightarrow> Inl UnwrapErr
      | Some files \<Rightarrow>
          if map_of files file_name \<noteq> None then Inl UnwrapErr
          else Inr (w\<lparr>directories := (directories w)(dir \<mapsto> files @ [(file_name, contents)])\<rparr>))"

definition trace_outputs where
  "trace_outputs Z output1 trace_map self w =
     (case trace_dir self of
        None \<Rightarrow> Inr w
      | Some dir \<Rightarrow>
          rbind (case output1 of
                   Inr results \<Rightarrow> trace_each (dir @ [''output'']) (map (ser_out Z) results) w
                 | Inl e \<Rightarrow> rbind (write_new dir ''error'' (show_err Z e) w) (\<lambda>w1. Inr ([], w1))) (\<lambda>(output_seqs, w1).
          rbind (trace_in (dir @ [''meta'']) (ser_map Z (fst trace_map, fst (snd trace_map), snd (snd trace_map) @ output_seqs)) w1)
            (\<lambda>(_, w2). Inr w2)))"

definition log_output where
  "log_output Z output1 self w =
     (case executed_output self of
        None \<Rightarrow> w
      | Some logger \<Rightarrow> w\<lparr>golden_log := golden_log w @ [(logger, show_output Z output1)]\<rparr>)"

text \<open>\<open>remove_dir_all\<close> and \<open>create_dir_all\<close>.\<close>

definition remove_dir_all :: "path \<Rightarrow> World \<Rightarrow> World" where
  "remove_dir_all dir w = w\<lparr>directories := (\<lambda>p. if take (length dir) p = dir then None else directories w p)\<rparr>"

definition create_dir_all :: "path \<Rightarrow> World \<Rightarrow> World" where
  "create_dir_all dir w =
     w\<lparr>directories := (\<lambda>p. if take (length p) dir = p \<and> directories w p = None then Some [] else directories w p)\<rparr>"

definition create_dir :: "path \<Rightarrow> World \<Rightarrow> World res" where
  "create_dir dir w =
     (if directories w dir \<noteq> None \<or> directories w (butlast dir) = None then Inl ExplicitPanic
      else Inr (w\<lparr>directories := (directories w)(dir \<mapsto> [])\<rparr>))"

definition set_tracing where
  "set_tracing env split_path fetch_version test_name file_name self w =
     (case env ''TRACE'' of
        None \<Rightarrow> Inr (self, w)
      | Some env_trace_dir \<Rightarrow>
          let aptos_version = (case fetch_version (data_store self) of None \<Rightarrow> 0 | Some v \<Rightarrow> v);
              dir = split_path env_trace_dir @ [file_name];
              w1 = (if directories w dir \<noteq> None then remove_dir_all dir w else w);
              w2 = create_dir_all dir w1
          in rbind (write_new dir ''name'' (test_name @ ''::'' @ show_nat aptos_version) w2) (\<lambda>w3.
             rbind (foldM (\<lambda>w sub_dir. create_dir (dir @ [sub_dir]) w) w3 [''meta'', ''data'', ''input'', ''output'']) (\<lambda>w4.
             Inr (self\<lparr>trace_dir := Some dir\<rparr>, w4))))"

definition set_golden_file where
  "set_golden_file env split_path fetch_version test_name self w =
     (let file_name = map (\<lambda>c. if c = CHR '':'' then CHR ''_'' else c) test_name
      in set_tracing env split_path fetch_version test_name file_name (self\<lparr>executed_output := Some file_name\<rparr>) w)"

definition set_golden_file_at where
  "set_golden_file_at env split_path fetch_version new_at_path golden_path test_name self w =
     (let file_name = map (\<lambda>c. if c = CHR '':'' then CHR ''_'' else c) test_name
      in set_tracing env split_path fetch_version test_name file_name
           (self\<lparr>executed_output := Some (new_at_path golden_path file_name)\<rparr>) w)"

section \<open>Executing blocks\<close>

definition execute_transaction_block_impl_with_state_view where
  "execute_transaction_block_impl_with_state_view V txn_block onchain_config sequential state_view self =
     vm_execute_block V txn_block state_view
       \<lparr> cfg_concurrency_level = (if sequential then 1 else min 4 (num_cpus V)),
         cfg_allow_fallback = allow_block_executor_fallback self,
         cfg_discard_failed_blocks = False, cfg_onchain = onchain_config \<rparr>"

definition differing_writes where
  "differing_writes O1 o1 o2 =
     (let ws1 = write_set_entries O1 (out_write_set O1 o1); ws2 = write_set_entries O1 (out_write_set O1 o2)
      in filter (\<lambda>k. map_of ws1 k \<noteq> map_of ws2 k) (remdups (map fst ws1 @ map fst ws2)))"

definition fee_statement_of where
  "fee_statement_of O1 o1 = (case extract_fee_statement O1 o1 of Some f \<Rightarrow> f | None \<Rightarrow> default_fee_statement O1)"

definition assert_pair_equal where
  "assert_pair_equal O1 o1 o2 =
     rbind (assert_that (fee_statement_of O1 o1 = fee_statement_of O1 o2)) (\<lambda>_.
     rbind (assert_that (differing_writes O1 o1 o2 = [])) (\<lambda>_.
     assert_that (o1 = o2)))"

definition assert_outputs_equal where
  "assert_outputs_equal O1 txns_output_1 txns_output_2 =
     rbind (assert_that (length txns_output_1 = length txns_output_2)) (\<lambda>_.
     foldM (\<lambda>_ (o1, o2). assert_pair_equal O1 o1 o2) () (zip txns_output_1 txns_output_2))"

definition mode_of where
  "mode_of env self =
     (case executor_mode self of
        Some mode \<Rightarrow> mode
      | None \<Rightarrow> if env ''E2E_PARALLEL_EXEC'' \<noteq> None then BothComparison else SequentialOnly)"

definition compare_outputs where
  "compare_outputs O1 sequential_output parallel_output =
     (case (sequential_output, parallel_output) of
        (Inr txns_output_1, Inr txns_output_2) \<Rightarrow> assert_outputs_equal O1 txns_output_1 txns_output_2
      | _ \<Rightarrow> assert_that (sequential_output = parallel_output))"

definition execute_transaction_block_with_state_view where
  "execute_transaction_block_with_state_view V O1 Z env txn_block state_view self w =
     rbind (trace_inputs Z txn_block self w) (\<lambda>(trace_map, w1).
     let block = into_signature_verified_block V txn_block;
         mode = mode_of env self;
         sequential_output = (if mode \<noteq> ParallelOnly
           then Some (execute_transaction_block_impl_with_state_view V block (on_but_large_for_test V) True state_view self)
           else None);
         parallel_output = (if mode \<noteq> SequentialOnly
           then Some (execute_transaction_block_impl_with_state_view V block (on_but_large_for_test V) False state_view self)
           else None)
     in rbind (if mode = BothComparison
               then rbind (unwrap sequential_output) (\<lambda>s. rbind (unwrap parallel_output) (\<lambda>p. compare_outputs O1 s p))
               else Inr ()) (\<lambda>_.
        rbind (unwrap (case sequential_output of Some s \<Rightarrow> Some s | None \<Rightarrow> parallel_output)) (\<lambda>output1.
        rbind (trace_outputs Z output1 trace_map self (log_output Z output1 self w1)) (\<lambda>w2.
        Inr (output1, w2)))))"

definition execute_transaction_block where
  "execute_transaction_block V O1 Z env txn_block self w =
     execute_transaction_block_with_state_view V O1 Z env txn_block (data_store self) self w"

definition FakeExecutor_execute_block where
  "FakeExecutor_execute_block V O1 Z env txn_block self w =
     execute_transaction_block V O1 Z env (map UserTransaction txn_block) self w"

text \<open>\<open>Vec::pop\<close>\<close>

definition pop_last :: "'a list \<Rightarrow> 'a option" where
  "pop_last xs = (if xs = [] then None else Some (last xs))"

definition execute_transaction where
  "execute_transaction V O1 Z env txn self w =
     rbind (FakeExecutor_execute_block V O1 Z env [txn] self w) (\<lambda>(r, w').
     rbind (unwrap_ok r) (\<lambda>outputs.
     rbind (unwrap (pop_last outputs)) (\<lambda>output1. Inr (output1, w'))))"

definition execute_and_apply where
  "execute_and_apply V O1 D Z env transaction self w =
     rbind (FakeExecutor_execute_block V O1 Z env [transaction] self w) (\<lambda>(r, w').
     rbind (unwrap_ok r) (\<lambda>outputs.
     rbind (assert_that (length outputs = 1)) (\<lambda>_.
     rbind (unwrap (pop_last outputs)) (\<lambda>output1.
     case out_status O1 output1 of
       Keep status \<Rightarrow>
         (let self' = apply_write_set D (out_write_set O1 output1) self
          in rbind (assert_that (status = Success)) (\<lambda>_. Inr (output1, self', w')))
     | Discard status \<Rightarrow> Inl ExplicitPanic
     | Retry \<Rightarrow> Inl ExplicitPanic))))"

text \<open>
  Blocks with metadata. \<open>fetch_validators\<close> reads the validators' addresses from the store; the
  second event of the metadata transaction must be a version 1 event with the key of a new block
  event and a payload that deserialises to one.
\<close>

record ('ds, 'bm, 'ev) MetadataOps =
  fetch_validators :: "'ds \<Rightarrow> AccountAddress list option"
  block_metadata :: "AccountAddress \<Rightarrow> nat \<Rightarrow> nat list \<Rightarrow> u64 \<Rightarrow> 'bm"
  event_v1 :: "'ev \<Rightarrow> 'ev option"
  is_new_block_key :: "'ev \<Rightarrow> bool"
  is_new_block_event :: "'ev \<Rightarrow> bool"

definition is_discarded :: "TransactionStatus \<Rightarrow> bool" where
  "is_discarded st = (case st of Discard _ \<Rightarrow> True | _ \<Rightarrow> False)"

definition apply_outputs where
  "apply_outputs O1 D outputs self =
     foldl (\<lambda>(results, self) output1.
         let self' = (if \<not> is_discarded (out_status O1 output1)
                      then apply_write_set D (out_write_set O1 output1) self else self)
         in (results @ [(out_status O1 output1, out_gas_used O1 output1)], self'))
       ([], self) outputs"

definition run_block_with_metadata where
  "run_block_with_metadata V O1 D Z N env proposer failed_proposer_indices txns self w =
     rbind (unwrap (fetch_validators N (data_store self))) (\<lambda>validators.
     let new_block_metadata = block_metadata N proposer (length validators mod 65536) failed_proposer_indices (block_time self);
         txn_block = BlockMetadata new_block_metadata # map UserTransaction txns
     in rbind (execute_transaction_block V O1 Z env txn_block self w) (\<lambda>(r, w').
        rbind (unwrap_ok r) (\<lambda>outputs.
        rbind (index_at outputs 0) (\<lambda>output0.
        rbind (index_at (out_events O1 output0) 1) (\<lambda>ev.
        rbind (unwrap (event_v1 N ev)) (\<lambda>event.
        rbind (assert_that (is_new_block_key N event)) (\<lambda>_.
        rbind (assert_that (is_new_block_event N event)) (\<lambda>_.
        let (results, self') = apply_outputs O1 D outputs self
        in Inr (results, self', w')))))))))"

definition new_block_with_metadata where
  "new_block_with_metadata V O1 D Z N env proposer failed_proposer_indices self w =
     rbind (run_block_with_metadata V O1 D Z N env proposer failed_proposer_indices [] self w) (\<lambda>(_, self', w').
     Inr (self', w'))"

definition new_block_with_timestamp where
  "new_block_with_timestamp V O1 D Z N env time_microseconds self w =
     (let self1 = self\<lparr>block_time := time_microseconds\<rparr>
      in rbind (unwrap (fetch_validators N (data_store self1))) (\<lambda>validators.
         rbind (unwrap (case validators of [] \<Rightarrow> None | p # _ \<Rightarrow> Some p)) (\<lambda>proposer.
         new_block_with_metadata V O1 D Z N env proposer [] self1 w)))"

definition new_block where
  "new_block V O1 D Z N env self w =
     rbind (add_c (block_time self) 1) (\<lambda>t. new_block_with_timestamp V O1 D Z N env t self w)"

definition set_block_time where
  "set_block_time new_block_time self = self\<lparr>block_time := new_block_time\<rparr>"

definition get_block_time_seconds :: "('ds, 'ev, 'rng, 'f) FakeExecutor \<Rightarrow> u64" where
  "get_block_time_seconds self = block_time self div 1000000"

section \<open>Calling Move functions\<close>

text \<open>
  The Move VM. \<open>vm_config\<close> names the gas parameters and features a VM is created with. The session
  is the state of an execution; \<open>expressions\<close> are the gas expressions it recorded, and
  \<open>execute_timed\<close> is the time a call takes in microseconds.
\<close>

datatype GasMeterType = RegularGasMeter | UnmeteredGasMeter

datatype vm_config = InitialGas | ZeroGas | ZeroGasWithHook | ZeroGasNoOverride | StateGas

record ('ds, 'vm, 'ss, 'cs, 'ws, 'ev, 'mid, 'ty, 'fn, 'x, 'f, 'e) MoveVm =
  move_vm_new :: "vm_config \<Rightarrow> u8 \<Rightarrow> 'f \<Rightarrow> 'ds \<Rightarrow> 'e + 'vm"
  new_session :: "'vm \<Rightarrow> 'ds \<Rightarrow> 'ss"
  new_identifier :: "string \<Rightarrow> 'e + string"
  core_module :: "string \<Rightarrow> 'mid"
  load_function :: "'mid \<Rightarrow> string \<Rightarrow> 'ty list \<Rightarrow> 'ss \<Rightarrow> ('e + 'fn) \<times> 'ss"
  execute_function_bypass_visibility :: "'mid \<Rightarrow> string \<Rightarrow> 'ty list \<Rightarrow> u8 list list \<Rightarrow> 'ss \<Rightarrow> ('e + unit) \<times> 'ss"
  execute_timed :: "GasMeterType \<Rightarrow> 'mid \<Rightarrow> string \<Rightarrow> 'ty list \<Rightarrow> u8 list list \<Rightarrow> 'ss \<Rightarrow> 128 word"
  expressions :: "'ss \<Rightarrow> 'x list"
  gas_parameters :: "'f \<Rightarrow> 'ds \<Rightarrow> ('e + unit) \<times> ('e + unit)"
  struct_constructors_enabled :: "'f \<Rightarrow> bool"
  combine_signer_and_txn_args :: "AccountAddress list \<Rightarrow> u8 list list \<Rightarrow> 'fn \<Rightarrow> bool \<Rightarrow> 'ss \<Rightarrow> ('e + u8 list list) \<times> 'ss"
  execute_entry_function :: "'mid \<Rightarrow> string \<Rightarrow> 'ty list \<Rightarrow> u8 list list \<Rightarrow> 'ss \<Rightarrow> ('e + unit) \<times> 'ss"
  finish_session :: "'ss \<Rightarrow> 'e + 'cs"
  materialize_delta_set :: "'ds \<Rightarrow> 'cs \<Rightarrow> 'e + 'cs"
  into_storage_change_set :: "'cs \<Rightarrow> 'e + 'ws \<times> 'ev list"
  address_bytes :: "AccountAddress \<Rightarrow> 'e + u8 list"

record ('mid, 'ty) EntryFunction =
  entry_module :: 'mid
  entry_function :: string
  entry_ty_args :: "'ty list"
  entry_args :: "u8 list list"

definition exec_module where
  "exec_module M D module_id function_name type_params args self =
     rbind (unwrap_ok (move_vm_new M ZeroGas (chain_id self) (features self) (data_store self))) (\<lambda>vm.
     rbind (unwrap_ok (new_identifier M function_name)) (\<lambda>name.
     let (r, session) = execute_function_bypass_visibility M module_id name type_params args
                          (new_session M vm (data_store self))
     in rbind (case r of Inl _ \<Rightarrow> Inl ExplicitPanic | Inr _ \<Rightarrow> Inr ()) (\<lambda>_.
        rbind (unwrap_ok (finish_session M session)) (\<lambda>change_set.
        rbind (unwrap_ok (into_storage_change_set M change_set)) (\<lambda>(write_set, events).
        Inr (append_events events (apply_write_set D write_set self)))))))"

definition exec where
  "exec M D module_name function_name type_params args self =
     rbind (unwrap_ok (new_identifier M module_name)) (\<lambda>name.
     exec_module M D (core_module M name) function_name type_params args self)"

definition try_exec where
  "try_exec M module_name function_name type_params args self =
     rbind (unwrap_ok (move_vm_new M ZeroGasNoOverride (chain_id self) (features self) (data_store self))) (\<lambda>vm.
     rbind (unwrap_ok (new_identifier M module_name)) (\<lambda>module1.
     rbind (unwrap_ok (new_identifier M function_name)) (\<lambda>name.
     case execute_function_bypass_visibility M (core_module M module1) name type_params args
            (new_session M vm (data_store self)) of
       (Inl e, _) \<Rightarrow> Inr (Inl e)
     | (Inr _, session) \<Rightarrow>
         rbind (unwrap_ok (finish_session M session)) (\<lambda>change_set.
         rbind (unwrap_ok (into_storage_change_set M change_set)) (\<lambda>p. Inr (Inr p))))))"

definition try_exec_entry_with_state_view where
  "try_exec_entry_with_state_view M senders entry_fn state_view feats self =
     rbind (unwrap_ok (fst (gas_parameters M feats state_view))) (\<lambda>_.
     rbind (unwrap_ok (snd (gas_parameters M feats state_view))) (\<lambda>_.
     rbind (unwrap_ok (move_vm_new M StateGas (chain_id self) feats state_view)) (\<lambda>vm.
     case load_function M (entry_module entry_fn) (entry_function entry_fn) (entry_ty_args entry_fn)
            (new_session M vm state_view) of
       (Inl e, _) \<Rightarrow> Inr (Inl e)
     | (Inr function, session1) \<Rightarrow>
         (case combine_signer_and_txn_args M senders (entry_args entry_fn) function
                 (struct_constructors_enabled M feats) session1 of
            (Inl e, _) \<Rightarrow> Inr (Inl e)
          | (Inr args, session2) \<Rightarrow>
              (case execute_entry_function M (entry_module entry_fn) (entry_function entry_fn)
                      (entry_ty_args entry_fn) args session2 of
                 (Inl e, _) \<Rightarrow> Inr (Inl e)
               | (Inr _, session3) \<Rightarrow>
                   rbind (unwrap_ok (finish_session M session3)) (\<lambda>change_set.
                   case materialize_delta_set M state_view change_set of
                     Inl e \<Rightarrow> Inr (Inl e)
                   | Inr change_set' \<Rightarrow>
                       rbind (unwrap_ok (into_storage_change_set M change_set')) (\<lambda>p. Inr (Inr p))))))))"

definition exec_abstract_usage where
  "exec_abstract_usage M D module_id function_name type_params args self =
     rbind (unwrap_ok (move_vm_new M ZeroGasWithHook (chain_id self) (features self) (data_store self))) (\<lambda>vm.
     rbind (unwrap_ok (new_identifier M function_name)) (\<lambda>name.
     let (_, session) = execute_function_bypass_visibility M module_id name type_params args
                          (new_session M vm (data_store self))
     in rbind (unwrap_ok (finish_session M session)) (\<lambda>change_set.
        rbind (unwrap_ok (into_storage_change_set M change_set)) (\<lambda>(write_set, _).
        Inr (expressions M session, apply_write_set D write_set self)))))"

subsection \<open>Running times\<close>

datatype ExecFuncTimerDynamicArgs =
    NoArgs
  | DistinctSigners
  | DistinctSignersAndFixed "AccountAddress list"

fun extra_accounts where
  "extra_accounts D X random_address 0 self = ([], self)"
| "extra_accounts D X random_address (Suc n) self =
     (let (a, self1) = new_account_at D X (random_address (Suc n)) self;
          (as, self2) = extra_accounts D X random_address n self1
      in (address a # as, self2))"

text \<open>The arguments of one iteration: the next extra account is taken from the end.\<close>

definition dynamic_arguments where
  "dynamic_arguments M dynamic_args extra args =
     (case dynamic_args of
        NoArgs \<Rightarrow> Inr (args, extra)
      | DistinctSigners \<Rightarrow>
          rbind (unwrap (pop_last extra)) (\<lambda>a.
          rbind (unwrap_ok (address_bytes M a)) (\<lambda>b. Inr (b # args, butlast extra)))
      | DistinctSignersAndFixed signers \<Rightarrow>
          rbind (mapM (\<lambda>signer. unwrap_ok (address_bytes M signer)) signers) (\<lambda>fixed.
          rbind (unwrap (pop_last extra)) (\<lambda>a.
          rbind (unwrap_ok (address_bytes M a)) (\<lambda>b. Inr (b # fixed @ args, butlast extra)))))"

fun time_iterations where
  "time_iterations M vm module_id function_name type_params args dynamic_args meter ds 0 extra = Inr []"
| "time_iterations M vm module_id function_name type_params args dynamic_args meter ds (Suc n) extra =
     rbind (unwrap_ok (new_identifier M function_name)) (\<lambda>name.
     let session = snd (load_function M module_id name type_params (new_session M vm ds))
     in rbind (dynamic_arguments M dynamic_args extra args) (\<lambda>(arg, extra').
        let elapsed = execute_timed M meter module_id name type_params arg session
        in rbind (time_iterations M vm module_id function_name type_params args dynamic_args meter ds n extra') (\<lambda>ts.
           Inr (elapsed # ts))))"

definition median_time :: "(128 word) list \<Rightarrow> (128 word) res" where
  "median_time ts =
     (let sorted_times = sort ts;
          len = length sorted_times;
          mid = len div 2
      in rbind (index_at sorted_times mid) (\<lambda>running_time.
         if len mod 2 = 0 then
           rbind (sub_nat mid 1) (\<lambda>before.
           rbind (index_at sorted_times before) (\<lambda>lower.
           rbind (add_c lower running_time) (\<lambda>total.
           Inr (total div 2))))
         else Inr running_time))"

definition exec_func_record_running_time where
  "exec_func_record_running_time M D X random_address module_id function_name type_params args iterations
       dynamic_args meter self =
     (let (extra, self1) = (case dynamic_args of
            NoArgs \<Rightarrow> ([], self)
          | _ \<Rightarrow> extra_accounts D X random_address iterations self)
      in rbind (unwrap_ok (move_vm_new M (case meter of RegularGasMeter \<Rightarrow> InitialGas | UnmeteredGasMeter \<Rightarrow> ZeroGas)
                  (chain_id self1) (features self1) (data_store self1))) (\<lambda>vm.
         rbind (time_iterations M vm module_id function_name type_params args dynamic_args meter (data_store self1)
                  iterations extra) (\<lambda>ts.
         rbind (median_time ts) (\<lambda>running_time.
         Inr (running_time, self1)))))"

section \<open>The drivers of the universe tests\<close>

text \<open>
  The account and coin resources of the framework. The drivers return \<open>Ok\<close> or the first failed
  check as a value of \<open>TestCaseError\<close>; a panic stays a panic. \<open>transaction_status_eq\<close> is a
  parameter.
\<close>

record ('ar, 'cr, 'k, 'e) ResourceOps =
  account_key :: "AccountAddress \<Rightarrow> 'e + 'k"
  account_from_bytes :: "u8 list \<Rightarrow> 'e + 'ar"
  coin_store_key :: "AccountAddress \<Rightarrow> 'e + 'k"
  coin_store_from_bytes :: "u8 list \<Rightarrow> 'e + 'cr"
  authentication_key :: "'ar \<Rightarrow> u8 list"
  resource_sequence_number :: "'ar \<Rightarrow> u64"
  coin :: "'cr \<Rightarrow> u64"

datatype TestCaseError =
    UnexpectedStatus nat
  | UnexpectedGas nat
  | OutputCount
  | WrongAuthKey nat
  | WrongBalance nat
  | WrongSequenceNumber nat

definition read_account_resource where
  "read_account_resource D Q self acc = read_resource D (account_key Q) (account_from_bytes Q) self (address acc)"

definition read_coin_store_resource where
  "read_coin_store_resource D Q self acc = read_resource D (coin_store_key Q) (coin_store_from_bytes Q) self (address acc)"

definition assert_account_match where
  "assert_account_match D Q self idx acc =
     rbind (read_account_resource D Q self (account acc)) (\<lambda>r1.
     rbind (unwrap r1) (\<lambda>resource.
     rbind (read_coin_store_resource D Q self (account acc)) (\<lambda>r2.
     rbind (unwrap r2) (\<lambda>coin_store_resource.
     Inr (if auth_key (account acc) \<noteq> authentication_key Q resource then Inl (WrongAuthKey idx)
          else if balance acc \<noteq> coin Q coin_store_resource then Inl (WrongBalance idx)
          else if sequence_number acc \<noteq> resource_sequence_number Q resource then Inl (WrongSequenceNumber idx)
          else Inr ())))))"

fun assert_accounts_from where
  "assert_accounts_from D Q self idx [] = Inr (Inr ())"
| "assert_accounts_from D Q self idx (acc # accs) =
     rbind (assert_account_match D Q self idx acc) (\<lambda>r.
     case r of Inl e \<Rightarrow> Inr (Inl e) | Inr _ \<Rightarrow> assert_accounts_from D Q self (Suc idx) accs)"

definition assert_accounts_match where
  "assert_accounts_match D Q universe self = assert_accounts_from D Q self 0 (accounts universe)"

fun check_gas_costs where
  "check_gas_costs O1 status_eq idx [] = Inr ()"
| "check_gas_costs O1 status_eq idx ((output1, status, gas) # ps) =
     (if \<not> status_eq (out_status O1 output1) status then Inl (UnexpectedStatus idx)
      else if out_gas_used O1 output1 \<noteq> gas then Inl (UnexpectedGas idx)
      else check_gas_costs O1 status_eq (Suc idx) ps)"

definition run_and_assert_gas_cost_stability where
  "run_and_assert_gas_cost_stability V (O1 :: ('out, 'ws, 'k, 'w, 'ev, 'fee) OutputOps) D X Z env status_eq head apply_gen universe_gen gens w =
     (let (universe, executor) = setup_gas_cost_stability (\<lambda>ex d. add_account_data D d ex) universe_gen
             (from_head_genesis D X head :: ('ds, 'ev, 'rng, 'f) FakeExecutor)
      in rbind (apply_gens apply_gen gens universe) (\<lambda>(universe', outs).
         rbind (FakeExecutor_execute_block V O1 Z env (map fst outs) executor w) (\<lambda>(r, w').
         rbind (unwrap_ok r) (\<lambda>outputs.
         Inr (check_gas_costs O1 status_eq 0 (zip outputs (map snd outs)))))))"

fun check_and_apply where
  "check_and_apply O1 D status_eq idx [] self = Inr self"
| "check_and_apply O1 D status_eq idx ((output1, status) # ps) self =
     (if \<not> status_eq (out_status O1 output1) status then Inl (UnexpectedStatus idx)
      else check_and_apply O1 D status_eq (Suc idx) ps (apply_write_set D (out_write_set O1 output1) self))"

definition run_and_assert_universe where
  "run_and_assert_universe V (O1 :: ('out, 'ws, 'k, 'w, 'ev, 'fee) OutputOps) D X Z Q env status_eq head apply_gen universe_gen gens w =
     (let (universe, executor) = setup_universe (\<lambda>ex d. add_account_data D d ex) universe_gen
             (from_head_genesis D X head :: ('ds, 'ev, 'rng, 'f) FakeExecutor)
      in rbind (apply_gens apply_gen gens universe) (\<lambda>(universe', outs).
         rbind (FakeExecutor_execute_block V O1 Z env (map fst outs) executor w) (\<lambda>(r, w').
         rbind (unwrap_ok r) (\<lambda>outputs.
         if length outputs \<noteq> length outs then Inr (Inl OutputCount)
         else (case check_and_apply O1 D status_eq 0 (zip outputs (map (fst \<circ> snd) outs)) executor of
                 Inl e \<Rightarrow> Inr (Inl e)
               | Inr executor' \<Rightarrow> assert_accounts_match D Q universe' executor')))))"

section \<open>Comparing outputs\<close>

text \<open>The comparison by parts accepts equal lists only, and every pair of equal lists.\<close>

lemma assert_pair_equal_iff: "assert_pair_equal O1 o1 o2 = Inr () \<longleftrightarrow> o1 = o2"
  by (auto simp: assert_pair_equal_def differing_writes_def)

lemma assert_outputs_equal_iff: "assert_outputs_equal O1 xs ys = Inr () \<longleftrightarrow> xs = ys"
proof -
  have "foldM (\<lambda>_ (o1, o2). assert_pair_equal O1 o1 o2) () ps = Inr () \<longleftrightarrow> (\<forall>(o1, o2) \<in> set ps. o1 = o2)" for ps
    by (induction ps) (auto simp: assert_pair_equal_iff)
  then have "assert_outputs_equal O1 xs ys = Inr () \<longleftrightarrow> length xs = length ys \<and> (\<forall>(o1, o2) \<in> set (zip xs ys). o1 = o2)"
    by (simp add: assert_outputs_equal_def)
  also have "\<dots> \<longleftrightarrow> xs = ys"
    using list_all2_iff [of "(=)" xs ys] by (simp add: list.rel_eq)
  finally show ?thesis .
qed

lemma compare_outputs_iff: "compare_outputs O1 s p = Inr () \<longleftrightarrow> s = p"
  by (cases s; cases p) (simp_all add: compare_outputs_def assert_outputs_equal_iff)

end
