(* ===== verification/Executor_Results.thy ===== *)
theory Executor_Results
  imports Fake_Executor
begin

text \<open>
  The properties of the end-to-end test executor: what its modes return, what a traced block
  leaves in the trace directory, and what a universe test that passes says about the store.
\<close>

section \<open>Modes\<close>

abbreviation run_sequential where
  "run_sequential V txns sv self \<equiv>
     execute_transaction_block_impl_with_state_view V (into_signature_verified_block V txns) (on_but_large_for_test V) True sv self"

abbreviation run_parallel where
  "run_parallel V txns sv self \<equiv>
     execute_transaction_block_impl_with_state_view V (into_signature_verified_block V txns) (on_but_large_for_test V) False sv self"

text \<open>The output a mode gives, if it gives one.\<close>

definition mode_output where
  "mode_output V mode txns sv self =
     (case mode of
        SequentialOnly \<Rightarrow> Some (run_sequential V txns sv self)
      | ParallelOnly \<Rightarrow> Some (run_parallel V txns sv self)
      | BothComparison \<Rightarrow>
          if run_sequential V txns sv self = run_parallel V txns sv self then Some (run_sequential V txns sv self) else None)"

lemma compare_outputs_Inl: "s \<noteq> p \<Longrightarrow> \<exists>e. compare_outputs O1 s p = Inl e"
  using compare_outputs_iff [of O1 s p] by (cases "compare_outputs O1 s p") auto

lemma block_run:
  "execute_transaction_block_with_state_view V O1 Z env txns sv self w = Inr r \<longleftrightarrow>
   (\<exists>trace_map w1 out w2. trace_inputs Z txns self w = Inr (trace_map, w1) \<and>
      mode_output V (mode_of env self) txns sv self = Some out \<and>
      trace_outputs Z out trace_map self (log_output Z out self w1) = Inr w2 \<and> r = (out, w2))"
  by (cases "mode_of env self")
    (auto simp: execute_transaction_block_with_state_view_def mode_output_def Let_def compare_outputs_iff unwrap_def)

section \<open>Traces\<close>

lemma show_nat_inject: "show_nat m = show_nat n \<longleftrightarrow> m = n"
  using show_nat_digits [of m] show_nat_digits [of n] by metis

text \<open>A directory whose files were numbered from zero in the order of their creation.\<close>

definition numbered :: "(string \<times> string) list \<Rightarrow> bool" where
  "numbered files \<longleftrightarrow> map fst files = map show_nat [0..<length files]"

lemma numbered_lookup:
  assumes "numbered files" and "k < length files"
  shows "map_of files (show_nat k) = Some (snd (files ! k))"
proof -
  have fst: "map fst files = map show_nat [0..<length files]" using assms(1) by (simp add: numbered_def)
  have "distinct (map fst files)" unfolding fst by (simp add: distinct_map inj_on_def show_nat_inject)
  moreover have "fst (files ! k) = show_nat k"
    using fst assms(2) by (metis nth_map nth_upt add_0 length_upt diff_zero length_map)
  then have "(show_nat k, snd (files ! k)) \<in> set files" using assms(2) by (metis nth_mem prod.collapse)
  ultimately show ?thesis by simp
qed

lemma numbered_fresh: "numbered files \<Longrightarrow> length files \<le> k \<Longrightarrow> map_of files (show_nat k) = None"
  unfolding map_of_eq_None_iff numbered_def set_map [symmetric] by (auto simp: show_nat_inject)

lemma numbered_snoc: "numbered files \<Longrightarrow> numbered (files @ [(show_nat (length files), b)])"
  by (simp add: numbered_def)

text \<open>The files after tracing items.\<close>

definition traced :: "(string \<times> string) list \<Rightarrow> string list \<Rightarrow> (string \<times> string) list" where
  "traced files items = files @ zip (map show_nat [length files..<length files + length items]) items"

lemma traced_Nil [simp]: "traced files [] = files"
  by (simp add: traced_def)

lemma traced_Cons: "traced files (b # bs) = traced (files @ [(show_nat (length files), b)]) bs"
  by (simp add: traced_def upt_conv_Cons del: upt_Suc)

lemma traced_numbered: "numbered files \<Longrightarrow> numbered (traced files bs)"
proof (induction bs arbitrary: files)
  case (Cons b bs)
  from Cons.IH [OF numbered_snoc [OF Cons.prems]] show ?case by (simp add: traced_Cons)
qed simp

lemma traced_nth:
  assumes "numbered files" and "i < length items"
  shows "map_of (traced files items) (show_nat (length files + i)) = Some (items ! i)"
  using numbered_lookup [OF traced_numbered [OF assms(1)], of "length files + i" items] assms(2)
  by (simp add: traced_def nth_append)

lemma trace_in_ok:
  assumes "directories w dir = Some files" and "numbered files"
  shows "trace_in dir (Inr b) w =
    Inr (length files, w\<lparr>directories := (directories w)(dir \<mapsto> files @ [(show_nat (length files), b)])\<rparr>)"
  using assms numbered_fresh [OF assms(2)] by (simp add: trace_in_def trace_def Let_def)

lemma trace_each_ok:
  "directories w dir = Some files \<Longrightarrow> numbered files \<Longrightarrow>
   trace_each dir (map Inr bs) w =
     Inr ([length files..<length files + length bs], w\<lparr>directories := (directories w)(dir \<mapsto> traced files bs)\<rparr>)"
proof (induction bs arbitrary: w files)
  case Nil
  then have "(directories w)(dir \<mapsto> files) = directories w" by (simp add: fun_upd_idem)
  with Nil show ?case by simp
next
  case (Cons b bs)
  let ?files = "files @ [(show_nat (length files), b)]"
  let ?w = "w\<lparr>directories := (directories w)(dir \<mapsto> ?files)\<rparr>"
  from Cons.IH [of ?w ?files] numbered_snoc [OF Cons.prems(2)] show ?case
    by (simp add: trace_in_ok [OF Cons.prems] traced_Cons upt_conv_Cons del: upt_Suc cong: if_cong)
qed

text \<open>A trace directory that is ready: its four subdirectories exist and are numbered.\<close>

definition trace_ready where
  "trace_ready w dir files \<longleftrightarrow>
     (\<forall>sub. sub \<in> {''data'', ''input'', ''output'', ''meta''} \<longrightarrow>
        directories w (dir @ [sub]) = Some (files sub) \<and> numbered (files sub))"

lemma traced_single: "files @ [(show_nat (length files), b)] = traced files [b]"
  by (simp add: traced_def)

lemma trace_inputs_ok:
  assumes "trace_dir self = Some dir" and ready: "trace_ready w dir files"
    and "ser_store Z (data_store self) = Inr b0" and "map (ser_txn Z) txns = map Inr ins"
  shows "\<exists>w1. trace_inputs Z txns self w =
      Inr ((length (files ''data''), [length (files ''input'')..<length (files ''input'') + length ins], []), w1) \<and>
    trace_ready w1 dir (files(''data'' := traced (files ''data'') [b0], ''input'' := traced (files ''input'') ins))"
proof -
  let ?d = "directories w" and ?data = "traced (files ''data'') [b0]" and ?input = "traced (files ''input'') ins"
  let ?w1 = "w\<lparr>directories := ?d(dir @ [''data''] \<mapsto> ?data)\<rparr>"
  let ?w2 = "w\<lparr>directories := ?d(dir @ [''data''] \<mapsto> ?data, dir @ [''input''] \<mapsto> ?input)\<rparr>"
  have 1: "trace_in (dir @ [''data'']) (Inr b0) w = Inr (length (files ''data''), ?w1)"
    using ready by (subst trace_in_ok [of _ _ "files ''data''"]) (auto simp: trace_ready_def traced_single)
  have 2: "trace_each (dir @ [''input'']) (map Inr ins) ?w1 =
      Inr ([length (files ''input'')..<length (files ''input'') + length ins], ?w2)"
    using ready by (subst trace_each_ok [of _ _ "files ''input''"]) (auto simp: trace_ready_def)
  have "trace_ready ?w2 dir (files(''data'' := ?data, ''input'' := ?input))"
    using ready by (auto simp: trace_ready_def traced_numbered)
  with 1 2 assms(1,3,4) show ?thesis by (auto simp: trace_inputs_def)
qed

lemma trace_outputs_ok:
  assumes "trace_dir self = Some dir" and ready: "trace_ready w dir files"
    and "map (ser_out Z) outs = map Inr os" and "ser_map Z (a, b, c @ [length (files ''output'')..<length (files ''output'') + length os]) = Inr m"
  shows "\<exists>w1. trace_outputs Z (Inr outs) (a, b, c) self w = Inr w1 \<and>
    trace_ready w1 dir (files(''output'' := traced (files ''output'') os, ''meta'' := traced (files ''meta'') [m]))"
proof -
  let ?d = "directories w" and ?out = "traced (files ''output'') os" and ?meta = "traced (files ''meta'') [m]"
  let ?w1 = "w\<lparr>directories := ?d(dir @ [''output''] \<mapsto> ?out)\<rparr>"
  let ?w2 = "w\<lparr>directories := ?d(dir @ [''output''] \<mapsto> ?out, dir @ [''meta''] \<mapsto> ?meta)\<rparr>"
  have 1: "trace_each (dir @ [''output'']) (map Inr os) w =
      Inr ([length (files ''output'')..<length (files ''output'') + length os], ?w1)"
    using ready by (subst trace_each_ok [of _ _ "files ''output''"]) (auto simp: trace_ready_def)
  have 2: "trace_in (dir @ [''meta'']) (Inr m) ?w1 = Inr (length (files ''meta''), ?w2)"
    using ready by (subst trace_in_ok [of _ _ "files ''meta''"]) (auto simp: trace_ready_def traced_single)
  have "trace_ready ?w2 dir (files(''output'' := ?out, ''meta'' := ?meta))"
    using ready by (auto simp: trace_ready_def traced_numbered)
  moreover have "trace_outputs Z (Inr outs) (a, b, c) self w = Inr ?w2"
    by (simp add: trace_outputs_def assms(1,3,4) 1 2)
  ultimately show ?thesis by blast
qed

lemma log_output_directories [simp]: "trace_ready (log_output Z out self w) dir files = trace_ready w dir files"
  by (simp add: log_output_def trace_ready_def split: option.split)

lemma traced_block:
  assumes dir: "trace_dir self = Some dir" and ready: "trace_ready w dir files"
    and ser: "ser_store Z (data_store self) = Inr b0" "map (ser_txn Z) txns = map Inr ins" "map (ser_out Z) outs = map Inr os"
      "\<And>m. ser_map Z m = Inr (smap m)"
    and out: "mode_output V (mode_of env self) txns sv self = Some (Inr outs)"
  shows "\<exists>w'. execute_transaction_block_with_state_view V O1 Z env txns sv self w = Inr (Inr outs, w') \<and>
    trace_ready w' dir
      (files(''data'' := traced (files ''data'') [b0], ''input'' := traced (files ''input'') ins,
         ''output'' := traced (files ''output'') os,
         ''meta'' := traced (files ''meta'') [smap (length (files ''data''),
           [length (files ''input'')..<length (files ''input'') + length ins],
           [length (files ''output'')..<length (files ''output'') + length os])]))"
proof -
  from trace_inputs_ok [OF dir ready ser(1,2)] obtain w1 where
    1: "trace_inputs Z txns self w =
      Inr ((length (files ''data''), [length (files ''input'')..<length (files ''input'') + length ins], []), w1)"
    and r1: "trace_ready w1 dir (files(''data'' := traced (files ''data'') [b0], ''input'' := traced (files ''input'') ins))"
    by blast
  let ?w1 = "log_output Z (Inr outs) self w1"
  let ?files = "files(''data'' := traced (files ''data'') [b0], ''input'' := traced (files ''input'') ins)"
  have "trace_ready ?w1 dir ?files" using r1 by simp
  from trace_outputs_ok [OF dir this ser(3,4), of "length (files ''data'')"
      "[length (files ''input'')..<length (files ''input'') + length ins]" "[]"] obtain w2 where
    2: "trace_outputs Z (Inr outs) (length (files ''data''),
        [length (files ''input'')..<length (files ''input'') + length ins], []) self ?w1 = Inr w2"
    and r2: "trace_ready w2 dir (?files(''output'' := traced (?files ''output'') os, ''meta'' := traced (?files ''meta'')
      [smap (length (files ''data''), [length (files ''input'')..<length (files ''input'') + length ins],
         [] @ [length (?files ''output'')..<length (?files ''output'') + length os])]))" by blast
  from 1 2 out have "execute_transaction_block_with_state_view V O1 Z env txns sv self w = Inr (Inr outs, w2)"
    unfolding block_run by blast
  with r2 show ?thesis by auto
qed

section \<open>Universe tests\<close>

text \<open>The balance that the store holds for an account.\<close>

definition stored_coin where
  "stored_coin D Q self acc =
     (case read_coin_store_resource D Q self acc of Inr (Some r) \<Rightarrow> coin Q r | _ \<Rightarrow> 0)"

lemma accounts_match:
  "assert_accounts_from D Q self idx accs = Inr (Inr ()) \<Longrightarrow> acc \<in> set accs \<Longrightarrow>
     stored_coin D Q self (account acc) = balance acc"
proof (induction accs arbitrary: idx)
  case (Cons a accs)
  from Cons.prems(1) obtain r where r: "assert_account_match D Q self idx a = Inr r"
    "(case r of Inl e \<Rightarrow> Inr (Inl e) | Inr _ \<Rightarrow> assert_accounts_from D Q self (Suc idx) accs) = Inr (Inr ())" by auto
  then have one: "assert_account_match D Q self idx a = Inr (Inr ())"
    and rest: "assert_accounts_from D Q self (Suc idx) accs = Inr (Inr ())" by (cases r; simp)+
  from one have "stored_coin D Q self (account a) = balance a"
    by (auto simp: assert_account_match_def stored_coin_def split: if_splits)
  with Cons rest show ?case by auto
qed simp

lemma check_and_apply_ok:
  "check_and_apply O1 D status_eq idx ps self = Inr self' \<Longrightarrow>
     (\<forall>(o1, st) \<in> set ps. status_eq (out_status O1 o1) st) \<and>
     self' = foldl (\<lambda>self (o1, st). apply_write_set D (out_write_set O1 o1) self) self ps"
  by (induction ps arbitrary: idx self) (fastforce split: if_splits)+

lemma foldl_zip_fst: "length xs = length ys \<Longrightarrow> foldl (\<lambda>s (x, y). f s x) s (zip xs ys) = foldl f s xs"
  by (induction xs ys arbitrary: s rule: list_induct2) auto

lemma zip_statuses:
  assumes "\<forall>(o1, st) \<in> set (zip outputs (map (fst \<circ> snd) outs)). status_eq (out_status O1 o1) st"
    and "length outputs = length outs" and "i < length outs"
  shows "status_eq (out_status O1 (outputs ! i)) (fst (snd (outs ! i)))"
proof -
  have "(outputs ! i, map (fst \<circ> snd) outs ! i) \<in> set (zip outputs (map (fst \<circ> snd) outs))"
    using assms(2,3) by (auto simp: set_zip)
  with assms(1,3) show ?thesis by auto
qed

lemma accepted_run:
  fixes O1 :: "('out, 'ws, 'k, 'w, 'ev, 'fee) OutputOps"
  assumes "run_and_assert_universe V O1 D X Z Q env status_eq head apply_gen g gens w = Inr (Inr ())"
  shows "\<exists>u outs outputs self self'. apply_gens apply_gen gens (AccountUniverse_new (gen_accounts g) (gen_pick_style g) False) = Inr (u, outs) \<and>
    mode_output V (mode_of env self) (map UserTransaction (map fst outs)) (data_store self) self = Some (Inr outputs) \<and>
    self = foldl (\<lambda>ex d. add_account_data D d ex) (from_head_genesis D X head :: (_, 'ev, _, _) FakeExecutor) (gen_accounts g) \<and>
    self' = foldl (\<lambda>self o1. apply_write_set D (out_write_set O1 o1) self) self outputs \<and>
    length outputs = length outs \<and>
    (\<forall>i<length outs. status_eq (out_status O1 (outputs ! i)) (fst (snd (outs ! i)))) \<and>
    (\<forall>acc \<in> set (accounts u). stored_coin D Q self' (account acc) = balance acc)"
proof -
  let ?self = "foldl (\<lambda>ex d. add_account_data D d ex) (from_head_genesis D X head :: (_, 'ev, _, _) FakeExecutor) (gen_accounts g)"
  from assms obtain u outs outputs w' self' where
    gens: "apply_gens apply_gen gens (AccountUniverse_new (gen_accounts g) (gen_pick_style g) False) = Inr (u, outs)"
    and exec: "FakeExecutor_execute_block V O1 Z env (map fst outs) ?self w = Inr (Inr outputs, w')"
    and len: "length outputs = length outs"
    and check: "check_and_apply O1 D status_eq 0 (zip outputs (map (fst \<circ> snd) outs)) ?self = Inr self'"
    and match: "assert_accounts_match D Q u self' = Inr (Inr ())"
    by (auto simp: run_and_assert_universe_def setup_universe_def split: if_splits sum.splits)
  from exec have out: "mode_output V (mode_of env ?self) (map UserTransaction (map fst outs)) (data_store ?self) ?self = Some (Inr outputs)"
    by (auto simp: FakeExecutor_execute_block_def execute_transaction_block_def block_run)
  note ok = check_and_apply_ok [OF check]
  have self': "self' = foldl (\<lambda>self o1. apply_write_set D (out_write_set O1 o1) self) ?self outputs"
    using ok len foldl_zip_fst [of outputs "map (fst \<circ> snd) outs" "\<lambda>self o1. apply_write_set D (out_write_set O1 o1) self"] by simp
  have "\<forall>i<length outs. status_eq (out_status O1 (outputs ! i)) (fst (snd (outs ! i)))"
    using ok len zip_statuses by blast
  moreover have "\<forall>acc \<in> set (accounts u). stored_coin D Q self' (account acc) = balance acc"
    using match accounts_match by (fastforce simp: assert_accounts_match_def)
  ultimately show ?thesis using gens out len self' by blast
qed

section \<open>A small executor\<close>

text \<open>
  A store without contents whose value at an address is the address, a VM whose output for a
  transaction is the concurrency level it ran with, and resources looked up in a list of accounts.
\<close>

definition unit_store :: "(unit, unit, u8 list, u8 list, unit, unit) DataStore" where
  "unit_store =
     \<lparr> ds_default = (), ds_add_write_set = \<lambda>ws ds. ds, ds_add_account_data = \<lambda>d ds. ds, ds_add_coin_info = \<lambda>ds. ds,
       ds_add_module = \<lambda>m b ds. ds, ds_set = \<lambda>k v ds. ds, get_state_value = \<lambda>ds k. Inr (Some k),
       state_value_bytes = \<lambda>v. v, new_legacy = \<lambda>b. b \<rparr>"

definition unit_defaults :: "(unit, unit) Defaults" where
  "unit_defaults =
     \<lparr> rng_from_seed = \<lambda>s. (), default_features = (), chain_test = 4, chain_testnet = 2, chain_mainnet = 1,
       account_data_from_seed = \<lambda>r b n. (sample_data 1 b, r), account_from_seed = \<lambda>r. (ad_account (sample_data 1 0), r),
       new_genesis_account = \<lambda>a. \<lparr>address = a, auth_key = []\<rparr>,
       account_data_with_account = \<lambda>a b n. \<lparr> ad_account = a, ad_balance = b, ad_sequence_number = n,
         ad_sent_events_count = 0, ad_received_events_count = 0 \<rparr> \<rparr>"

definition level_vm :: "(unit, nat, unit Transaction, unit, unit, unit) BlockVm" where
  "level_vm =
     \<lparr> into_signature_verified_block = \<lambda>ts. ts,
       vm_execute_block = \<lambda>ts ds c. Inr (map (\<lambda>t. cfg_concurrency_level c) ts),
       on_but_large_for_test = (), num_cpus = 8 \<rparr>"

definition level_outputs :: "(nat, unit, unit, unit, unit, unit) OutputOps" where
  "level_outputs =
     \<lparr> out_status = \<lambda>n. Keep Success, out_write_set = \<lambda>n. (), write_set_entries = \<lambda>ws. [], out_events = \<lambda>n. [],
       out_gas_used = \<lambda>n. 0, extract_fee_statement = \<lambda>n. None, default_fee_statement = () \<rparr>"

definition plain_trace :: "(unit, nat, unit, unit, unit) TraceOps" where
  "plain_trace =
     \<lparr> ser_store = \<lambda>ds. Inr ''store'', ser_txn = \<lambda>t. Inr ''txn'', ser_out = \<lambda>n. Inr (show_nat n),
       ser_map = \<lambda>m. Inr ''map'', show_err = \<lambda>e. [], show_output = \<lambda>r. [] \<rparr>"

definition unit_executor :: "(unit, unit, unit, unit) FakeExecutor" where
  "unit_executor = from_head_genesis unit_store unit_defaults ()"

definition no_env :: "string \<Rightarrow> string option" where
  "no_env v = None"

definition empty_world :: World where
  "empty_world = \<lparr> directories = \<lambda>p. Some [], golden_log = [] \<rparr>"

definition table_resources :: "AccountCurrent list \<Rightarrow> (AccountCurrent, AccountCurrent, u8 list, unit) ResourceOps" where
  "table_resources accs =
     (let look = (\<lambda>bs. case find (\<lambda>a. address (account a) = bs) accs of Some a \<Rightarrow> Inr a | None \<Rightarrow> Inl ())
      in \<lparr> account_key = \<lambda>a. Inr a, account_from_bytes = look, coin_store_key = \<lambda>a. Inr a, coin_store_from_bytes = look,
           authentication_key = \<lambda>a. auth_key (account a), resource_sequence_number = sequence_number, coin = balance \<rparr>)"

lemma find_distinct: "distinct (map f xs) \<Longrightarrow> x \<in> set xs \<Longrightarrow> find (\<lambda>y. f y = f x) xs = Some x"
  by (induction xs) auto

lemma table_matches:
  assumes "distinct (map (\<lambda>a. address (account a)) accs)"
  shows "set as \<subseteq> set accs \<Longrightarrow> assert_accounts_from unit_store (table_resources accs) self idx as = Inr (Inr ())"
  using find_distinct [OF assms]
  by (induction as arbitrary: idx)
    (auto simp: assert_account_match_def read_account_resource_def read_coin_store_resource_def read_resource_def
      table_resources_def unit_store_def Let_def)

lemma unit_trace_dir [simp]: "trace_dir unit_executor = None"
  by (simp add: unit_executor_def from_head_genesis_def from_genesis_def apply_write_set_def)

text \<open>A run of two transfers that the test accepts, with the resources of the accounts after the run.\<close>

definition sample_universe_gen :: AccountUniverseGen where
  "sample_universe_gen = \<lparr> gen_accounts = [sample_data 1 3000000, sample_data 2 3000000], gen_pick_style = Unlimited \<rparr>"

lemma sample_accepted:
  "\<exists>accs. run_and_assert_universe level_vm level_outputs unit_store unit_defaults plain_trace (table_resources accs) no_env (=) ()
     (P2PTransferGen_apply lowest_idxs sample_gas_costs) sample_universe_gen [sample_gen 70, sample_gen 30] empty_world = Inr (Inr ())"
proof -
  have "unat (PEER_TO_PEER sample_gas_costs) \<le> 4000" "length [sample_gen 70, sample_gen 30] \<le> 2"
    "\<forall>g \<in> set [sample_gen 70, sample_gen 30]. unat (amount g) \<le> 100000"
    by (simp_all add: sample_gen_def sample_gas_costs_def)
  from apply_gens_flush [OF lowest_idxs_contract this(1) sample_flush this(2,3)] obtain u outs where
    gens: "apply_gens (P2PTransferGen_apply lowest_idxs sample_gas_costs) [sample_gen 70, sample_gen 30] sample_funded = Inr (u, outs)"
    and ok: "\<forall>(txn, status, cost) \<in> set outs. status = Keep Success" by blast
  have "map address (map account (accounts u)) = map address (map account (accounts sample_funded))"
    using p2p.run_accounts [OF gens] by (simp only:)
  then have "distinct (map (\<lambda>a. address (account a)) (accounts u))"
    by (simp add: comp_def sample_funded_def AccountUniverse_new_def AccountCurrent_new_def account_def sample_data_def Let_def)
  note match = table_matches [OF this subset_refl]
  have "foldl (\<lambda>ex d. add_account_data unit_store d ex) unit_executor (gen_accounts sample_universe_gen) = unit_executor"
    by (simp add: sample_universe_gen_def add_account_data_def unit_store_def)
  then have start: "setup_universe (\<lambda>ex d. add_account_data unit_store d ex) sample_universe_gen (from_head_genesis unit_store unit_defaults ()) =
      (sample_funded, unit_executor)"
    by (simp add: setup_universe_def sample_universe_gen_def sample_funded_def unit_executor_def)
  have exec: "FakeExecutor_execute_block level_vm level_outputs plain_trace no_env txs unit_executor empty_world =
      Inr (Inr (map (\<lambda>t. 1) txs), empty_world)" for txs
    by (simp add: FakeExecutor_execute_block_def execute_transaction_block_def block_run trace_inputs_def trace_outputs_def
        mode_output_def mode_of_def no_env_def log_output_def)
      (simp add: execute_transaction_block_impl_with_state_view_def level_vm_def unit_executor_def from_head_genesis_def
        from_genesis_def apply_write_set_def comp_def)
  have check: "\<exists>self'. check_and_apply level_outputs unit_store (=) idx (zip (map (\<lambda>t. 1) xs) (map (fst \<circ> snd) xs)) self = Inr self'"
    if "\<forall>(txn, status, cost) \<in> set xs. status = Keep Success" for idx self and xs :: "(SignedTransaction \<times> TransactionStatus \<times> u64) list"
    using that by (induction xs arbitrary: idx self) (auto simp: level_outputs_def)
  from check [OF ok, of 0 unit_executor] obtain self' where
    "check_and_apply level_outputs unit_store (=) 0 (zip (map (\<lambda>t. 1) outs) (map (fst \<circ> snd) outs)) unit_executor = Inr self'" by blast
  then show ?thesis
    by (intro exI [of _ "accounts u"])
      (simp add: run_and_assert_universe_def start gens exec match assert_accounts_match_def comp_def del: apply_gens.simps)
qed

section \<open>Properties\<close>

text \<open>
  What a block execution returns, by mode, when nothing is traced. The sequential mode gives the
  output of a run with one worker, the parallel mode that of a run with up to four, and the
  comparison mode gives the output only if the two runs agree, and panics otherwise; the output
  is logged if there is a golden file.
\<close>

theorem execute_block_modes:
  assumes "trace_dir self = None"
  shows "case mode_output V (mode_of env self) txns sv self of
      Some out \<Rightarrow> execute_transaction_block_with_state_view V O1 Z env txns sv self w = Inr (out, log_output Z out self w)
    | None \<Rightarrow> isl (execute_transaction_block_with_state_view V O1 Z env txns sv self w)"
proof (cases "mode_output V (mode_of env self) txns sv self")
  case None
  then have "\<nexists>r. execute_transaction_block_with_state_view V O1 Z env txns sv self w = Inr r" by (simp add: block_run)
  with None show ?thesis by (cases "execute_transaction_block_with_state_view V O1 Z env txns sv self w") auto
next
  case (Some out)
  with assms show ?thesis by (simp add: block_run trace_inputs_def trace_outputs_def)
qed

theorem execute_block_modes_witness:
  "execute_transaction_block_with_state_view level_vm level_outputs plain_trace no_env [BlockMetadata ()] ()
     unit_executor empty_world = Inr (Inr [1], empty_world) \<and>
   isl (execute_transaction_block_with_state_view level_vm level_outputs plain_trace no_env [BlockMetadata ()] ()
     (set_parallel unit_executor) empty_world)"
proof -
  have modes: "mode_of no_env unit_executor = SequentialOnly" "mode_of no_env (set_parallel unit_executor) = BothComparison"
    and par: "trace_dir (set_parallel unit_executor) = None" "executed_output unit_executor = None"
    by (simp_all add: mode_of_def no_env_def set_parallel_def set_executor_mode_def unit_executor_def from_head_genesis_def
        from_genesis_def apply_write_set_def)
  from execute_block_modes [OF unit_trace_dir, where V = level_vm and env = no_env and txns = "[BlockMetadata ()]" and sv = "()" and ?O1.0 = level_outputs and Z = plain_trace and w = empty_world]
    execute_block_modes [OF par(1), where V = level_vm and env = no_env and txns = "[BlockMetadata ()]" and sv = "()" and ?O1.0 = level_outputs and Z = plain_trace and w = empty_world]
  show ?thesis
    by (simp add: modes mode_output_def execute_transaction_block_impl_with_state_view_def level_vm_def log_output_def par(2))
qed

text \<open>
  C31. A traced block can be read back. In a trace directory whose subdirectories hold files
  numbered from zero, executing a block leaves them numbered, and the new file of the \<open>meta\<close>
  directory lists, in order, a file for every transaction of the block and a file for every
  output, which hold exactly the transaction and the output.
\<close>

theorem traced_block_readable:
  assumes "trace_dir self = Some dir" and "trace_ready w dir files"
    and "ser_store Z (data_store self) = Inr b0" and "map (ser_txn Z) txns = map Inr ins"
    and "map (ser_out Z) outs = map Inr os" and "\<And>m. ser_map Z m = Inr (smap m)"
    and "mode_output V (mode_of env self) txns sv self = Some (Inr outs)"
  shows "\<exists>w' files' in_seqs out_seqs. execute_transaction_block_with_state_view V O1 Z env txns sv self w = Inr (Inr outs, w') \<and>
    trace_ready w' dir files' \<and>
    map_of (files' ''meta'') (show_nat (length (files ''meta''))) = Some (smap (length (files ''data''), in_seqs, out_seqs)) \<and>
    length in_seqs = length txns \<and> (\<forall>i<length txns. map_of (files' ''input'') (show_nat (in_seqs ! i)) = Some (ins ! i)) \<and>
    length out_seqs = length outs \<and> (\<forall>i<length outs. map_of (files' ''output'') (show_nat (out_seqs ! i)) = Some (os ! i))"
proof -
  let ?ins = "[length (files ''input'')..<length (files ''input'') + length ins]"
  let ?outs = "[length (files ''output'')..<length (files ''output'') + length os]"
  let ?files = "files(''data'' := traced (files ''data'') [b0], ''input'' := traced (files ''input'') ins,
         ''output'' := traced (files ''output'') os, ''meta'' := traced (files ''meta'') [smap (length (files ''data''), ?ins, ?outs)])"
  from traced_block [OF assms, of O1] obtain w' where
    run: "execute_transaction_block_with_state_view V O1 Z env txns sv self w = Inr (Inr outs, w')" and "trace_ready w' dir ?files"
    by blast
  moreover have num: "numbered (files ''input'')" "numbered (files ''output'')" "numbered (files ''meta'')"
    using assms(2) by (auto simp: trace_ready_def)
  have len: "length ins = length txns" "length os = length outs" using assms(4,5) map_eq_imp_length_eq by metis+
  moreover have "map_of (traced (files ''meta'') [m]) (show_nat (length (files ''meta''))) = Some m" for m
    using traced_nth [OF num(3), of 0 "[m]"] by simp
  ultimately show ?thesis
    using traced_nth [OF num(1), of _ ins] traced_nth [OF num(2), of _ os]
    by (intro exI [of _ w'] exI [of _ ?files] exI [of _ ?ins] exI [of _ ?outs]) simp
qed

theorem traced_block_readable_witness:
  "\<exists>w' files'. execute_transaction_block_with_state_view level_vm level_outputs plain_trace no_env [BlockMetadata (), BlockMetadata ()] ()
     (unit_executor\<lparr>trace_dir := Some [''t'']\<rparr>) empty_world = Inr (Inr [1, 1], w') \<and>
   trace_ready w' [''t''] files' \<and> map_of (files' ''meta'') (show_nat 0) = Some ''map''"
proof -
  let ?self = "unit_executor\<lparr>trace_dir := Some [''t'']\<rparr>" and ?txns = "[BlockMetadata (), BlockMetadata ()]"
  have ready: "trace_ready empty_world [''t''] (\<lambda>sub. [])" by (simp add: trace_ready_def empty_world_def numbered_def)
  have ser: "ser_store plain_trace (data_store ?self) = Inr ''store''" "map (ser_txn plain_trace) ?txns = map Inr [''txn'', ''txn'']"
    "map (ser_out plain_trace) [1, 1] = map Inr [show_nat 1, show_nat 1]" "\<And>m. ser_map plain_trace m = Inr ''map''"
    by (simp_all add: plain_trace_def)
  have out: "mode_output level_vm (mode_of no_env ?self) ?txns () ?self = Some (Inr [1, 1])"
    by (simp add: mode_output_def mode_of_def no_env_def execute_transaction_block_impl_with_state_view_def level_vm_def unit_executor_def
        from_head_genesis_def from_genesis_def apply_write_set_def)
  have dir: "trace_dir ?self = Some [''t'']" by simp
  from traced_block_readable [OF dir ready ser out, of level_outputs] show ?thesis by auto
qed

text \<open>
  C32. A universe test of transfers that passes has checked the store: with the statuses of all
  outputs as expected and their write sets applied, the coins the store holds for the accounts
  are the coins they started with, less the gas charged at a unit price of 100.
\<close>

theorem accepted_run_conserves:
  fixes O1 :: "('out, 'ws, 'k, 'w, 'ev, 'fee) OutputOps"
  assumes "run_and_assert_universe V O1 D X Z Q env status_eq head (P2PTransferGen_apply psi gc) g gens w = Inr (Inr ())"
  shows "\<exists>u outs outputs self'.
    apply_gens (P2PTransferGen_apply psi gc) gens (AccountUniverse_new (gen_accounts g) (gen_pick_style g) False) = Inr (u, outs) \<and>
    length outputs = length outs \<and> (\<forall>i<length outs. status_eq (out_status O1 (outputs ! i)) (fst (snd (outs ! i)))) \<and>
    self' = foldl (\<lambda>self o1. apply_write_set D (out_write_set O1 o1) self)
      (foldl (\<lambda>ex d. add_account_data D d ex) (from_head_genesis D X head :: (_, 'ev, _, _) FakeExecutor) (gen_accounts g)) outputs \<and>
    sum_list (map (\<lambda>a. unat (stored_coin D Q self' (account a))) (accounts u)) +
      sum_list (map (\<lambda>(txn, st, gas). unat gas) outs) * 100 = sum_list (map (unat \<circ> ad_balance) (gen_accounts g))"
proof -
  let ?u0 = "AccountUniverse_new (gen_accounts g) (gen_pick_style g) False"
  from accepted_run [OF assms] obtain u outs outputs self' where
    gens: "apply_gens (P2PTransferGen_apply psi gc) gens ?u0 = Inr (u, outs)"
    and self': "self' = foldl (\<lambda>self o1. apply_write_set D (out_write_set O1 o1) self)
      (foldl (\<lambda>ex d. add_account_data D d ex) (from_head_genesis D X head :: (_, 'ev, _, _) FakeExecutor) (gen_accounts g)) outputs"
    and ok: "length outputs = length outs" "\<forall>i<length outs. status_eq (out_status O1 (outputs ! i)) (fst (snd (outs ! i)))"
    and coins: "\<forall>acc \<in> set (accounts u). stored_coin D Q self' (account acc) = balance acc" by blast
  have stored: "map (\<lambda>a. unat (stored_coin D Q self' (account a))) (accounts u) = map (\<lambda>a. unat (balance a)) (accounts u)"
    using coins by simp
  have "sum_list (map (unat \<circ> ad_balance) (gen_accounts g)) = total_balance ?u0"
    by (simp add: total_balance_def AccountUniverse_new_def AccountCurrent_new_def comp_def Let_def)
  also have "\<dots> = total_balance u + sum_list (map (\<lambda>(txn, st, gas). unat gas) outs) * 100" by (rule p2p.run_pays [OF gens])
  finally have sum: "sum_list (map (\<lambda>a. unat (stored_coin D Q self' (account a))) (accounts u)) +
      sum_list (map (\<lambda>(txn, st, gas). unat gas) outs) * 100 = sum_list (map (unat \<circ> ad_balance) (gen_accounts g))"
    unfolding stored by (simp add: total_balance_def comp_def)
  show ?thesis by (rule exI [of _ u], rule exI [of _ outs], rule exI [of _ outputs], rule exI [of _ self'])
      (use gens ok self' sum in blast)
qed

theorem accepted_run_conserves_witness:
  "\<exists>accs (u :: AccountUniverse) (outs :: (SignedTransaction \<times> TransactionStatus \<times> u64) list) (self' :: (unit, unit, unit, unit) FakeExecutor).
     run_and_assert_universe level_vm level_outputs unit_store unit_defaults plain_trace (table_resources accs) no_env (=) ()
       (P2PTransferGen_apply lowest_idxs sample_gas_costs) sample_universe_gen [sample_gen 70, sample_gen 30] empty_world = Inr (Inr ()) \<and>
     sum_list (map (\<lambda>a. unat (stored_coin unit_store (table_resources accs) self' (account a))) (accounts u)) +
       sum_list (map (\<lambda>(txn, st, gas). unat gas) outs) * 100 = 6000000"
proof -
  from sample_accepted obtain accs where
    run: "run_and_assert_universe level_vm level_outputs unit_store unit_defaults plain_trace (table_resources accs) no_env (=) ()
       (P2PTransferGen_apply lowest_idxs sample_gas_costs) sample_universe_gen [sample_gen 70, sample_gen 30] empty_world = Inr (Inr ())"
    by blast
  have init: "sum_list (map (unat \<circ> ad_balance) (gen_accounts sample_universe_gen)) = 6000000"
    by (simp add: sample_universe_gen_def sample_data_def)
  from accepted_run_conserves [OF run] obtain u :: AccountUniverse and outs :: "(SignedTransaction \<times> TransactionStatus \<times> u64) list" and self' :: "(unit, unit, unit, unit) FakeExecutor" where
    "sum_list (map (\<lambda>a. unat (stored_coin unit_store (table_resources accs) self' (account a))) (accounts u)) +
       sum_list (map (\<lambda>(txn, st, gas). unat gas) outs) * 100 = 6000000"
    unfolding init by blast
  with run show ?thesis by blast
qed

end
