(* ===== verification/Simulator.thy ===== *)
theory Simulator
  imports Fake_Executor
begin

text \<open>
  The workloads of the Aptos benchmark, \<^verbatim>\<open>aptos-transaction-benchmarks/src/simulator.rs\<close>, and its
  command line, \<^verbatim>\<open>src/main.rs\<close>.

  \<^item> \<open>BlockAptosVM::execute_block\<close> and the data store are the parameters of the executor model.
  \<^item> \<open>rand\<close> is the parameter \<open>draw\<close> on a generator state \<open>'g\<close>; \<open>gen_range\<close> panics on an empty range.
  \<^item> The clock is the pair \<open>clock\<close> of the milliseconds that the parallel and the sequential run take.
  \<^item> \<open>TransactionBencher\<close> is not part of the repository and is the parameter \<open>bench\<close>.
  \<^item> Printing, logging and metrics have no effect on the results and are left out.
\<close>

section \<open>Similator\<close>

record 'ds Similator =
  account_universe :: AccountUniverse
  state_view :: 'ds

definition with_account_nums where
  "with_account_nums D X head new_universe n =
     (let bal = 500000 * 1000000 * 5 :: u64;
          universe_gen = new_universe n (bal, bal + 1) Unlimited;
          (universe, executor) = setup_gas_cost_stability (\<lambda>ex d. add_account_data D d ex) universe_gen
            (from_head_genesis D X head :: ('ds, unit, 'rng, 'f) FakeExecutor)
      in \<lparr> account_universe = universe, state_view = data_store executor \<rparr>)"

text \<open>
  A transfer graph. \<open>seq_map\<close> holds the sequence number last used for a sender; its first
  transaction uses the number of the account. The numbers are \<open>usize\<close>, 64 bits.
\<close>

definition next_sequence :: "(nat \<times> u64) list \<Rightarrow> nat \<Rightarrow> AccountCurrent \<Rightarrow> u64 res" where
  "next_sequence seq_map i sender =
     (case map_of seq_map i of Some n \<Rightarrow> add_c n 1 | None \<Rightarrow> Inr (sequence_number sender))"

fun erc20_transactions :: "AccountUniverse \<Rightarrow> (nat \<times> u64) list \<Rightarrow> (nat \<times> nat) list \<Rightarrow> SignedTransaction list res" where
  "erc20_transactions u seq_map [] = Inr []"
| "erc20_transactions u seq_map ((i, j) # graph) =
     rbind (account_at u i) (\<lambda>sender.
     rbind (account_at u j) (\<lambda>receiver.
     rbind (next_sequence seq_map i sender) (\<lambda>n.
     rbind (erc20_transactions u ((i, n) # seq_map) graph) (\<lambda>txns.
     Inr (peer_to_peer_txn (account sender) (account receiver) n 1 100 # txns)))))"

definition gen_transaction_for_erc20 where
  "gen_transaction_for_erc20 V transaction_graph self =
     rbind (erc20_transactions (account_universe self) [] transaction_graph) (\<lambda>signed_transactions.
     Inr (into_signature_verified_block V (map UserTransaction signed_transactions)))"

section \<open>Execution\<close>

definition all_successful where
  "all_successful O1 outputs =
     foldM (\<lambda>_ o1. assert_that (out_status O1 o1 = Keep Success)) () outputs"

definition execute_and_apply_transactions where
  "execute_and_apply_transactions V O1 D new_config signed_transactions self =
     rbind (unwrap_ok (vm_execute_block V (into_signature_verified_block V (map UserTransaction signed_transactions))
              (state_view self) (new_config (num_cpus V) None))) (\<lambda>outputs.
     foldM (\<lambda>self o1.
         rbind (assert_that (out_status O1 o1 = Keep Success)) (\<lambda>_.
         Inr (self\<lparr>state_view := ds_add_write_set D (out_write_set O1 o1) (state_view self)\<rparr>)))
       self outputs)"

text \<open>\<open>block_size * 1000 / exec_time as usize\<close>\<close>

definition throughput :: "nat \<Rightarrow> nat \<Rightarrow> nat res" where
  "throughput block_size exec_time =
     (if 2 ^ 64 \<le> block_size * 1000 then Inl ArithOverflow
      else if exec_time mod 2 ^ 64 = 0 then Inl DivideByZero
      else Inr (block_size * 1000 div (exec_time mod 2 ^ 64)))"

definition execute_benchmark_parallel where
  "execute_benchmark_parallel V new_config exec_time transactions concurrency_level maybe_block_gas_limit self =
     rbind (unwrap_ok (vm_execute_block V transactions (state_view self)
              (new_config concurrency_level maybe_block_gas_limit))) (\<lambda>outputs.
     rbind (throughput (length transactions) exec_time) (\<lambda>tps. Inr (outputs, tps)))"

definition execute_benchmark_sequential where
  "execute_benchmark_sequential V new_config exec_time transactions maybe_block_gas_limit self =
     rbind (unwrap_ok (vm_execute_block V transactions (state_view self)
              (new_config 1 maybe_block_gas_limit))) (\<lambda>outputs.
     rbind (throughput (length transactions) exec_time) (\<lambda>tps. Inr (outputs, tps)))"

definition execute_blockstm_benchmark where
  "execute_blockstm_benchmark V O1 new_config clock transactions run_par run_seq concurrency_level maybe_block_gas_limit self =
     rbind (if run_par
            then execute_benchmark_parallel V new_config (fst clock) transactions concurrency_level maybe_block_gas_limit self
            else Inr ([], 0)) (\<lambda>(par_outputs, par_tps).
     rbind (all_successful O1 par_outputs) (\<lambda>_.
     rbind (if run_seq
            then execute_benchmark_sequential V new_config (snd clock) transactions maybe_block_gas_limit self
            else Inr ([], 0)) (\<lambda>(seq_outputs, seq_tps).
     rbind (all_successful O1 seq_outputs) (\<lambda>_.
     Inr (par_tps, seq_tps)))))"

section \<open>Sending from accounts\<close>

text \<open>
  What every workload does for a transaction: build it from the sender and its sequence number,
  and increase the number.
\<close>

definition send_from :: "nat \<Rightarrow> (AccountCurrent \<Rightarrow> SignedTransaction) \<Rightarrow> AccountUniverse \<Rightarrow> (SignedTransaction \<times> AccountUniverse) res" where
  "send_from i mk u =
     rbind (index_at (accounts u) i) (\<lambda>sender.
     rbind (increase_account_sequence_number sender) (\<lambda>sender'.
     Inr (mk sender, u\<lparr>accounts := (accounts u)[i := sender']\<rparr>)))"

text \<open>A loop over positions, and a loop that repeats a random step.\<close>

fun send_each where
  "send_each mk [] u = Inr ([], u)"
| "send_each mk (i # is) u =
     rbind (send_from i (mk i) u) (\<lambda>(txn, u1).
     rbind (send_each mk is u1) (\<lambda>(txns, u2).
     Inr (txn # txns, u2)))"

fun send_times where
  "send_times step 0 u g = Inr ([], u, g)"
| "send_times step (Suc n) u g =
     rbind (step u g) (\<lambda>(txn, u1, g1).
     rbind (send_times step n u1 g1) (\<lambda>(txns, u2, g2).
     Inr (txn # txns, u2, g2)))"

definition gen_range :: "(nat \<Rightarrow> nat \<Rightarrow> 'g \<Rightarrow> nat \<times> 'g) \<Rightarrow> nat \<Rightarrow> nat \<Rightarrow> 'g \<Rightarrow> (nat \<times> 'g) res" where
  "gen_range draw lo hi g = (if lo < hi then Inr (draw lo hi g) else Inl ExplicitPanic)"

text \<open>\<open>split_at_mut(k)\<close>: the first \<open>k\<close> accounts and the others, as positions of the universe.\<close>

definition split_at :: "nat \<Rightarrow> AccountUniverse \<Rightarrow> unit res" where
  "split_at k u = (if k \<le> length (accounts u) then Inr () else Inl ExplicitPanic)"

text \<open>Every workload ends with the measured run of its transactions.\<close>

definition measure_block where
  "measure_block V O1 new_config clock txns self =
     execute_blockstm_benchmark V O1 new_config clock (into_signature_verified_block V (map UserTransaction txns))
       True True (num_cpus V) None self"

section \<open>The workloads\<close>

subsection \<open>Airdrop\<close>

fun draw_receivers where
  "draw_receivers draw n u 0 g = Inr ([], g)"
| "draw_receivers draw n u (Suc k) g =
     rbind (gen_range draw 0 n g) (\<lambda>(r, g1).
     rbind (index_at (accounts u) r) (\<lambda>receiver.
     rbind (draw_receivers draw n u k g1) (\<lambda>(rs, g2).
     Inr (address (account receiver) # rs, g2))))"

definition airdrop_step where
  "airdrop_step draw n u g =
     rbind (gen_range draw 0 n g) (\<lambda>(s, g1).
     rbind (draw_receivers draw n u 5 g1) (\<lambda>(receivers, g2).
     rbind (send_from s (\<lambda>sender. airdrop_transfer_txn (account sender) receivers (sequence_number sender) 100) u) (\<lambda>(txn, u').
     Inr (txn, u', g2))))"

definition run_airdrop where
  "run_airdrop V O1 D new_config clock draw transaction_nums self g =
     rbind (send_each (\<lambda>i sender. airdrop_initialize_txn (account sender) 1000000000 (sequence_number sender) 100)
              [0..<num_accounts (account_universe self)] (account_universe self)) (\<lambda>(init_txns, u1).
     rbind (execute_and_apply_transactions V O1 D new_config init_txns (self\<lparr>account_universe := u1\<rparr>)) (\<lambda>self1.
     rbind (send_times (airdrop_step draw (num_accounts (account_universe self1))) transaction_nums (account_universe self1) g)
       (\<lambda>(txns, u2, g').
     let self2 = self1\<lparr>account_universe := u2\<rparr>
     in rbind (measure_block V O1 new_config clock txns self2) (\<lambda>tps. Inr (tps, self2, g')))))"

subsection \<open>Ballot\<close>

definition proposals :: "u8 list list" where
  "proposals = [[97, 97], [98, 98], [99, 99]]"

definition ballot_init where
  "ballot_init sender = ballot_initialize_txn (account sender) proposals (sequence_number sender) 100"

definition ballot_step where
  "ballot_step draw acc_nums u g =
     rbind (gen_range draw 0 3 g) (\<lambda>(proposal_index, g1).
     rbind (gen_range draw 0 (acc_nums - 1) g1) (\<lambda>(sender_index, g2).
     rbind (index_at (accounts u) 0) (\<lambda>forum.
     rbind (send_from (1 + sender_index) (\<lambda>sender. ballot_vote_txn (account sender) (address (account forum))
              (word_of_nat proposal_index) (sequence_number sender) 100) u) (\<lambda>(txn, u').
     Inr (txn, u', g2)))))"

definition run_ballot where
  "run_ballot V O1 D new_config clock draw transaction_num self g =
     (let acc_nums = num_accounts (account_universe self)
      in rbind (split_at 1 (account_universe self)) (\<lambda>_.
         rbind (send_from 0 ballot_init (account_universe self)) (\<lambda>(init_txn, u1).
         rbind (execute_and_apply_transactions V O1 D new_config [init_txn] (self\<lparr>account_universe := u1\<rparr>)) (\<lambda>self1.
         rbind (send_times (ballot_step draw acc_nums) transaction_num (account_universe self1) g) (\<lambda>(txns, u2, g').
         let self2 = self1\<lparr>account_universe := u2\<rparr>
         in rbind (measure_block V O1 new_config clock txns self2) (\<lambda>tps. Inr (tps, self2, g')))))))"

text \<open>With shards: the forum of a sender is its last address byte modulo the number of shards as a byte.\<close>

definition forum_index :: "AccountAddress \<Rightarrow> nat \<Rightarrow> nat res" where
  "forum_index addr shard_num =
     rbind (index_at addr 31) (\<lambda>b. rbind (mod_c b (word_of_nat shard_num :: u8)) (\<lambda>i. Inr (unat i)))"

definition sharding_step where
  "sharding_step draw acc_nums shard_num u g =
     rbind (gen_range draw 0 3 g) (\<lambda>(proposal_index, g1).
     rbind (gen_range draw 0 (acc_nums - shard_num) g1) (\<lambda>(sender_index, g2).
     rbind (index_at (drop shard_num (accounts u)) sender_index) (\<lambda>voter.
     rbind (forum_index (address (account voter)) shard_num) (\<lambda>i.
     rbind (index_at (take shard_num (accounts u)) i) (\<lambda>forum.
     rbind (send_from (shard_num + sender_index) (\<lambda>sender. ballot_vote_txn (account sender) (address (account forum))
              (word_of_nat proposal_index) (sequence_number sender) 100) u) (\<lambda>(txn, u').
     Inr (txn, u', g2)))))))"

definition run_ballot_sharding where
  "run_ballot_sharding V O1 D new_config clock draw transaction_num shard_num self g =
     (let acc_nums = num_accounts (account_universe self)
      in rbind (split_at shard_num (account_universe self)) (\<lambda>_.
         rbind (send_each (\<lambda>i. ballot_init) [0..<shard_num] (account_universe self)) (\<lambda>(init_txns, u1).
         rbind (execute_and_apply_transactions V O1 D new_config init_txns (self\<lparr>account_universe := u1\<rparr>)) (\<lambda>self1.
         rbind (send_times (sharding_step draw acc_nums shard_num) transaction_num (account_universe self1) g) (\<lambda>(txns, u2, g').
         let self2 = self1\<lparr>account_universe := u2\<rparr>
         in rbind (measure_block V O1 new_config clock txns self2) (\<lambda>tps. Inr (tps, self2, g')))))))"

subsection \<open>Million pixel\<close>

definition occupy_step where
  "occupy_step draw acc_nums u g =
     rbind (gen_range draw 0 100 g) (\<lambda>(x, g1).
     rbind (gen_range draw 0 100 g1) (\<lambda>(y, g2).
     rbind (gen_range draw 0 acc_nums g2) (\<lambda>(sender_index, g3).
     rbind (index_at (accounts u) 0) (\<lambda>globalstore.
     rbind (send_from (1 + sender_index) (\<lambda>sender. million_pixel_occupy_txn (account sender) (address (account globalstore))
              (word_of_nat x) (word_of_nat y) (sequence_number sender) 100) u) (\<lambda>(txn, u').
     Inr (txn, u', g3))))))"

definition run_mp where
  "run_mp V O1 D new_config clock draw transaction_num self g =
     rbind (split_at 1 (account_universe self)) (\<lambda>_.
     rbind (send_from 0 (\<lambda>s. million_pixel_initialize_txn (account s) (sequence_number s) 100) (account_universe self)) (\<lambda>(init_txn, u1).
     rbind (execute_and_apply_transactions V O1 D new_config [init_txn] (self\<lparr>account_universe := u1\<rparr>)) (\<lambda>self1.
     rbind (send_times (occupy_step draw (num_accounts (account_universe self1) - 1)) transaction_num (account_universe self1) g)
       (\<lambda>(txns, u2, g').
     let self2 = self1\<lparr>account_universe := u2\<rparr>
     in rbind (measure_block V O1 new_config clock txns self2) (\<lambda>tps. Inr (tps, self2, g'))))))"

subsection \<open>Kitty breeding\<close>

fun mint_each where
  "mint_each draw gender [] u g = Inr ([], u, g)"
| "mint_each draw gender (i # is) u g =
     rbind (gen_range draw 0 (2 ^ 32 - 1) g) (\<lambda>(genes, g1).
     rbind (index_at (accounts u) 0) (\<lambda>globalstore.
     rbind (send_from i (\<lambda>sender. kitty_mint_txn (account sender) (address (account globalstore)) (word_of_nat genes) gender
              (sequence_number sender) 100) u) (\<lambda>(txn, u1).
     rbind (mint_each draw gender is u1 g1) (\<lambda>(txns, u2, g2).
     Inr (txn # txns, u2, g2)))))"

definition breed_step where
  "breed_step draw acc_nums u g =
     rbind (gen_range draw 0 acc_nums g) (\<lambda>(m, g1).
     rbind (gen_range draw acc_nums (acc_nums * 2) g1) (\<lambda>(s, g2).
     rbind (gen_range draw 0 acc_nums g2) (\<lambda>(sender_index, g3).
     rbind (index_at (accounts u) 0) (\<lambda>globalstore.
     rbind (send_from (1 + sender_index) (\<lambda>sender. kitty_breed_txn (account sender) (address (account globalstore))
              (word_of_nat m) (word_of_nat s) False (sequence_number sender) 100) u) (\<lambda>(txn, u').
     Inr (txn, u', g3))))))"

definition run_kitty where
  "run_kitty V O1 D new_config clock draw transaction_num self g =
     rbind (split_at 1 (account_universe self)) (\<lambda>_.
     let n = num_accounts (account_universe self)
     in rbind (send_from 0 (\<lambda>s. kitty_initialize_txn (account s) (sequence_number s) 100) (account_universe self)) (\<lambda>(init_txn, u1).
        rbind (mint_each draw True [1..<n] u1 g) (\<lambda>(mint1, u2, g1).
        rbind (mint_each draw False [1..<n] u2 g1) (\<lambda>(mint2, u3, g2).
        rbind (execute_and_apply_transactions V O1 D new_config (init_txn # mint1 @ mint2) (self\<lparr>account_universe := u3\<rparr>)) (\<lambda>self1.
        rbind (send_times (breed_step draw (n - 1)) transaction_num (account_universe self1) g2) (\<lambda>(txns, u4, g3).
        let self2 = self1\<lparr>account_universe := u4\<rparr>
        in rbind (measure_block V O1 new_config clock txns self2) (\<lambda>tps. Inr (tps, self2, g3))))))))"

subsection \<open>Empty transactions\<close>

definition empty_step where
  "empty_step draw acc_nums u g =
     rbind (gen_range draw 0 acc_nums g) (\<lambda>(s, g1).
     rbind (send_from s (\<lambda>sender. empty_empty_txn (account sender) (sequence_number sender) 100) u) (\<lambda>(txn, u').
     Inr (txn, u', g1)))"

definition run_empty where
  "run_empty V O1 new_config clock draw transaction_nums self g =
     rbind (send_times (empty_step draw (num_accounts (account_universe self))) transaction_nums (account_universe self) g)
       (\<lambda>(txns, u, g').
     let self' = self\<lparr>account_universe := u\<rparr>
     in rbind (measure_block V O1 new_config clock txns self') (\<lambda>tps. Inr (tps, self', g')))"

section \<open>main.rs\<close>

record ReplayERC20HistoricOpt =
  replay_skip_parallel :: bool
  replay_skip_sequential :: bool
  replay_num_warmups :: nat
  replay_num_runs :: nat
  replay_maybe_block_gas_limit :: "u64 option"
  replay_data_path :: string
  replay_num_accounts :: nat

record CommonOpt =
  common_num_warmups :: nat
  common_num_runs :: nat
  common_num_accounts :: nat
  common_num_transactions :: nat

record CommonShardingOpt =
  sharding_num_warmups :: nat
  sharding_num_runs :: nat
  sharding_num_accounts :: nat
  sharding_num_transactions :: nat
  sharding_num_shardings :: nat

record ParamSweepOpt =
  sweep_num_accounts :: "nat list"
  sweep_block_sizes :: "nat list option"
  sweep_skip_parallel :: bool
  sweep_skip_sequential :: bool
  sweep_num_warmups :: nat
  sweep_num_runs :: nat
  sweep_maybe_block_gas_limit :: "u64 option"

record 'sock ExecuteOpt =
  execute_num_accounts :: nat
  execute_num_warmups :: nat
  execute_block_size :: nat
  execute_num_blocks :: nat
  execute_concurrency_level_per_shard :: nat
  execute_num_executor_shards :: nat
  execute_remote_executor_addresses :: "'sock list option"
  execute_no_conflict_txns :: bool
  execute_maybe_block_gas_limit :: "u64 option"
  execute_generate_then_execute :: bool

datatype 'sock BenchmarkCommand =
    ParamSweep ParamSweepOpt
  | Execute "'sock ExecuteOpt"
  | ReplayERC20 ReplayERC20HistoricOpt
  | Airdrop CommonOpt
  | Ballot CommonOpt
  | BallotSharding CommonShardingOpt
  | Kitty CommonOpt
  | MillionPixel CommonOpt
  | Empty CommonOpt

text \<open>
  \<open>open_csv\<close> opens the file and gives the records after the header, each with the fields as
  strings, or an error. The first error ends the reading; a field that is missing or not a
  number is zero.
\<close>

definition field_or_zero :: "string list \<Rightarrow> nat \<Rightarrow> nat" where
  "field_or_zero record1 i =
     (case parse_u64 (if i < length record1 then record1 ! i else ''0'') of Some n \<Rightarrow> n | None \<Rightarrow> 0)"

fun read_records :: "('e + string list) list \<Rightarrow> 'e + (nat \<times> nat) list" where
  "read_records [] = Inr []"
| "read_records (Inl e # rs) = Inl e"
| "read_records (Inr record1 # rs) =
     (case read_records rs of
        Inl e \<Rightarrow> Inl e
      | Inr data \<Rightarrow> Inr ((field_or_zero record1 0, field_or_zero record1 1) # data))"

definition read_csv_with_header :: "(string \<Rightarrow> 'e + ('e + string list) list) \<Rightarrow> string \<Rightarrow> 'e + (nat \<times> nat) list" where
  "read_csv_with_header open_csv file_path =
     (case open_csv file_path of Inl e \<Rightarrow> Inl e | Inr rs \<Rightarrow> read_records rs)"

definition average :: "nat list \<Rightarrow> nat res" where
  "average ms = (if ms = [] then Inl DivideByZero else Inr (sum_list ms div length ms))"

text \<open>The replay: every run reads the file again; warm-up runs are measured like the others.\<close>

fun replay_runs where
  "replay_runs V O1 new_config clocks open_csv opt i 0 self = Inr []"
| "replay_runs V O1 new_config clocks open_csv opt i (Suc n) self =
     rbind (unwrap_ok (read_csv_with_header open_csv (replay_data_path opt))) (\<lambda>graph.
     rbind (gen_transaction_for_erc20 V graph self) (\<lambda>transactions.
     rbind (execute_blockstm_benchmark V O1 new_config (clocks i) transactions (\<not> replay_skip_parallel opt)
              (\<not> replay_skip_sequential opt) (num_cpus V) (replay_maybe_block_gas_limit opt) self) (\<lambda>tps.
     rbind (replay_runs V O1 new_config clocks open_csv opt (Suc i) n self) (\<lambda>rest.
     Inr (tps # rest)))))"

definition replay_erc20 where
  "replay_erc20 V O1 D X new_config head new_universe clocks open_csv opt =
     (let bencher = with_account_nums D X head new_universe (replay_num_accounts opt);
          run_par = \<not> replay_skip_parallel opt;
          run_seq = \<not> replay_skip_sequential opt
      in rbind (assert_that (run_seq \<or> run_par)) (\<lambda>_.
         rbind (replay_runs V O1 new_config clocks open_csv opt (0 :: nat) (replay_num_runs opt + replay_num_warmups opt) bencher) (\<lambda>tps.
         rbind (if run_seq then rbind (average (map snd tps)) (\<lambda>a. Inr (Some a)) else Inr None) (\<lambda>seq_tps.
         rbind (if run_par then rbind (average (map fst tps)) (\<lambda>a. Inr (Some a)) else Inr None) (\<lambda>par_tps.
         Inr (par_tps, seq_tps))))))"

text \<open>
  The sweep. \<open>bench k\<close> is the k-th call of \<open>blockstm_benchmark\<close> with its twelve arguments. The
  speed-up is an integer division.
\<close>

definition sweep_report where
  "sweep_report run_par run_seq par_tps seq_tps =
     rbind (if run_seq then average seq_tps else Inr 1) (\<lambda>s.
     if run_par then
       rbind (average par_tps) (\<lambda>p.
       if run_seq then (if s = 0 then Inl DivideByZero else Inr (Some s, Some p, Some (p div s)))
       else Inr (None, Some p, None))
     else Inr (if run_seq then Some s else None, None, None))"

definition param_sweep where
  "param_sweep bench cpus opt =
     (let block_sizes = (case sweep_block_sizes opt of Some bs \<Rightarrow> bs | None \<Rightarrow> [100000]);
          run_par = \<not> sweep_skip_parallel opt;
          run_seq = \<not> sweep_skip_sequential opt
      in rbind (assert_that (run_seq \<or> run_par)) (\<lambda>_.
         let params = concat (map (\<lambda>b. map (\<lambda>a. (a, b)) (sweep_num_accounts opt)) block_sizes);
             measurements = map (\<lambda>(k, a, b). bench k a b run_par run_seq (sweep_num_warmups opt) (sweep_num_runs opt)
               1 cpus None False (sweep_maybe_block_gas_limit opt) False) (enumerate 0 params)
         in mapM (\<lambda>(par_tps, seq_tps). sweep_report run_par run_seq (sort par_tps) (sort seq_tps)) measurements))"

definition execute_cmd where
  "execute_cmd bench opt =
     average (fst (bench (0 :: nat) (execute_num_accounts opt) (execute_block_size opt) True False (execute_num_warmups opt)
       (execute_num_blocks opt) (execute_num_executor_shards opt) (execute_concurrency_level_per_shard opt)
       (execute_remote_executor_addresses opt) (execute_no_conflict_txns opt) (execute_maybe_block_gas_limit opt)
       (execute_generate_then_execute opt)))"

text \<open>The result of a command: the averages of a replay, sweep or execution, or the throughputs of a workload.\<close>

datatype report =
    Averages "nat option \<times> nat option"
  | Sweep "(nat option \<times> nat option \<times> nat option) list"
  | Average nat
  | Throughputs "nat \<times> nat"

definition workload_report where
  "workload_report r = rbind r (\<lambda>(tps, self, g). Inr (Throughputs tps))"

definition aptos_main where
  "aptos_main V O1 D X new_config head new_universe clocks open_csv bench draw g command =
     (case command of
        ParamSweep opt \<Rightarrow> rbind (param_sweep bench (num_cpus V) opt) (\<lambda>r. Inr (Sweep r))
      | Execute opt \<Rightarrow> rbind (execute_cmd bench opt) (\<lambda>r. Inr (Average r))
      | ReplayERC20 opt \<Rightarrow> rbind (replay_erc20 V O1 D X new_config head new_universe clocks open_csv opt) (\<lambda>r. Inr (Averages r))
      | Airdrop opt \<Rightarrow> workload_report (run_airdrop V O1 D new_config (clocks 0) draw (common_num_transactions opt)
          (with_account_nums D X head new_universe (common_num_accounts opt)) g)
      | Ballot opt \<Rightarrow> workload_report (run_ballot V O1 D new_config (clocks 0) draw (common_num_transactions opt)
          (with_account_nums D X head new_universe (common_num_accounts opt)) g)
      | BallotSharding opt \<Rightarrow> workload_report (run_ballot_sharding V O1 D new_config (clocks 0) draw (sharding_num_transactions opt)
          (sharding_num_shardings opt) (with_account_nums D X head new_universe (sharding_num_accounts opt)) g)
      | Kitty opt \<Rightarrow> workload_report (run_kitty V O1 D new_config (clocks 0) draw (common_num_transactions opt)
          (with_account_nums D X head new_universe (common_num_accounts opt)) g)
      | MillionPixel opt \<Rightarrow> workload_report (run_mp V O1 D new_config (clocks 0) draw (common_num_transactions opt)
          (with_account_nums D X head new_universe (common_num_accounts opt)) g)
      | Empty opt \<Rightarrow> workload_report (run_empty V O1 new_config (clocks 0) draw (common_num_transactions opt)
          (with_account_nums D X head new_universe (common_num_accounts opt)) g))"

end
