(* ===== verification/Simulator_Results.thy ===== *)
theory Simulator_Results
  imports Simulator
begin

text \<open>
  The properties of the benchmark's workloads: the sequence numbers of the transactions they
  build, and the runs that panic.
\<close>

section \<open>Replaying a transfer graph\<close>

text \<open>The transaction of the k-th edge, when \<open>e i\<close> transactions of account \<open>i\<close> came before the graph.\<close>

definition edge_txn where
  "edge_txn u e graph k =
     (case graph ! k of (i, j) \<Rightarrow>
        peer_to_peer_txn (account (accounts u ! i)) (account (accounts u ! j))
          (word_of_nat (unat (sequence_number (accounts u ! i)) + e i + length (filter (\<lambda>p. fst p = i) (take k graph)))) 1 100)"

definition graph_in_range :: "AccountUniverse \<Rightarrow> (nat \<times> nat) list \<Rightarrow> bool" where
  "graph_in_range u graph \<longleftrightarrow> (\<forall>(i, j) \<in> set graph. i < num_accounts u \<and> j < num_accounts u)"

lemma edge_txn_Suc:
  "edge_txn u e ((i, j) # graph) (Suc k) = edge_txn u (e(i := Suc (e i))) graph k"
  by (simp add: edge_txn_def add.assoc split: prod.split) (simp add: ac_simps)

text \<open>Every account has numbers left for the transfers it sends.\<close>

definition sent_by :: "nat \<Rightarrow> (nat \<times> nat) list \<Rightarrow> nat" where
  "sent_by k graph = length (filter (\<lambda>p. fst p = k) graph)"

definition numbers_left :: "AccountUniverse \<Rightarrow> (nat \<Rightarrow> nat) \<Rightarrow> (nat \<times> nat) list \<Rightarrow> bool" where
  "numbers_left u e graph \<longleftrightarrow>
     (\<forall>k < num_accounts u. unat (sequence_number (accounts u ! k)) + e k + sent_by k graph \<le> 2 ^ 64)"

text \<open>The map holds the number of the last transaction of each sender.\<close>

definition tracks :: "AccountUniverse \<Rightarrow> (nat \<times> u64) list \<Rightarrow> (nat \<Rightarrow> nat) \<Rightarrow> bool" where
  "tracks u m e \<longleftrightarrow> (\<forall>k < num_accounts u.
     let n = unat (sequence_number (accounts u ! k)) + e k in
     n \<le> 2 ^ 64 \<and> next_sequence m k (accounts u ! k) = (if n < 2 ^ 64 then Inr (word_of_nat n) else Inl ArithOverflow))"

lemma unat_word_of_nat: "k < 2 ^ 64 \<Longrightarrow> unat (word_of_nat k :: u64) = k"
  by (simp add: unsigned_of_nat take_bit_nat_eq_self)

lemma tracks_used:
  assumes "tracks u m e" and "i < num_accounts u" and "next_sequence m i (accounts u ! i) = Inr n"
  shows "tracks u ((i, n) # m) (e(i := Suc (e i)))" and "n = word_of_nat (unat (sequence_number (accounts u ! i)) + e i)"
proof -
  let ?n = "unat (sequence_number (accounts u ! i)) + e i"
  have n: "?n < 2 ^ 64" "n = word_of_nat ?n" using assms by (auto simp: tracks_def Let_def split: if_splits)
  then show "n = word_of_nat ?n" by simp
  have "unat n = ?n" unfolding n(2) using n(1) by (rule unat_word_of_nat)
  moreover have "n + 1 = word_of_nat (Suc ?n)" by (simp add: n(2))
  ultimately have "add_c n 1 = (if Suc ?n < 2 ^ 64 then Inr (word_of_nat (Suc ?n)) else Inl ArithOverflow)"
    by (simp add: add_c_def)
  with assms(1) n(1) show "tracks u ((i, n) # m) (e(i := Suc (e i)))"
    by (auto simp: tracks_def Let_def next_sequence_def)
qed

lemma numbers_left_Cons:
  "i < num_accounts u \<Longrightarrow> numbers_left u e ((i, j) # graph) \<longleftrightarrow> numbers_left u (e(i := Suc (e i))) graph"
  by (auto simp: numbers_left_def sent_by_def)

lemma erc20_transactions_eq:
  "tracks u m e \<Longrightarrow>
   (if graph_in_range u graph \<and> numbers_left u e graph
    then erc20_transactions u m graph = Inr (map (edge_txn u e graph) [0..<length graph])
    else isl (erc20_transactions u m graph))"
proof (induction graph arbitrary: m e)
  case Nil
  then show ?case by (simp add: graph_in_range_def numbers_left_def sent_by_def tracks_def Let_def)
next
  case (Cons p graph)
  obtain i j where p: "p = (i, j)" by (cases p)
  show ?case
  proof (cases "i < num_accounts u \<and> j < num_accounts u")
    case True
    then have at: "account_at u i = Inr (accounts u ! i)" "account_at u j = Inr (accounts u ! j)"
      by (simp_all add: account_at_def index_at_def num_accounts_def)
    show ?thesis
    proof (cases "next_sequence m i (accounts u ! i)")
      case (Inl x)
      then have "unat (sequence_number (accounts u ! i)) + e i = 2 ^ 64"
        using Cons.prems True by (auto simp: tracks_def Let_def split: if_splits)
      then have "\<not> numbers_left u e (p # graph)" using True by (auto simp: numbers_left_def sent_by_def p)
      then show ?thesis using Inl at by (simp add: p)
    next
      case (Inr n)
      define e' where "e' = e(i := Suc (e i))"
      note used = tracks_used [OF Cons.prems conjunct1 [OF True] Inr, folded e'_def]
      let ?head = "peer_to_peer_txn (account (accounts u ! i)) (account (accounts u ! j)) n 1 100"
      have "edge_txn u e ((i, j) # graph) 0 = ?head" by (simp add: edge_txn_def used(2))
      then have txns: "map (edge_txn u e (p # graph)) [0..<length (p # graph)] =
          ?head # map (edge_txn u e' graph) [0..<length graph]"
        by (simp add: p e'_def upt_conv_Cons map_Suc_upt [symmetric] comp_def edge_txn_Suc del: upt_Suc)
      have ok: "graph_in_range u (p # graph) \<and> numbers_left u e (p # graph) \<longleftrightarrow> graph_in_range u graph \<and> numbers_left u e' graph"
        using True by (auto simp: p e'_def graph_in_range_def numbers_left_Cons simp del: fun_upd_apply)
      have "erc20_transactions u m (p # graph) = rbind (erc20_transactions u ((i, n) # m) graph) (\<lambda>txns. Inr (?head # txns))"
        using Inr at by (simp add: p)
      with Cons.IH [OF used(1)] show ?thesis unfolding ok txns
        by (cases "erc20_transactions u ((i, n) # m) graph") (auto split: if_splits)
    qed
  next
    case False
    then show ?thesis
      by (auto simp: p account_at_def index_at_def num_accounts_def graph_in_range_def)
  qed
qed

section \<open>Sequence numbers of the workloads\<close>

text \<open>
  The contract of building transactions: the accounts stay, and the transactions of an account
  carry consecutive numbers, from its number before to its number after.
\<close>

definition numbers_of :: "Account \<Rightarrow> SignedTransaction list \<Rightarrow> nat list" where
  "numbers_of acc txns = map (unat \<circ> txn_sequence_number) (filter (\<lambda>t. txn_sender t = acc) txns)"

definition sent :: "AccountUniverse \<Rightarrow> SignedTransaction list \<Rightarrow> AccountUniverse \<Rightarrow> bool" where
  "sent u txns u' \<longleftrightarrow> map account (accounts u') = map account (accounts u) \<and>
     (\<forall>k<num_accounts u. unat (sequence_number (accounts u ! k)) \<le> unat (sequence_number (accounts u' ! k)) \<and>
        numbers_of (account (accounts u ! k)) txns =
          [unat (sequence_number (accounts u ! k))..<unat (sequence_number (accounts u' ! k))])"

definition distinct_accounts :: "AccountUniverse \<Rightarrow> bool" where
  "distinct_accounts u \<longleftrightarrow> distinct (map account (accounts u))"

lemma sent_Nil: "sent u [] u"
  by (simp add: sent_def numbers_of_def)

lemma sent_distinct: "sent u txns u' \<Longrightarrow> distinct_accounts u' = distinct_accounts u"
  by (simp add: sent_def distinct_accounts_def)

lemma sent_account: "sent u txns u' \<Longrightarrow> k < num_accounts u \<Longrightarrow> account (accounts u' ! k) = account (accounts u ! k)"
  unfolding sent_def num_accounts_def by (metis length_map nth_map)

lemma sent_num: "sent u txns u' \<Longrightarrow> num_accounts u' = num_accounts u"
  unfolding sent_def num_accounts_def by (metis length_map)

lemma upt_append: "a \<le> b \<Longrightarrow> b \<le> c \<Longrightarrow> [a..<b] @ [b..<c] = [a..<c]"
  using upt_add_eq_append [of a b "c - b"] by simp

lemma sent_trans:
  assumes 1: "sent u txns u1" and 2: "sent u1 txns' u2"
  shows "sent u (txns @ txns') u2"
proof -
  have "numbers_of (account (accounts u ! k)) (txns @ txns') =
      [unat (sequence_number (accounts u ! k))..<unat (sequence_number (accounts u2 ! k))] \<and>
      unat (sequence_number (accounts u ! k)) \<le> unat (sequence_number (accounts u2 ! k))" if k: "k < num_accounts u" for k
  proof -
    have a: "unat (sequence_number (accounts u ! k)) \<le> unat (sequence_number (accounts u1 ! k))"
      "numbers_of (account (accounts u ! k)) txns = [unat (sequence_number (accounts u ! k))..<unat (sequence_number (accounts u1 ! k))]"
      using 1 k by (simp_all add: sent_def)
    have b: "unat (sequence_number (accounts u1 ! k)) \<le> unat (sequence_number (accounts u2 ! k))"
      "numbers_of (account (accounts u ! k)) txns' = [unat (sequence_number (accounts u1 ! k))..<unat (sequence_number (accounts u2 ! k))]"
      unfolding sent_account [OF 1 k, symmetric] using 2 k sent_num [OF 1] by (simp_all add: sent_def)
    from a b upt_append [of "unat (sequence_number (accounts u ! k))" "unat (sequence_number (accounts u1 ! k))"
        "unat (sequence_number (accounts u2 ! k))"] show ?thesis by (simp add: numbers_of_def)
  qed
  with 1 2 show ?thesis by (simp add: sent_def)
qed

text \<open>A transaction built from its sender.\<close>

definition from_sender :: "(AccountCurrent \<Rightarrow> SignedTransaction) \<Rightarrow> bool" where
  "from_sender mk \<longleftrightarrow> (\<forall>a. txn_sender (mk a) = account a \<and> txn_sequence_number (mk a) = sequence_number a)"

lemma send_from_sent:
  assumes "distinct_accounts u" and mk: "from_sender mk" and run: "send_from i mk u = Inr (txn, u')"
  shows "sent u [txn] u'"
proof -
  from run obtain n where i: "i < length (accounts u)" and n: "unat n = unat (sequence_number (accounts u ! i)) + 1"
    and txn: "txn = mk (accounts u ! i)" and u': "u' = u\<lparr>accounts := (accounts u)[i := (accounts u ! i)\<lparr>sequence_number := n\<rparr>]\<rparr>"
    by (auto simp: send_from_def increase_account_sequence_number_def index_at_eq_Inr add_c_eq_Inr)
  have accs: "map account (accounts u') = map account (accounts u)"
    using i by (simp add: u' map_update account_def list_update_same_conv)
  have num: "numbers_of (account (accounts u ! k)) [txn] = [unat (sequence_number (accounts u ! k))..<unat (sequence_number (accounts u' ! k))] \<and>
      unat (sequence_number (accounts u ! k)) \<le> unat (sequence_number (accounts u' ! k))" if k: "k < length (accounts u)" for k
  proof (cases "k = i")
    case True
    then show ?thesis using mk i n by (simp add: numbers_of_def txn u' from_sender_def)
  next
    case False
    then have "account (accounts u ! i) \<noteq> account (accounts u ! k)"
      using assms(1) i k by (metis distinct_accounts_def nth_map length_map nth_eq_iff_index_eq)
    then show ?thesis using mk i False by (simp add: numbers_of_def txn u' from_sender_def)
  qed
  then show ?thesis by (simp add: sent_def accs num_accounts_def)
qed

text \<open>A workload repeats a step that sends one transaction.\<close>

locale workload_step =
  fixes step :: "AccountUniverse \<Rightarrow> 'g \<Rightarrow> (SignedTransaction \<times> AccountUniverse \<times> 'g) res"
  assumes step_sent: "distinct_accounts u \<Longrightarrow> step u g = Inr (txn, u', g') \<Longrightarrow> sent u [txn] u'"
begin

lemma times_sent:
  "distinct_accounts u \<Longrightarrow> send_times step n u g = Inr (txns, u', g') \<Longrightarrow> sent u txns u' \<and> length txns = n"
proof (induction n arbitrary: u g txns)
  case (Suc n)
  from Suc.prems(2) obtain txn u1 g1 txns' where one: "step u g = Inr (txn, u1, g1)"
    and rest: "send_times step n u1 g1 = Inr (txns', u', g')" and txns: "txns = txn # txns'" by auto
  from step_sent [OF Suc.prems(1) one] have s: "sent u [txn] u1" .
  from Suc.IH [OF _ rest] sent_distinct [OF s] Suc.prems(1) have "sent u1 txns' u'" "length txns' = n" by simp_all
  with sent_trans [OF s] show ?case by (simp add: txns)
qed (simp add: sent_Nil)

end

lemma workload_txns:
  "from_sender (\<lambda>s. airdrop_transfer_txn (account s) rs (sequence_number s) 100)"
  "from_sender (\<lambda>s. ballot_vote_txn (account s) a p (sequence_number s) 100)"
  "from_sender (\<lambda>s. million_pixel_occupy_txn (account s) a x y (sequence_number s) 100)"
  "from_sender (\<lambda>s. kitty_breed_txn (account s) a m k b (sequence_number s) 100)"
  "from_sender (\<lambda>s. empty_empty_txn (account s) (sequence_number s) 100)"
  by (simp_all add: from_sender_def airdrop_transfer_txn_def ballot_vote_txn_def million_pixel_occupy_txn_def kitty_breed_txn_def
      empty_empty_txn_def signed_def)

interpretation airdrop: workload_step "airdrop_step draw n" for draw n
  by unfold_locales (auto simp: airdrop_step_def intro: send_from_sent workload_txns)

interpretation ballot: workload_step "ballot_step draw n" for draw n
  by unfold_locales (auto simp: ballot_step_def intro: send_from_sent workload_txns)

interpretation sharding: workload_step "sharding_step draw n k" for draw n k
  by unfold_locales (auto simp: sharding_step_def intro: send_from_sent workload_txns)

interpretation occupy: workload_step "occupy_step draw n" for draw n
  by unfold_locales (auto simp: occupy_step_def intro: send_from_sent workload_txns)

interpretation breed: workload_step "breed_step draw n" for draw n
  by unfold_locales (auto simp: breed_step_def intro: send_from_sent workload_txns)

interpretation empty_txns: workload_step "empty_step draw n" for draw n
  by unfold_locales (auto simp: empty_step_def intro: send_from_sent workload_txns)

section \<open>Sharded ballots\<close>

text \<open>The number of shards is cut to a byte, so that a multiple of 256 shards divides by zero.\<close>

lemma forum_index_panics:
  assumes "32 \<le> length addr" and "shard_num mod 256 = 0"
  shows "forum_index addr shard_num = Inl DivideByZero"
proof -
  have "(word_of_nat shard_num :: u8) = 0"
    using assms(2) by (simp add: word_of_nat_eq_0_iff take_bit_eq_0_iff dvd_eq_mod_eq_0)
  then show ?thesis using assms(1) by (simp add: forum_index_def mod_c_def)
qed

lemma sharding_never_succeeds:
  assumes "shard_num mod 256 = 0" and "\<forall>a \<in> set (accounts u). 32 \<le> length (address (account a))"
  shows "isl (sharding_step draw n shard_num u g)"
proof (cases "sharding_step draw n shard_num u g")
  case (Inr r)
  then obtain j i where j: "shard_num + j < length (accounts u)"
    "forum_index (address (account (accounts u ! (shard_num + j)))) shard_num = Inr i"
    by (auto simp: sharding_step_def index_at_eq_Inr less_diff_conv add.commute)
  from j(1) assms(2) have "32 \<le> length (address (account (accounts u ! (shard_num + j))))" by simp
  from forum_index_panics [OF this assms(1)] j(2) show ?thesis by simp
qed simp

section \<open>A small benchmark\<close>

definition first_draw :: "nat \<Rightarrow> nat \<Rightarrow> unit \<Rightarrow> nat \<times> unit" where
  "first_draw lo hi g = (lo, g)"

lemma sample_vote:
  assumes "length (accounts u) = 2" and "unat (sequence_number (accounts u ! 1)) + 1 < 2 ^ 64"
  shows "\<exists>txn u'. ballot_step first_draw 2 u () = Inr (txn, u', ()) \<and> length (accounts u') = 2 \<and>
    unat (sequence_number (accounts u' ! 1)) = unat (sequence_number (accounts u ! 1)) + 1"
  using add_c_ok [of "sequence_number (accounts u ! 1)" 1] assms
  by (auto simp: ballot_step_def gen_range_def first_draw_def send_from_def increase_account_sequence_number_def)

lemma sample_votes:
  "\<exists>txns u'. send_times (ballot_step first_draw 2) 2 sample_funded () = Inr (txns, u', ())"
proof -
  have two: "length (accounts sample_funded) = 2" "unat (sequence_number (accounts sample_funded ! 1)) = 0"
    by (simp_all add: sample_funded_def AccountUniverse_new_def AccountCurrent_new_def sample_data_def)
  then have small: "unat (sequence_number (accounts sample_funded ! 1)) + 1 < 2 ^ 64" by simp
  obtain t1 u1 where 1: "ballot_step first_draw 2 sample_funded () = Inr (t1, u1, ())" "length (accounts u1) = 2"
    "unat (sequence_number (accounts u1 ! 1)) = 1" using sample_vote [OF two(1) small] two(2) by auto
  then have "unat (sequence_number (accounts u1 ! 1)) + 1 < 2 ^ 64" by simp
  from sample_vote [OF 1(2) this] obtain t2 u2 where 2: "ballot_step first_draw 2 u1 () = Inr (t2, u2, ())" by blast
  have "send_times (ballot_step first_draw 2) (Suc (Suc 0)) sample_funded () = Inr ([t1, t2], u2, ())"
    using 1(1) 2 by simp
  then show ?thesis by (simp only: numeral_2_eq_2) blast
qed

lemma sample_distinct: "distinct_accounts sample_funded"
  by (simp add: distinct_accounts_def sample_funded_def AccountUniverse_new_def AccountCurrent_new_def account_def sample_data_def)

section \<open>Properties\<close>

text \<open>
  C33. Replaying a transfer graph: generating the block panics if and only if an edge names an account
  that does not exist or an account runs out of 64-bit sequence numbers. Otherwise there is one
  transfer per edge, in order, from the first to the second account of the edge, and the transfers of
  an account carry consecutive sequence numbers that start with the number of the account.
\<close>

theorem gen_transaction_for_erc20_spec:
  "if graph_in_range (account_universe self) graph \<and> numbers_left (account_universe self) (\<lambda>i. 0) graph
   then gen_transaction_for_erc20 V graph self =
     Inr (into_signature_verified_block V (map UserTransaction
            (map (edge_txn (account_universe self) (\<lambda>i. 0) graph) [0..<length graph])))
   else isl (gen_transaction_for_erc20 V graph self)"
proof -
  let ?u = "account_universe self"
  have "unat (sequence_number (accounts ?u ! k)) < 2 ^ 64" for k using unsigned_less [of "sequence_number (accounts ?u ! k)", where 'a = nat] by simp
  then have "tracks ?u [] (\<lambda>i. 0)" by (simp add: tracks_def Let_def next_sequence_def less_imp_le)
  from erc20_transactions_eq [OF this, of graph] show ?thesis
    by (cases "erc20_transactions ?u [] graph") (auto simp: gen_transaction_for_erc20_def split: if_splits)
qed

text \<open>
  C34. Whatever the workload draws, the transactions it builds for the measured block are one per
  step, and the transactions of every account carry consecutive sequence numbers, from the
  account's number before to its number after.
\<close>

theorem workload_sequence_numbers:
  assumes "distinct_accounts u" and "k < num_accounts u"
    and "step = airdrop_step draw n \<or> step = ballot_step draw n \<or> step = sharding_step draw n shards \<or>
      step = occupy_step draw n \<or> step = breed_step draw n \<or> step = empty_step draw n"
    and "send_times step m u g = Inr (txns, u', g')"
  shows "length txns = m \<and> map account (accounts u') = map account (accounts u) \<and>
    numbers_of (account (accounts u ! k)) txns =
      [unat (sequence_number (accounts u ! k))..<unat (sequence_number (accounts u' ! k))]"
proof -
  have "sent u txns u' \<and> length txns = m"
    using assms(3,4) airdrop.times_sent [OF assms(1)] ballot.times_sent [OF assms(1)] sharding.times_sent [OF assms(1)]
      occupy.times_sent [OF assms(1)] breed.times_sent [OF assms(1)] empty_txns.times_sent [OF assms(1)] by metis
  with assms(2) show ?thesis by (simp add: sent_def)
qed

theorem workload_sequence_numbers_witness:
  "\<exists>txns u' g'. send_times (ballot_step first_draw 2) 2 sample_funded () = Inr (txns, u', g') \<and> length txns = 2 \<and>
     numbers_of (account (accounts sample_funded ! 1)) txns =
       [unat (sequence_number (accounts sample_funded ! 1))..<unat (sequence_number (accounts u' ! 1))]"
proof -
  from sample_votes obtain txns u' g' where run: "send_times (ballot_step first_draw 2) 2 sample_funded () = Inr (txns, u', g')" by blast
  have k: "1 < num_accounts sample_funded" by (simp add: num_accounts_def sample_funded_def AccountUniverse_new_def)
  from workload_sequence_numbers [OF sample_distinct k _ run, of first_draw 2 0] run show ?thesis by blast
qed

end
