(* ===== verification/Rust_Collections.thy ===== *)
theory Rust_Collections
  imports Rust_Prelude "HOL-Library.AList"
begin

text \<open>
  The collections of the Sui components. A \<open>BTreeMap\<close> is a list of pairs with strictly
  ascending keys, in the order in which \<open>values\<close> iterates; a \<open>HashMap\<close> is an association
  list with distinct keys. Stores into arrays and slices are bounds-checked. A collection of
  spawned tasks is joined in an order that is a parameter, known only to be a permutation.
\<close>

named_theorems btree_simps \<open>lookup and order of the tree operations\<close>

section \<open>BTreeMap\<close>

fun btree_insert :: "'k::linorder \<Rightarrow> 'v \<Rightarrow> ('k \<times> 'v) list \<Rightarrow> ('k \<times> 'v) list" where
  "btree_insert k v [] = [(k, v)]"
| "btree_insert k v ((k', v') # m) =
     (if k < k' then (k, v) # (k', v') # m
      else if k = k' then (k, v) # m
      else (k', v') # btree_insert k v m)"

definition btree_ok :: "('k::linorder \<times> 'v) list \<Rightarrow> bool" where
  "btree_ok m \<longleftrightarrow> sorted_wrt (<) (map fst m)"

definition btree_pop_last :: "('k \<times> 'v) list \<Rightarrow> (('k \<times> 'v) \<times> ('k \<times> 'v) list) option" where
  "btree_pop_last m = (if m = [] then None else Some (last m, butlast m))"

lemma btree_ok_Nil [simp]: "btree_ok []"
  by (simp add: btree_ok_def)

lemma btree_insert_keys [btree_simps]: "fst ` set (btree_insert k v m) = insert k (fst ` set m)"
proof (induction m)
  case (Cons p m)
  then show ?case by (cases p) (simp add: insert_commute)
qed simp

lemma btree_insert_ok [btree_simps]: "btree_ok m \<Longrightarrow> btree_ok (btree_insert k v m)"
proof (induction m)
  case (Cons p m)
  obtain k' v' where p: "p = (k', v')" by (cases p)
  from Cons.prems have "\<forall>x \<in> fst ` set m. k' < x" "btree_ok m" by (auto simp: btree_ok_def p)
  with Cons.IH show ?case
    using btree_insert_keys [of k v m] by (force simp: btree_ok_def p)
qed (simp add: btree_ok_def)

lemma btree_insert_get [btree_simps]:
  "btree_ok m \<Longrightarrow> map_of (btree_insert k v m) = (map_of m)(k \<mapsto> v)"
proof (induction m)
  case (Cons p m)
  obtain k' v' where p: "p = (k', v')" by (cases p)
  from Cons.prems have "\<forall>x \<in> fst ` set m. k' < x" "btree_ok m" by (auto simp: btree_ok_def p)
  with Cons.IH show ?case by (auto simp: p fun_eq_iff)
qed simp

lemma btree_insert_fresh: "k \<notin> fst ` set m \<Longrightarrow> mset (btree_insert k v m) = add_mset (k, v) (mset m)"
proof (induction m)
  case (Cons p m)
  then show ?case by (cases p) auto
qed simp

lemma btree_ok_distinct: "btree_ok m \<Longrightarrow> distinct (map fst m)"
  by (simp add: btree_ok_def strict_sorted_iff)

lemma btree_get: "btree_ok m \<Longrightarrow> map_of m k = Some v \<longleftrightarrow> (k, v) \<in> set m"
  by (simp add: btree_ok_distinct map_of_eq_Some_iff)

text \<open>Inserting a sequence of pairs with distinct keys keeps them all.\<close>

lemma btree_inserts:
  assumes "btree_ok m" and "distinct (map fst kvs)" and "fst ` set kvs \<inter> fst ` set m = {}"
  shows "btree_ok (fold (\<lambda>(k, v). btree_insert k v) kvs m) \<and>
    mset (fold (\<lambda>(k, v). btree_insert k v) kvs m) = mset kvs + mset m"
  using assms
proof (induction kvs arbitrary: m)
  case (Cons p kvs)
  obtain k v where p: "p = (k, v)" by (cases p)
  have "fst ` set kvs \<inter> fst ` set (btree_insert k v m) = {}"
    using Cons.prems by (auto simp: p btree_insert_keys)
  from Cons.IH [OF btree_insert_ok [OF Cons.prems(1)] _ this] Cons.prems(2,3) show ?case
    by (auto simp: p btree_insert_fresh)
qed simp

lemma btree_inserts_get:
  "btree_ok m \<Longrightarrow> map_of (fold (\<lambda>(k, v). btree_insert k v) kvs m) = map_of m ++ map_of (rev kvs)"
proof (induction kvs arbitrary: m)
  case (Cons p kvs)
  then show ?case by (cases p) (simp add: btree_simps map_add_def fun_eq_iff split: option.split)
qed simp

lemma btree_pop_last_ok: "btree_ok m \<Longrightarrow> btree_pop_last m = Some (p, m') \<Longrightarrow> btree_ok m' \<and> m = m' @ [p]"
  by (auto simp: btree_pop_last_def btree_ok_def map_butlast sorted_wrt_append split: if_splits)
    (metis append_butlast_last_id map_butlast sorted_wrt_append map_append)

section \<open>Joining tasks\<close>

definition permutes :: "('a list \<Rightarrow> 'a list) \<Rightarrow> bool" where
  "permutes order \<longleftrightarrow> (\<forall>xs. mset (order xs) = mset xs)"

lemma permutes_mset: "permutes order \<Longrightarrow> mset (order xs) = mset xs"
  by (simp add: permutes_def)

lemma permutes_set: "permutes order \<Longrightarrow> set (order xs) = set xs"
  using permutes_mset [of order xs] mset_eq_setD by blast

lemma permutes_length: "permutes order \<Longrightarrow> length (order xs) = length xs"
  using permutes_mset [of order xs] mset_eq_length by blast

lemma permutes_id: "permutes id" and permutes_rev: "permutes rev"
  by (simp_all add: permutes_def)

lemma permutes_distinct_map:
  "permutes order \<Longrightarrow> distinct (map f (order xs)) = distinct (map f xs)"
  by (metis permutes_mset mset_map mset_eq_imp_distinct_iff)

section \<open>Arrays and slices\<close>

definition store_at :: "'a list \<Rightarrow> nat \<Rightarrow> 'a \<Rightarrow> 'a list res" where
  "store_at xs i v = (if i < length xs then Inr (xs[i := v]) else Inl IndexOutOfBounds)"

lemma store_at_eq_Inr [simp]: "store_at xs i v = Inr ys \<longleftrightarrow> i < length xs \<and> ys = xs[i := v]"
  by (auto simp: store_at_def)

text \<open>\<open>xs[a..b].copy_from_slice(src)\<close>\<close>

definition copy_from_slice :: "'a list \<Rightarrow> nat \<Rightarrow> nat \<Rightarrow> 'a list \<Rightarrow> 'a list res" where
  "copy_from_slice xs a b src =
     (if \<not> (a \<le> b \<and> b \<le> length xs) then Inl IndexOutOfBounds
      else if length src \<noteq> b - a then Inl ExplicitPanic
      else Inr (take a xs @ src @ drop b xs))"

text \<open>\<open>u64::to_le_bytes\<close> and its inverse.\<close>

definition to_le_bytes :: "u64 \<Rightarrow> u8 list" where
  "to_le_bytes x = map (\<lambda>i. word_of_nat (unat x div 256 ^ i)) [0..<8]"

definition from_le_bytes :: "u8 list \<Rightarrow> u64" where
  "from_le_bytes bs = word_of_nat (foldr (\<lambda>b n. unat b + 256 * n) bs 0)"

lemma length_to_le_bytes [simp]: "length (to_le_bytes x) = 8"
  by (simp add: to_le_bytes_def)

lemma digits_256:
  "foldr (\<lambda>b n. unat b + 256 * n) (map (\<lambda>i. word_of_nat (v div 256 ^ i) :: u8) [k..<k + n]) 0 =
     v div 256 ^ k mod 256 ^ n"
proof (induction n arbitrary: k)
  case (Suc n)
  have "[k..<k + Suc n] = k # [Suc k..<Suc k + n]" by (simp add: upt_conv_Cons)
  then have "foldr (\<lambda>b n. unat b + 256 * n) (map (\<lambda>i. word_of_nat (v div 256 ^ i) :: u8) [k..<k + Suc n]) 0 =
      v div 256 ^ k mod 256 + 256 * (v div 256 ^ Suc k mod 256 ^ n)"
    using Suc.IH [of "Suc k"] by (simp add: unat_of_nat)
  also have "v div 256 ^ Suc k = v div 256 ^ k div 256" by (metis div_mult2_eq power_Suc2)
  also have "v div 256 ^ k mod 256 + 256 * (v div 256 ^ k div 256 mod 256 ^ n) = v div 256 ^ k mod 256 ^ Suc n"
    by (simp add: mod_mult2_eq [of _ 256 "256 ^ n"])
  finally show ?case .
qed simp

lemma from_le_bytes_to_le_bytes: "from_le_bytes (to_le_bytes x) = x"
proof -
  have "unat x < 2 ^ 64" using unsigned_less [of x] by simp
  moreover have "(2::nat) ^ 64 = 256 ^ 8" by simp
  ultimately have "foldr (\<lambda>b n. unat b + 256 * n) (to_le_bytes x) 0 = unat x"
    using digits_256 [of "unat x" 0 8] by (simp add: to_le_bytes_def del: upt_Suc)
  then show ?thesis by (simp add: from_le_bytes_def)
qed

lemma to_le_bytes_inject [simp]: "to_le_bytes x = to_le_bytes y \<longleftrightarrow> x = y"
  by (metis from_le_bytes_to_le_bytes)

end
