(* ===== verification/Sui_Accounts.thy ===== *)
theory Sui_Accounts
  imports Rust_Collections
begin

text \<open>
  The accounts of the Sui single-node benchmark: \<^verbatim>\<open>mock_account.rs\<close> and
  \<^verbatim>\<open>csv.rs\<close>. Objects, object IDs and the length of an address come from the Sui
  libraries and are parameters (\<open>SuiTypes\<close>); so are the key pairs drawn by
  \<open>get_account_key_pair\<close>, one per task, and the order in which spawned tasks are joined.

  The properties say that every gas object of a genesis state has an ID of its own, that no
  account is lost, and that the accounts hold exactly the genesis objects.
\<close>

section \<open>Types of the Sui libraries\<close>

type_synonym SequenceNumber = nat
type_synonym ('id, 'dg) ObjectRef = "'id \<times> SequenceNumber \<times> 'dg"

record ('id, 'addr, 'dg, 'obj) SuiTypes =
  SUI_ADDRESS_LENGTH :: nat
  from_bytes :: "u8 list \<Rightarrow> unit + 'id"
  with_id_owner_for_testing :: "'id \<Rightarrow> 'addr \<Rightarrow> 'obj"
  compute_object_reference :: "'obj \<Rightarrow> ('id, 'dg) ObjectRef"

text \<open>
  What the code relies on: an address has room for a tag byte and a \<open>u64\<close>; an array of that
  length is an ID, different arrays are different IDs; and the reference of a fresh object
  carries its ID.
\<close>

definition sui_types_contract :: "('id, 'addr, 'dg, 'obj) SuiTypes \<Rightarrow> bool" where
  "sui_types_contract T \<longleftrightarrow>
     9 \<le> SUI_ADDRESS_LENGTH T \<and>
     (\<forall>bs. length bs = SUI_ADDRESS_LENGTH T \<longrightarrow> (\<exists>i. from_bytes T bs = Inr i)) \<and>
     (\<forall>bs bs' i. from_bytes T bs = Inr i \<longrightarrow> from_bytes T bs' = Inr i \<longrightarrow> bs = bs') \<and>
     (\<forall>i a. fst (compute_object_reference T (with_id_owner_for_testing T i a)) = i)"

section \<open>mock_account.rs\<close>

record ('id, 'addr, 'dg, 'kp) Account =
  sender :: 'addr
  keypair :: 'kp
  gas_objects :: "('id, 'dg) ObjectRef list"

definition new_gas_object :: "('id, 'addr, 'dg, 'obj) SuiTypes \<Rightarrow> u64 \<Rightarrow> 'addr \<Rightarrow> 'obj res" where
  "new_gas_object T idx owner =
     (let id_bytes = replicate (SUI_ADDRESS_LENGTH T) (0 :: u8);
          idx_bytes = to_le_bytes idx
      in rbind (store_at id_bytes 0 255) (\<lambda>id_bytes.
         rbind (copy_from_slice id_bytes 1 (length idx_bytes + 1) idx_bytes) (\<lambda>id_bytes.
         rbind (unwrap_ok (from_bytes T id_bytes)) (\<lambda>object_id.
         Inr (with_id_owner_for_testing T object_id owner)))))"

definition create_gas_objects ::
  "('id, 'addr, 'dg, 'obj) SuiTypes \<Rightarrow> 'addr \<Rightarrow> u64 \<Rightarrow> u64 \<Rightarrow> 'obj list res" where
  "create_gas_objects T owner num starting_id =
     mapM (\<lambda>i. rbind (add_c starting_id (word_of_nat i)) (\<lambda>idx. new_gas_object T idx owner)) [0..<unat num]"

text \<open>The task spawned for the account at an index, and what the loop does with its result.\<close>

definition account_task where
  "account_task T gas_object_num_per_account key idx =
     rbind (mul_c idx gas_object_num_per_account) (\<lambda>starting_id.
     rbind (create_gas_objects T (fst key) gas_object_num_per_account starting_id) (\<lambda>objects.
     Inr (fst key, snd key, objects)))"

definition new_account where
  "new_account T addr kp objects =
     \<lparr> sender = addr, keypair = kp, gas_objects = map (compute_object_reference T) objects \<rparr>"

definition batch_create_account_and_gas where
  "batch_create_account_and_gas T keys order num_accounts gas_object_num_per_account =
     rbind (mapM (\<lambda>i. account_task T gas_object_num_per_account (keys i) (word_of_nat i))
              [0..<unat (num_accounts :: u64)]) (\<lambda>tasks.
     Inr (fold (\<lambda>(addr, kp, objects) (accounts, genesis).
            (btree_insert addr (new_account T addr kp objects) accounts, genesis @ objects))
          (order tasks) ([], [])))"

text \<open>The tasks of the records of an account file, with the running start of the IDs.\<close>

fun index_tasks where
  "index_tasks T keys j starting_id [] = Inr []"
| "index_tasks T keys j starting_id (r # rs) =
     rbind (index_at r 0) (\<lambda>field0. rbind (unwrap (parse_u64 field0)) (\<lambda>addr_index.
     rbind (index_at r 1) (\<lambda>field1. rbind (unwrap (parse_u64 field1)) (\<lambda>n.
     rbind (mul_c (word_of_nat n) 2) (\<lambda>obj_num.
     rbind (create_gas_objects T (fst (keys j)) obj_num starting_id) (\<lambda>objects.
     rbind (add_c starting_id obj_num) (\<lambda>next_id.
     rbind (index_tasks T keys (Suc j) next_id rs) (\<lambda>tasks.
     Inr ((addr_index, keys j, objects) # tasks)))))))))"

definition admin_starting_id :: u64 where
  "admin_starting_id = 10000000000000000"

definition batch_create_account_and_gas_by_index where
  "batch_create_account_and_gas_by_index T keys admin_key order records =
     rbind (index_tasks T keys (0 :: nat) 1 records) (\<lambda>tasks.
     let (accounts, genesis, indexes) =
           fold (\<lambda>(addr_index, (addr, kp), objects) (accounts, genesis, indexes).
              (btree_insert addr (new_account T addr kp objects) accounts, genesis @ objects,
               btree_insert addr_index addr indexes))
            (order tasks) ([], [], [])
     in rbind (create_gas_objects T (fst admin_key) 1 admin_starting_id) (\<lambda>admin_objects.
        Inr (accounts, genesis @ admin_objects, indexes,
             new_account T (fst admin_key) (snd admin_key) admin_objects)))"

section \<open>csv.rs\<close>

text \<open>
  \<open>open_csv\<close> opens the file and gives the sequence of its records as the reader yields them;
  a record that cannot be read is logged and skipped.
\<close>

definition get_records_from_file :: "(string \<Rightarrow> 'e + ('f + 'r) list) \<Rightarrow> string \<Rightarrow> 'r list" where
  "get_records_from_file open_csv path =
     (case open_csv path of
        Inr record_results \<Rightarrow>
          fold (\<lambda>r records. case r of Inr record \<Rightarrow> records @ [record] | Inl _ \<Rightarrow> records) record_results []
      | Inl _ \<Rightarrow> [])"

section \<open>Object IDs\<close>

definition gas_id where
  "gas_id T idx = projr (from_bytes T (255 # to_le_bytes idx @ replicate (SUI_ADDRESS_LENGTH T - 9) 0))"

lemma id_bytes_layout:
  "9 \<le> n \<Longrightarrow> store_at (replicate n 0) 0 255 = Inr (255 # replicate (n - 1) (0 :: u8)) \<and>
   copy_from_slice (255 # replicate (n - 1) (0 :: u8)) 1 (length (to_le_bytes idx) + 1) (to_le_bytes idx) =
     Inr (255 # to_le_bytes idx @ replicate (n - 9) 0)"
  by (cases n) (auto simp: copy_from_slice_def store_at_def)

lemma new_gas_object_ok:
  assumes "sui_types_contract T"
  shows "new_gas_object T idx owner = Inr (with_id_owner_for_testing T (gas_id T idx) owner)"
proof -
  from assms have n: "9 \<le> SUI_ADDRESS_LENGTH T" by (simp add: sui_types_contract_def)
  then have "length (255 # to_le_bytes idx @ replicate (SUI_ADDRESS_LENGTH T - 9) (0 :: u8)) = SUI_ADDRESS_LENGTH T"
    by simp
  with assms obtain i where "from_bytes T (255 # to_le_bytes idx @ replicate (SUI_ADDRESS_LENGTH T - 9) 0) = Inr i"
    unfolding sui_types_contract_def by blast
  moreover note layout = id_bytes_layout [OF n, of idx]
  ultimately show ?thesis
    by (simp only: new_gas_object_def Let_def layout rbind_Inr unwrap_ok_Inr gas_id_def sum.sel)
qed

lemma gas_id_inject:
  assumes "sui_types_contract T"
  shows "gas_id T i = gas_id T j \<longleftrightarrow> i = j"
proof
  let ?bs = "\<lambda>i. 255 # to_le_bytes i @ replicate (SUI_ADDRESS_LENGTH T - 9) (0 :: u8)"
  assume eq: "gas_id T i = gas_id T j"
  have "\<exists>x. from_bytes T (?bs i) = Inr x" for i
    using assms by (simp add: sui_types_contract_def)
  then have "from_bytes T (?bs i) = Inr (gas_id T i)" for i by (metis gas_id_def sum.sel(2))
  then have "?bs i = ?bs j"
    using assms eq unfolding sui_types_contract_def by metis
  then show "i = j" by simp
qed simp

text \<open>The objects with the IDs of a range of indices.\<close>

definition objects_from where
  "objects_from T owner s n = map (\<lambda>i. with_id_owner_for_testing T (gas_id T (word_of_nat i)) owner) [s..<s + n]"

lemma length_objects_from [simp]: "length (objects_from T owner s n) = n"
  by (simp add: objects_from_def)

lemma create_gas_objects_ok:
  assumes T: "sui_types_contract T" and fits: "unat s + unat n \<le> 2 ^ 64"
  shows "create_gas_objects T owner n s = Inr (objects_from T owner (unat s) (unat n))"
proof -
  have "mapM (\<lambda>i. rbind (add_c s (word_of_nat i)) (\<lambda>idx. new_gas_object T idx owner)) [0..<unat n] =
      Inr (map (\<lambda>i. with_id_owner_for_testing T (gas_id T (word_of_nat (unat s + i))) owner) [0..<unat n])"
  proof (rule mapM_map)
    fix i assume "i \<in> set [0..<unat n]"
    then have i: "i < unat n" by simp
    then have "unat (word_of_nat i :: u64) = i" using fits by (simp add: unat_of_nat)
    with i fits have "add_c s (word_of_nat i) = Inr (word_of_nat (unat s + i))"
      by (simp add: add_c_def)
    then show "rbind (add_c s (word_of_nat i)) (\<lambda>idx. new_gas_object T idx owner) =
        Inr (with_id_owner_for_testing T (gas_id T (word_of_nat (unat s + i))) owner)"
      by (simp add: new_gas_object_ok [OF T])
  qed
  also have "\<dots> = Inr (objects_from T owner (unat s) (unat n))"
    by (auto simp: objects_from_def list_eq_iff_nth_eq)
  finally show ?thesis by (simp only: create_gas_objects_def)
qed

lemma objects_from_ids:
  "sui_types_contract T \<Longrightarrow>
   map (fst \<circ> compute_object_reference T) (objects_from T owner s n) = map (gas_id T \<circ> word_of_nat) [s..<s + n]"
  by (simp add: objects_from_def sui_types_contract_def)

lemma gas_ids_distinct:
  assumes T: "sui_types_contract T" and js: "distinct js" and lt: "\<forall>j \<in> set js. j < 2 ^ 64"
  shows "distinct (map (gas_id T \<circ> word_of_nat) js)"
proof -
  have "inj_on (gas_id T \<circ> word_of_nat) (set js)"
  proof (rule inj_onI)
    fix a b assume ab: "a \<in> set js" "b \<in> set js" "(gas_id T \<circ> word_of_nat) a = (gas_id T \<circ> word_of_nat) b"
    then have "(word_of_nat a :: u64) = word_of_nat b" by (simp add: gas_id_inject [OF T])
    then have "unat (word_of_nat a :: u64) = unat (word_of_nat b :: u64)" by simp
    with ab lt show "a = b" by (simp add: unat_of_nat)
  qed
  with js show ?thesis by (simp add: distinct_map)
qed

section \<open>The accounts\<close>

lemma account_task_ok:
  assumes T: "sui_types_contract T" and "i * unat per + unat per \<le> 2 ^ 64" and "i < 2 ^ 64"
    and "0 < unat per \<or> i * unat per < 2 ^ 64"
  shows "account_task T per key (word_of_nat i) =
     Inr (fst key, snd key, objects_from T (fst key) (i * unat per) (unat per))"
proof -
  from assms have lt: "i * unat per < 2 ^ 64" by auto
  have i: "unat (word_of_nat i :: u64) = i" using assms(3) by (simp add: unat_of_nat)
  with lt have mul: "mul_c (word_of_nat i) per = Inr (word_of_nat i * per)"
    by (simp add: mul_c_def)
  have s: "unat (word_of_nat i * per) = i * unat per"
    using lt i by (simp add: unat_word_ariths)
  show ?thesis
    using create_gas_objects_ok [OF T, of "word_of_nat i * per" per "fst key"] assms(2)
    by (simp add: account_task_def mul s)
qed

lemma fold_accounts:
  "fold (\<lambda>(addr, kp, objects) (accounts, genesis).
      (btree_insert addr (new_account T addr kp objects) accounts, genesis @ objects)) ts (m, g) =
   (fold (\<lambda>(k, v). btree_insert k v) (map (\<lambda>(a, kp, objs). (a, new_account T a kp objs)) ts) m,
    g @ concat (map (snd \<circ> snd) ts))"
  by (induction ts arbitrary: m g) (auto simp: split_def)

lemma concat_blocks: "concat (map (\<lambda>i. [i * p..<i * p + p]) [0..<n]) = [0..<n * p]"
proof (induction n)
  case (Suc n)
  have "[0..<n * p + p] = [0..<n * p] @ [n * p..<n * p + p]"
    using upt_add_eq_append [of 0 "n * p" p] by simp
  with Suc show ?case by (simp add: add.commute)
qed simp

lemma mset_concat_map: "mset xs = mset ys \<Longrightarrow> mset (concat (map f xs)) = mset (concat (map f ys))"
  by (metis mset_concat mset_map sum_mset_sum_list)

text \<open>What holds of a genesis state: the accounts and the list of their objects.\<close>

definition genesis_ok where
  "genesis_ok T accounts genesis \<longleftrightarrow>
     btree_ok accounts \<and> (\<forall>(addr, acc) \<in> set accounts. sender acc = addr) \<and>
     distinct (map (fst \<circ> compute_object_reference T) genesis) \<and>
     mset (concat (map (gas_objects \<circ> snd) accounts)) = mset (map (compute_object_reference T) genesis)"

lemma genesis_ok_join:
  assumes "mset joined = mset tasks" and "distinct (map fst tasks)"
    and "distinct (map (fst \<circ> compute_object_reference T) (concat (map (snd \<circ> snd) tasks)))"
    and "fold (\<lambda>(addr, kp, objects) (accounts, genesis).
      (btree_insert addr (new_account T addr kp objects) accounts, genesis @ objects)) joined ([], []) =
        (accounts, genesis)"
  shows "genesis_ok T accounts genesis \<and> mset genesis = mset (concat (map (snd \<circ> snd) tasks)) \<and>
    mset accounts = mset (map (\<lambda>(a, kp, objs). (a, new_account T a kp objs)) tasks)"
proof -
  let ?acc = "\<lambda>(a, kp, objs). (a, new_account T a kp objs)"
  have keys: "map fst (map ?acc ts) = map fst ts" for ts by (induction ts) auto
  from assms(4) have acc: "accounts = fold (\<lambda>(k, v). btree_insert k v) (map ?acc joined) []"
    and gen: "genesis = concat (map (snd \<circ> snd) joined)" by (simp_all add: fold_accounts)
  have "distinct (map fst (map ?acc joined))"
    using assms(1,2) by (simp only: keys) (metis mset_map mset_eq_imp_distinct_iff)
  then have m: "btree_ok accounts" "mset accounts = mset (map ?acc joined)"
    using btree_inserts [of "[]" "map ?acc joined"] by (simp_all add: acc)
  from m(2) have macc: "mset accounts = mset (map ?acc tasks)"
    by (simp add: assms(1))
  have mgen: "mset genesis = mset (concat (map (snd \<circ> snd) tasks))"
    unfolding gen by (rule mset_concat_map) (rule assms(1))
  have "mset (concat (map (gas_objects \<circ> snd) accounts)) =
      mset (concat (map (gas_objects \<circ> snd) (map ?acc tasks)))"
    by (rule mset_concat_map [OF macc])
  also have "\<dots> = image_mset (compute_object_reference T) (mset (concat (map (snd \<circ> snd) tasks)))"
    by (induction tasks) (auto simp: new_account_def)
  finally have "mset (concat (map (gas_objects \<circ> snd) accounts)) = mset (map (compute_object_reference T) genesis)"
    by (simp add: mgen)
  moreover have "distinct (map (fst \<circ> compute_object_reference T) genesis)"
    using assms(3) mgen by (metis mset_map mset_eq_imp_distinct_iff)
  moreover have "\<forall>(addr, acc) \<in> set accounts. sender acc = addr"
    using mset_eq_setD [OF macc] by (auto simp: new_account_def)
  ultimately show ?thesis using m(1) macc mgen by (simp add: genesis_ok_def)
qed


lemma batch_tasks:
  fixes num :: u64
  assumes T: "sui_types_contract T" and fits: "unat num * unat per < 2 ^ 64"
  shows "mapM (\<lambda>i. account_task T per (keys i) (word_of_nat i)) [0..<unat num] =
    Inr (map (\<lambda>i. (fst (keys i), snd (keys i), objects_from T (fst (keys i)) (i * unat per) (unat per))) [0..<unat num])"
proof (rule mapM_map)
  fix i assume "i \<in> set [0..<unat num]"
  then have i: "i < unat num" by simp
  then have "i * unat per + unat per \<le> unat num * unat per"
    using mult_le_mono1 [of "Suc i" "unat num" "unat per"] by simp
  moreover have "unat num < 2 ^ 64" using unsigned_less [of num] by simp
  ultimately show "account_task T per (keys i) (word_of_nat i) =
      Inr (fst (keys i), snd (keys i), objects_from T (fst (keys i)) (i * unat per) (unat per))"
    using fits i by (intro account_task_ok [OF T]) auto
qed

lemma batch_create_ok:
  assumes T: "sui_types_contract T" and ord: "permutes order"
    and inj: "inj_on (fst \<circ> keys) {..<unat num}" and fits: "unat num * unat per < 2 ^ 64"
  shows "\<exists>accounts genesis. batch_create_account_and_gas T keys order num per = Inr (accounts, genesis) \<and>
    genesis_ok T accounts genesis \<and> length accounts = unat num \<and> length genesis = unat num * unat per \<and>
    (\<forall>(addr, acc) \<in> set accounts. length (gas_objects acc) = unat per)"
proof -
  let ?tasks = "map (\<lambda>i. (fst (keys i), snd (keys i), objects_from T (fst (keys i)) (i * unat per) (unat per))) [0..<unat num]"
  obtain accounts genesis where join: "fold (\<lambda>(addr, kp, objects) (accounts, genesis).
      (btree_insert addr (new_account T addr kp objects) accounts, genesis @ objects)) (order ?tasks) ([], []) =
        (accounts, genesis)" by fastforce
  have run: "batch_create_account_and_gas T keys order num per = Inr (accounts, genesis)"
    using join by (simp add: batch_create_account_and_gas_def batch_tasks [OF T fits])
  have addrs: "distinct (map fst ?tasks)"
    using inj by (auto simp: distinct_map comp_def intro!: inj_onI dest: inj_onD)
  have "map (fst \<circ> compute_object_reference T) (concat (map (snd \<circ> snd) ?tasks)) =
      concat (map (\<lambda>i. map (fst \<circ> compute_object_reference T) (objects_from T (fst (keys i)) (i * unat per) (unat per)))
        [0..<unat num])" by (simp add: map_concat comp_def)
  also have "\<dots> = map (gas_id T \<circ> word_of_nat) (concat (map (\<lambda>i. [i * unat per..<i * unat per + unat per]) [0..<unat num]))"
    by (simp only: objects_from_ids [OF T, unfolded comp_def] map_concat map_map comp_def)
  finally have ids: "map (fst \<circ> compute_object_reference T) (concat (map (snd \<circ> snd) ?tasks)) =
      map (gas_id T \<circ> word_of_nat) [0..<unat num * unat per]" by (simp only: concat_blocks)
  have "distinct (map (gas_id T \<circ> word_of_nat) [0..<unat num * unat per])"
    by (rule gas_ids_distinct [OF T]) (use fits in auto)
  note ok = genesis_ok_join [OF permutes_mset [OF ord] addrs this [folded ids] join]
  have "length accounts = unat num"
    using mset_eq_length [OF conjunct2 [OF conjunct2 [OF ok]]] by simp
  moreover have "length genesis = unat num * unat per"
    using mset_eq_length [OF conjunct1 [OF conjunct2 [OF ok]]] arg_cong [OF ids, of length] by simp
  moreover have "set accounts = set (map (\<lambda>(a, kp, objs). (a, new_account T a kp objs)) ?tasks)"
    using ok mset_eq_setD by blast
  then have "\<forall>(addr, acc) \<in> set accounts. length (gas_objects acc) = unat per"
    by (auto simp: new_account_def)
  ultimately show ?thesis using run ok by blast
qed

section \<open>The accounts of a file\<close>

definition parses_to :: "string list \<Rightarrow> nat \<times> nat \<Rightarrow> bool" where
  "parses_to r p \<longleftrightarrow> 2 \<le> length r \<and> parse_u64 (r ! 0) = Some (fst p) \<and> parse_u64 (r ! 1) = Some (snd p)"

fun file_tasks where
  "file_tasks T keys j s [] = []"
| "file_tasks T keys j s ((a, n) # ps) =
     (a, keys j, objects_from T (fst (keys j)) s (2 * n)) # file_tasks T keys (Suc j) (s + 2 * n) ps"

lemma index_tasks_ok:
  assumes T: "sui_types_contract T"
  shows "list_all2 parses_to records parsed \<Longrightarrow> s + 2 * sum_list (map snd parsed) < 2 ^ 64 \<Longrightarrow>
    index_tasks T keys j (word_of_nat s) records = Inr (file_tasks T keys j s parsed)"
proof (induction records arbitrary: parsed s j)
  case (Cons r records)
  then obtain a n ps where parsed: "parsed = (a, n) # ps" and r: "parses_to r (a, n)"
    and rest: "list_all2 parses_to records ps" by (auto simp: list_all2_Cons1)
  from Cons.prems(2) have lt: "s + 2 * n + 2 * sum_list (map snd ps) < 2 ^ 64" by (simp add: parsed)
  have [simp]: "unat (word_of_nat n :: u64) = n" "unat (word_of_nat s :: u64) = s"
    using lt by (simp_all add: unat_of_nat)
  have mul: "mul_c (word_of_nat n :: u64) 2 = Inr (word_of_nat (2 * n))"
    using lt by (simp add: mul_c_def mult.commute)
  have n2: "unat (word_of_nat (2 * n) :: u64) = 2 * n" using lt by (simp add: unat_of_nat del: of_nat_mult)
  have add: "add_c (word_of_nat s) (word_of_nat (2 * n) :: u64) = Inr (word_of_nat (s + 2 * n))"
    using lt n2 by (simp add: add_c_def)
  have "create_gas_objects T (fst (keys j)) (word_of_nat (2 * n)) (word_of_nat s) =
      Inr (objects_from T (fst (keys j)) s (2 * n))"
    using create_gas_objects_ok [OF T, of "word_of_nat s" "word_of_nat (2 * n)"] lt n2 by simp
  moreover have "index_tasks T keys (Suc j) (word_of_nat (s + 2 * n)) records =
      Inr (file_tasks T keys (Suc j) (s + 2 * n) ps)"
    using lt by (intro Cons.IH [OF rest]) simp
  ultimately show ?case
    using r by (auto simp: parsed parses_to_def mul add simp del: of_nat_add of_nat_mult)
qed simp

lemma file_tasks_ids:
  assumes T: "sui_types_contract T"
  shows "map (fst \<circ> compute_object_reference T) (concat (map (snd \<circ> snd) (file_tasks T keys j s parsed))) =
     map (gas_id T \<circ> word_of_nat) [s..<s + 2 * sum_list (map snd parsed)]"
proof (induction parsed arbitrary: j s)
  case (Cons p ps)
  obtain a n where p: "p = (a, n)" by (cases p)
  have "[s..<s + 2 * (n + sum_list (map snd ps))] =
      [s..<s + 2 * n] @ [s + 2 * n..<(s + 2 * n) + 2 * sum_list (map snd ps)]"
    using upt_add_eq_append [of s "s + 2 * n" "2 * sum_list (map snd ps)"] by (simp add: algebra_simps)
  with Cons.IH [of "Suc j" "s + 2 * n"] objects_from_ids [OF T, of "fst (keys j)" s "2 * n"] show ?case
    by (simp add: p comp_def)
qed simp

lemma file_tasks_nth:
  "i < length parsed \<Longrightarrow> \<exists>s'. file_tasks T keys j s parsed ! i =
     (fst (parsed ! i), keys (j + i), objects_from T (fst (keys (j + i))) s' (2 * snd (parsed ! i)))"
proof (induction parsed arbitrary: i j s)
  case (Cons p ps)
  obtain a n where p: "p = (a, n)" by (cases p)
  show ?case
  proof (cases i)
    case (Suc i')
    with Cons.IH [of i' "Suc j" "s + 2 * n"] Cons.prems show ?thesis by (simp add: p)
  qed (auto simp: p)
qed simp

lemma file_tasks_length [simp]: "length (file_tasks T keys j s parsed) = length parsed"
  by (induction parsed arbitrary: j s) auto


lemma fold_indexed:
  "fold (\<lambda>(addr_index, (addr, kp), objects) (accounts, genesis, indexes).
      (btree_insert addr (new_account T addr kp objects) accounts, genesis @ objects,
       btree_insert addr_index addr indexes)) ts (m, g, ix) =
   (let (m', g') = fold (\<lambda>(addr, kp, objects) (accounts, genesis).
          (btree_insert addr (new_account T addr kp objects) accounts, genesis @ objects))
        (map (\<lambda>(ai, key, objs). (fst key, snd key, objs)) ts) (m, g)
    in (m', g', fold (\<lambda>(k, v). btree_insert k v) (map (\<lambda>(ai, key, objs). (ai, fst key)) ts) ix))"
  by (induction ts arbitrary: m g ix) (auto simp: split_def Let_def)

text \<open>The entries of a map built from tasks joined in any order.\<close>

lemma joined_get:
  assumes "permutes order" and "distinct (map f ts)" and "i < length ts"
  shows "map_of (fold (\<lambda>(k, v). btree_insert k v) (map (\<lambda>t. (f t, g t)) (order ts)) []) (f (ts ! i)) = Some (g (ts ! i))"
proof -
  let ?kvs = "map (\<lambda>t. (f t, g t)) (order ts)"
  have "distinct (map fst ?kvs)" using assms(1,2) by (simp add: comp_def permutes_distinct_map)
  then have ok: "btree_ok (fold (\<lambda>(k, v). btree_insert k v) ?kvs [])"
    "mset (fold (\<lambda>(k, v). btree_insert k v) ?kvs []) = mset ?kvs"
    using btree_inserts [of "[]" ?kvs] by simp_all
  have "(f (ts ! i), g (ts ! i)) \<in> set ?kvs"
    using assms(3) permutes_set [OF assms(1), of ts] by auto
  with mset_eq_setD [OF ok(2)] have "(f (ts ! i), g (ts ! i)) \<in> set (fold (\<lambda>(k, v). btree_insert k v) ?kvs [])"
    by simp
  with ok(1) show ?thesis by (simp add: btree_get)
qed

lemma file_tasks_keys:
  "map fst (file_tasks T keys j s parsed) = map fst parsed"
  "map (fst \<circ> snd) (file_tasks T keys j s parsed) = map keys [j..<j + length parsed]"
  by (induction parsed arbitrary: j s) (auto simp: upt_conv_Cons simp del: upt_Suc)


lemma unat_admin: "unat admin_starting_id = 10000000000000000"
  by (simp add: admin_starting_id_def)

lemma admin_fits: "unat admin_starting_id + 1 < 2 ^ 64"
  by (simp add: unat_admin)

lemma by_index_run:
  assumes T: "sui_types_contract T"
    and recs: "list_all2 parses_to records parsed"
    and fits: "1 + 2 * sum_list (map snd parsed) \<le> unat admin_starting_id"
    and tasks: "tasks = file_tasks T keys 0 1 parsed"
    and joined: "fold (\<lambda>(addr, kp, objects) (accounts, genesis).
          (btree_insert addr (new_account T addr kp objects) accounts, genesis @ objects))
        (map (\<lambda>(ai, key, objs). (fst key, snd key, objs)) (order tasks)) ([], []) = (accounts, genesis)"
  shows "batch_create_account_and_gas_by_index T keys admin_key order records =
    Inr (accounts, genesis @ objects_from T (fst admin_key) (unat admin_starting_id) 1,
      fold (\<lambda>(k, v). btree_insert k v) (map (\<lambda>(ai, key, objs). (ai, fst key)) (order tasks)) [],
      new_account T (fst admin_key) (snd admin_key) (objects_from T (fst admin_key) (unat admin_starting_id) 1))"
proof -
  have "index_tasks T keys 0 (word_of_nat 1) records = Inr tasks"
    unfolding tasks by (rule index_tasks_ok [OF T recs]) (use fits admin_fits in linarith)
  moreover have "create_gas_objects T (fst admin_key) 1 admin_starting_id =
      Inr (objects_from T (fst admin_key) (unat admin_starting_id) 1)"
    using create_gas_objects_ok [OF T, of admin_starting_id 1 "fst admin_key"] admin_fits by simp
  ultimately show ?thesis
    using joined by (simp add: batch_create_account_and_gas_by_index_def fold_indexed)
qed

lemma by_index_ok:
  assumes T: "sui_types_contract T" and ord: "permutes order"
    and recs: "list_all2 parses_to records parsed" and idx: "distinct (map fst parsed)"
    and inj: "inj_on (fst \<circ> keys) {..<length records}"
    and fits: "1 + 2 * sum_list (map snd parsed) \<le> unat admin_starting_id"
  shows "\<exists>accounts genesis indexes admin.
    batch_create_account_and_gas_by_index T keys admin_key order records =
      Inr (accounts, genesis @ objects_from T (fst admin_key) (unat admin_starting_id) 1, indexes, admin) \<and>
    genesis_ok T accounts genesis \<and> length accounts = length records \<and>
    distinct (map (fst \<circ> compute_object_reference T) (genesis @ objects_from T (fst admin_key) (unat admin_starting_id) 1)) \<and>
    (\<forall>i<length records. map_of indexes (fst (parsed ! i)) = Some (fst (keys i)) \<and>
       (\<exists>acc. map_of accounts (fst (keys i)) = Some acc \<and> length (gas_objects acc) = 2 * snd (parsed ! i)))"
proof -
  define tasks where "tasks = file_tasks T keys 0 1 parsed"
  let ?t = "\<lambda>(ai, key, objs). (fst key, snd key, objs)"
  obtain accounts genesis where joined: "fold (\<lambda>(addr, kp, objects) (accounts, genesis).
          (btree_insert addr (new_account T addr kp objects) accounts, genesis @ objects))
        (map ?t (order tasks)) ([], []) = (accounts, genesis)" by fastforce
  have len: "length parsed = length records" "length tasks = length records"
    using list_all2_lengthD [OF recs] by (simp_all add: tasks_def)
  note keys = file_tasks_keys [of T keys 0 1 parsed, folded tasks_def]
  have dkeys: "distinct (map (\<lambda>t. fst (fst (snd t))) tasks)"
    using inj len arg_cong [OF keys(2), of "map fst"]
    by (simp add: comp_def distinct_map inj_on_def)
  have dpar: "distinct (map fst tasks)" using idx keys(1) by simp
  note run = by_index_run [OF T recs fits tasks_def, where order = order, OF joined, of admin_key]
  have ids: "map (fst \<circ> compute_object_reference T) (concat (map (snd \<circ> snd) tasks)) =
      map (gas_id T \<circ> word_of_nat) [1..<1 + 2 * sum_list (map snd parsed)]"
    unfolding tasks_def by (rule file_tasks_ids [OF T])
  have d1: "distinct (map fst (map ?t tasks))" using dkeys by (simp add: comp_def split_def)
  have objs: "concat (map (snd \<circ> snd) (map ?t tasks)) = concat (map (snd \<circ> snd) tasks)"
    by (simp add: comp_def split_def)
  have d2: "distinct (map (gas_id T \<circ> word_of_nat) ([1..<1 + 2 * sum_list (map snd parsed)] @ [unat admin_starting_id]))"
    by (rule gas_ids_distinct [OF T]) (use fits admin_fits in auto)
  have perm: "mset (map ?t (order tasks)) = mset (map ?t tasks)" by (simp add: permutes_mset [OF ord])
  from d2 have "distinct (map (fst \<circ> compute_object_reference T) (concat (map (snd \<circ> snd) (map ?t tasks))))"
    by (simp only: objs ids map_append distinct_append)
  note ok = genesis_ok_join [OF perm d1 this joined]
  have gids: "mset (map (fst \<circ> compute_object_reference T) genesis) =
      mset (map (gas_id T \<circ> word_of_nat) [1..<1 + 2 * sum_list (map snd parsed)])"
    by (simp only: ids [symmetric] objs [symmetric] mset_map [of _ genesis] ok) (simp only: mset_map)
  have "map (fst \<circ> compute_object_reference T) (objects_from T (fst admin_key) (unat admin_starting_id) 1) =
      map (gas_id T \<circ> word_of_nat) [unat admin_starting_id]"
    by (simp add: objects_from_ids [OF T])
  with gids have "mset (map (fst \<circ> compute_object_reference T)
        (genesis @ objects_from T (fst admin_key) (unat admin_starting_id) 1)) =
      mset (map (gas_id T \<circ> word_of_nat) ([1..<1 + 2 * sum_list (map snd parsed)] @ [unat admin_starting_id]))"
    by (simp only: map_append mset_append)
  note dall = d2 [folded mset_eq_imp_distinct_iff [OF this]]
  have acc: "accounts = fold (\<lambda>(k, v). btree_insert k v) (map (\<lambda>t. (fst (fst (snd t)),
      new_account T (fst (fst (snd t))) (snd (fst (snd t))) (snd (snd t)))) (order tasks)) []"
    using joined [unfolded fold_accounts] by (auto simp: comp_def split_def)
  have "length accounts = length records"
    using mset_eq_length [OF conjunct2 [OF conjunct2 [OF ok]]] len by simp
  moreover have "map_of (fold (\<lambda>(k, v). btree_insert k v) (map (\<lambda>(ai, key, objs). (ai, fst key)) (order tasks)) [])
      (fst (parsed ! i)) = Some (fst (keys i))" if "i < length records" for i
    using joined_get [OF ord dpar, of i "\<lambda>t. fst (fst (snd t))"] that len file_tasks_nth [of i parsed T keys 0 1]
    by (auto simp: split_def tasks_def)
  moreover have "\<exists>acc. map_of accounts (fst (keys i)) = Some acc \<and> length (gas_objects acc) = 2 * snd (parsed ! i)"
    if "i < length records" for i
    using joined_get [OF ord dkeys, of i "\<lambda>t. new_account T (fst (fst (snd t))) (snd (fst (snd t))) (snd (snd t))"]
      that len file_tasks_nth [of i parsed T keys 0 1]
    by (auto simp: acc tasks_def new_account_def)
  ultimately show ?thesis using run ok dall by blast
qed


section \<open>A concrete instance\<close>

definition byte_types :: "(u8 list, nat, unit, u8 list \<times> nat) SuiTypes" where
  "byte_types =
     \<lparr> SUI_ADDRESS_LENGTH = 32, from_bytes = \<lambda>bs. if length bs = 32 then Inr bs else Inl (),
       with_id_owner_for_testing = \<lambda>i a. (i, a), compute_object_reference = \<lambda>(i, a). (i, 1, ()) \<rparr>"

lemma byte_types_contract: "sui_types_contract byte_types"
  by (auto simp: sui_types_contract_def byte_types_def)

section \<open>Properties\<close>

text \<open>
  C23. Creating accounts and gas objects: whatever the order in which the tasks finish, the run
  succeeds with one account per requested account and the requested number of gas objects for
  each, no two genesis objects share an ID, and the accounts hold exactly the genesis objects.
\<close>

theorem batch_create_account_and_gas_spec:
  assumes "sui_types_contract T" and "permutes order"
    and "inj_on (fst \<circ> keys) {..<unat num}" and "unat num * unat per < 2 ^ 64"
  shows "\<exists>accounts genesis. batch_create_account_and_gas T keys order num per = Inr (accounts, genesis) \<and>
    genesis_ok T accounts genesis \<and> length accounts = unat num \<and> length genesis = unat num * unat per \<and>
    (\<forall>(addr, acc) \<in> set accounts. length (gas_objects acc) = unat per)"
  using assms by (rule batch_create_ok)

theorem batch_create_account_and_gas_spec_witness:
  "\<exists>accounts genesis. batch_create_account_and_gas byte_types (\<lambda>i. (i, ())) rev 2 3 = Inr (accounts, genesis) \<and>
    length accounts = 2 \<and> length genesis = 6"
  using batch_create_account_and_gas_spec [OF byte_types_contract permutes_rev, of "\<lambda>i. (i, ())" 2 3]
  by (auto simp: inj_on_def)

text \<open>
  Creating accounts from a file of indices and counts: for a well-formed file whose IDs
  stay below the one reserved for the administrator, the run succeeds, every listed index leads
  to an account with twice the listed number of gas objects, no object ID is used twice, the
  administrator's included, and the accounts hold exactly the other genesis objects.
\<close>

theorem batch_create_by_index_spec:
  assumes "sui_types_contract T" and "permutes order"
    and "list_all2 parses_to records parsed" and "distinct (map fst parsed)"
    and "inj_on (fst \<circ> keys) {..<length records}"
    and "1 + 2 * sum_list (map snd parsed) \<le> unat admin_starting_id"
  shows "\<exists>accounts genesis indexes admin.
    batch_create_account_and_gas_by_index T keys admin_key order records =
      Inr (accounts, genesis @ objects_from T (fst admin_key) (unat admin_starting_id) 1, indexes, admin) \<and>
    genesis_ok T accounts genesis \<and> length accounts = length records \<and>
    distinct (map (fst \<circ> compute_object_reference T)
      (genesis @ objects_from T (fst admin_key) (unat admin_starting_id) 1)) \<and>
    (\<forall>i<length records. map_of indexes (fst (parsed ! i)) = Some (fst (keys i)) \<and>
       (\<exists>acc. map_of accounts (fst (keys i)) = Some acc \<and> length (gas_objects acc) = 2 * snd (parsed ! i)))"
  using assms by (rule by_index_ok)

theorem batch_create_by_index_spec_witness:
  "\<exists>accounts genesis indexes admin.
    batch_create_account_and_gas_by_index byte_types (\<lambda>i. (i, ())) (9, ()) rev [[''7'', ''2'']] =
      Inr (accounts, genesis, indexes, admin) \<and> length accounts = 1 \<and> map_of indexes 7 = Some 0"
proof -
  have "list_all2 parses_to [[''7'', ''2'']] [(7, 2)]"
    by (simp add: parses_to_def parse_uint_def is_digit_def digit_val_def)
  from batch_create_by_index_spec [OF byte_types_contract permutes_rev this, of "\<lambda>i. (i, ())" "(9, ())"]
  show ?thesis by (auto simp: inj_on_def unat_admin)
qed

end
