(* ===== verification/Sui_Store.thy ===== *)
theory Sui_Store
  imports Sui_Accounts
begin

text \<open>
  The in-memory object store of the execution-only benchmark, \<^verbatim>\<open>mock_storage.rs\<close>. The
  store is a record of the object map, the package cache and the counter of object reads. The
  lock around the map is taken for a whole operation, so an operation is one step on the record.
  Objects, packages and the package cache of the Sui libraries are parameters (\<open>StoreOps\<close>).

  The trait \<open>ObjectStore\<close> is a locale: what a lookup promises of the objects a state holds.
\<close>

section \<open>State and parameters\<close>

record ('id, 'obj, 'pc) InMemoryObjectStore =
  objects :: "'id \<Rightarrow> 'obj option"
  package_cache :: 'pc
  num_object_reads :: u64

datatype ('id, 'dg) InputObjectKind =
    MovePackage 'id
  | ImmOrOwnedMoveObject "('id, 'dg) ObjectRef"
  | SharedMoveObject 'id SequenceNumber bool

record ('id, 'obj, 'pc, 'pkg, 'dg, 'e) StoreOps =
  obj_version :: "'obj \<Rightarrow> SequenceNumber"
  owned_by_object :: "'obj \<Rightarrow> 'id \<Rightarrow> bool"
  new_package_cache :: 'pc
  cache_get_package_object ::
    "'id \<Rightarrow> ('id, 'obj, 'pc) InMemoryObjectStore \<Rightarrow> ('e + 'pkg option) \<times> ('id, 'obj, 'pc) InMemoryObjectStore"
  package_into_object :: "'pkg \<Rightarrow> 'obj"
  object_not_found_error :: "('id, 'dg) InputObjectKind \<Rightarrow> 'e"

section \<open>InMemoryObjectStore\<close>

definition InMemoryObjectStore_new ::
  "('id, 'obj, 'pc, 'pkg, 'dg, 'e) StoreOps \<Rightarrow> ('id \<Rightarrow> 'obj option) \<Rightarrow> ('id, 'obj, 'pc) InMemoryObjectStore" where
  "InMemoryObjectStore_new P objs =
     \<lparr> objects = objs, package_cache = new_package_cache P, num_object_reads = 0 \<rparr>"

definition get_num_object_reads :: "('id, 'obj, 'pc) InMemoryObjectStore \<Rightarrow> u64" where
  "get_num_object_reads s = num_object_reads s"

text \<open>The lookups always return \<open>Ok\<close>; the counter is an atomic that wraps.\<close>

definition get_object ::
  "'id \<Rightarrow> ('id, 'obj, 'pc) InMemoryObjectStore \<Rightarrow> 'obj option \<times> ('id, 'obj, 'pc) InMemoryObjectStore" where
  "get_object object_id s = (objects s object_id, s\<lparr>num_object_reads := num_object_reads s + 1\<rparr>)"

definition get_object_by_key where
  "get_object_by_key P object_id version s =
     (let (r, s') = get_object object_id s
      in (case r of
            None \<Rightarrow> None
          | Some o1 \<Rightarrow> if obj_version P o1 = version then Some o1 else None, s'))"

definition get_package_object where
  "get_package_object P package_id s = cache_get_package_object P package_id s"

definition read_child_object where
  "read_child_object P parent child child_version_upper_bound s =
     (let (r, s') = get_object child s
      in (case r of
            None \<Rightarrow> None
          | Some o1 \<Rightarrow>
              if obj_version P o1 \<le> child_version_upper_bound \<and> owned_by_object P o1 parent
              then Some o1 else None, s'))"

text \<open>The operations a benchmark never needs.\<close>

definition get_object_received_at_version :: "'id \<Rightarrow> 'id \<Rightarrow> SequenceNumber \<Rightarrow> 'ep \<Rightarrow> 'obj option res" where
  "get_object_received_at_version owner receiving_object_id version epoch_id = Inl ExplicitPanic"

definition get_latest_parent_entry_ref_deprecated :: "'id \<Rightarrow> ('id, 'dg) ObjectRef option res" where
  "get_latest_parent_entry_ref_deprecated object_id = Inl Unreachable"

definition store_get_shared_locks :: "'key \<Rightarrow> ('id \<times> SequenceNumber) list res" where
  "store_get_shared_locks key = Inl Unreachable"

text \<open>
  \<open>read_objects_for_execution\<close>. The cell holds the shared locks once they were fetched. A
  missing lock is a panic; an error of a lookup or an object that is not found ends the loop
  with that error.
\<close>

definition init_locks where
  "init_locks get_shared_locks tx_key cell =
     (case cell of Some locks \<Rightarrow> Inr locks | None \<Rightarrow> get_shared_locks tx_key)"

definition read_input where
  "read_input P get_shared_locks tx_key kind cell s =
     (case kind of
        MovePackage pid \<Rightarrow>
          (case get_package_object P pid s of
             (Inl e, s') \<Rightarrow> Inr (Inl e, cell, s')
           | (Inr pkg, s') \<Rightarrow> Inr (Inr (map_option (package_into_object P) pkg), cell, s'))
      | ImmOrOwnedMoveObject objref \<Rightarrow>
          (let (obj, s') = get_object_by_key P (fst objref) (fst (snd objref)) s
           in Inr (Inr obj, cell, s'))
      | SharedMoveObject oid _ _ \<Rightarrow>
          (case init_locks get_shared_locks tx_key cell of
             Inl e \<Rightarrow> Inr (Inl e, cell, s)
           | Inr locks \<Rightarrow>
               (case map_of (rev locks) oid of
                  None \<Rightarrow> Inl ExplicitPanic
                | Some version \<Rightarrow>
                    let (obj, s') = get_object_by_key P oid version s
                    in Inr (Inr obj, Some locks, s'))))"

fun read_inputs where
  "read_inputs P get_shared_locks tx_key [] cell input_objects s = Inr (Inr input_objects, s)"
| "read_inputs P get_shared_locks tx_key (kind # kinds) cell input_objects s =
     rbind (read_input P get_shared_locks tx_key kind cell s) (\<lambda>(r, cell', s').
     case r of
       Inl e \<Rightarrow> Inr (Inl e, s')
     | Inr None \<Rightarrow> Inr (Inl (object_not_found_error P kind), s')
     | Inr (Some obj) \<Rightarrow>
         read_inputs P get_shared_locks tx_key kinds cell' (input_objects @ [(kind, obj)]) s')"

definition read_objects_for_execution where
  "read_objects_for_execution P get_shared_locks tx_key kinds s =
     read_inputs P get_shared_locks tx_key kinds None [] s"

text \<open>\<open>commit_objects\<close> on the \<open>mutable_inputs\<close> and \<open>written\<close> of a temporary store.\<close>

definition commit_objects where
  "commit_objects mutable_inputs written s =
     (let objs = fold (\<lambda>(oid, _) m. if map_of written oid = None then m(oid := None) else m)
                   mutable_inputs (objects s);
          objs' = fold (\<lambda>(oid, obj) m. m(oid \<mapsto> obj)) written objs
      in s\<lparr>objects := objs'\<rparr>)"

section \<open>The trait ObjectStore\<close>

locale object_store =
  fixes view :: "'s \<Rightarrow> 'id \<Rightarrow> 'obj option"
    and get :: "'id \<Rightarrow> 's \<Rightarrow> 'obj option \<times> 's"
    and get_by_key :: "'id \<Rightarrow> SequenceNumber \<Rightarrow> 's \<Rightarrow> 'obj option \<times> 's"
    and version_of :: "'obj \<Rightarrow> SequenceNumber"
  assumes get_result: "fst (get oid s) = view s oid"
    and get_frame: "view (snd (get oid s)) = view s"
    and by_key_result: "fst (get_by_key oid v s) = Some x \<longleftrightarrow> view s oid = Some x \<and> version_of x = v"
    and by_key_frame: "view (snd (get_by_key oid v s)) = view s"
begin

text \<open>A sequence of lookups sees the objects of the first state.\<close>

fun get_keys :: "('id \<times> SequenceNumber) list \<Rightarrow> 's \<Rightarrow> 'obj option list \<times> 's" where
  "get_keys [] s = ([], s)"
| "get_keys ((oid, v) # ks) s =
     (let (o1, s1) = get_by_key oid v s; (os, s2) = get_keys ks s1 in (o1 # os, s2))"

lemma get_keys_frame: "view (snd (get_keys ks s)) = view s"
proof (induction ks arbitrary: s)
  case (Cons k ks)
  then show ?case
    using by_key_frame [of "fst k" "snd k" s] by (cases k) (simp add: split_def Let_def)
qed simp

lemma by_key_view: "fst (get_by_key oid v s) = (case view s oid of Some x \<Rightarrow> if version_of x = v then Some x else None | None \<Rightarrow> None)"
proof (cases "fst (get_by_key oid v s)")
  case None
  then have "\<not> (view s oid = Some x \<and> version_of x = v)" for x using by_key_result [of oid v s x] by simp
  with None show ?thesis by (auto split: option.split)
next
  case (Some x)
  with by_key_result [of oid v s x] show ?thesis by simp
qed

lemma get_keys_result: "fst (get_keys ks s) = map (\<lambda>(oid, v). fst (get_by_key oid v s)) ks"
proof (induction ks arbitrary: s)
  case (Cons k ks)
  obtain oid v where k: "k = (oid, v)" by (cases k)
  have "fst (get_by_key i w (snd (get_by_key oid v s))) = fst (get_by_key i w s)" for i w
    by (simp add: by_key_view by_key_frame)
  with Cons.IH [of "snd (get_by_key oid v s)"] show ?case by (simp add: k split_def Let_def)
qed simp

end

interpretation mem: object_store objects get_object "get_object_by_key P" "obj_version P" for P
  by unfold_locales (auto simp: get_object_def get_object_by_key_def split: option.splits if_splits)

section \<open>What reading returns\<close>

text \<open>
  The package cache is state of its own: a hit answers from the cache and does not look at the
  objects. \<open>cached\<close> is what a cache holds, \<open>package_of\<close> reads an object as a package. The cache
  agrees with the objects when everything it holds is the package of the object stored under
  that ID.
\<close>

definition package_at where
  "package_at package_of objs pid =
     (case objs pid of None \<Rightarrow> Inr None | Some x \<Rightarrow> rbind (package_of pid x) (\<lambda>pkg. Inr (Some pkg)))"

definition cache_agrees where
  "cache_agrees package_of cached s \<longleftrightarrow>
     (\<forall>pid pkg. cached (package_cache s) pid = Some pkg \<longrightarrow> package_at package_of (objects s) pid = Inr (Some pkg))"

text \<open>
  What the code relies on of the package cache, for every store, whether the cache agrees or
  not: a new cache is empty; a hit returns the cached package, a miss the package of the stored
  object; a lookup changes no object, and afterwards the cache holds only what it held before
  (entries may be evicted) or packages of stored objects. A package turns back into the object
  it was read from.
\<close>

definition cache_contract where
  "cache_contract P package_of cached \<longleftrightarrow>
     (\<forall>pid. cached (new_package_cache P) pid = None) \<and>
     (\<forall>pid x pkg. package_of pid x = Inr pkg \<longrightarrow> package_into_object P pkg = x) \<and>
     (\<forall>pid s r s'. cache_get_package_object P pid s = (r, s') \<longrightarrow>
        r = (case cached (package_cache s) pid of
               Some pkg \<Rightarrow> Inr (Some pkg)
             | None \<Rightarrow> package_at package_of (objects s) pid) \<and>
        objects s' = objects s \<and>
        (\<forall>q pkg. cached (package_cache s') q = Some pkg \<longrightarrow>
           cached (package_cache s) q = Some pkg \<or> package_at package_of (objects s) q = Inr (Some pkg)))"

lemma cache_agrees_new: "cache_contract P package_of cached \<Longrightarrow> cache_agrees package_of cached (InMemoryObjectStore_new P objs)"
  by (simp add: cache_contract_def cache_agrees_def InMemoryObjectStore_new_def)

lemma cache_agrees_reads [simp]:
  "cache_agrees package_of cached (s\<lparr>num_object_reads := n\<rparr>) = cache_agrees package_of cached s"
  by (simp add: cache_agrees_def)

lemma cache_lookup:
  assumes C: "cache_contract P package_of cached" and A: "cache_agrees package_of cached s"
    and g: "cache_get_package_object P pid s = (r, s')"
  shows "r = package_at package_of (objects s) pid" "objects s' = objects s" "cache_agrees package_of cached s'"
proof -
  note C' = C [unfolded cache_contract_def, THEN conjunct2, THEN conjunct2, rule_format, OF g]
  show "r = package_at package_of (objects s) pid"
    using C' A by (simp add: cache_agrees_def split: option.splits)
  show objs: "objects s' = objects s" using C' by simp
  show "cache_agrees package_of cached s'"
    using C' A by (auto simp: cache_agrees_def objs)
qed

lemma package_at_object:
  assumes "cache_contract P package_of cached"
  shows "rbind (package_at package_of objs pid) (\<lambda>pkg. Inr (map_option (package_into_object P) pkg)) =
    (case objs pid of None \<Rightarrow> Inr None | Some x \<Rightarrow> rbind (package_of pid x) (\<lambda>_. Inr (Some x)))"
  using assms by (auto simp: cache_contract_def package_at_def rbind_def split: option.split sum.split)

text \<open>
  The specification of one input: its object, or the error for it. A package input gives the
  object stored under its ID if that is a package, and the error of reading it as one if not.
\<close>

definition object_at where
  "object_at P objs oid v = (case objs oid of Some x \<Rightarrow> if obj_version P x = v then Some x else None | None \<Rightarrow> None)"

definition lookup_spec where
  "lookup_spec P package_of locks objs kind =
     rbind (case kind of
              MovePackage pid \<Rightarrow> (case objs pid of None \<Rightarrow> Inr None | Some x \<Rightarrow> rbind (package_of pid x) (\<lambda>_. Inr (Some x)))
            | ImmOrOwnedMoveObject (oid, v, _) \<Rightarrow> Inr (object_at P objs oid v)
            | SharedMoveObject oid _ _ \<Rightarrow> Inr (object_at P objs oid (the (map_of (rev locks) oid))))
       (\<lambda>found. case found of None \<Rightarrow> Inl (object_not_found_error P kind) | Some obj \<Rightarrow> Inr (kind, obj))"

fun shared_id :: "('id, 'dg) InputObjectKind \<Rightarrow> 'id option" where
  "shared_id (SharedMoveObject oid _ _) = Some oid"
| "shared_id _ = None"

lemma get_object_by_key_object_at:
  "get_object_by_key P oid v s = (object_at P (objects s) oid v, s\<lparr>num_object_reads := num_object_reads s + 1\<rparr>)"
  by (simp add: get_object_by_key_def get_object_def object_at_def split: option.split)

lemma read_input_spec:
  assumes C: "cache_contract P package_of cached" and A: "cache_agrees package_of cached s"
    and L: "get_shared_locks tx_key = Inr locks"
    and cell: "cell = None \<or> cell = Some locks"
    and sh: "\<And>oid. shared_id kind = Some oid \<Longrightarrow> map_of (rev locks) oid \<noteq> None"
  shows "\<exists>r cell' s'. read_input P get_shared_locks tx_key kind cell s = Inr (r, cell', s') \<and>
    objects s' = objects s \<and> cache_agrees package_of cached s' \<and> (cell' = None \<or> cell' = Some locks) \<and>
    rbind r (\<lambda>found. case found of None \<Rightarrow> Inl (object_not_found_error P kind) | Some obj \<Rightarrow> Inr (kind, obj)) =
      lookup_spec P package_of locks (objects s) kind"
proof (cases kind)
  case (MovePackage pid)
  obtain r s' where g: "cache_get_package_object P pid s = (r, s')" by fastforce
  note l = cache_lookup [OF C A g] and o = package_at_object [OF C, of "objects s" pid, folded cache_lookup(1) [OF C A g]]
  show ?thesis
  proof (cases r)
    case (Inl e)
    with o have "(case objects s pid of None \<Rightarrow> Inr None | Some x \<Rightarrow> rbind (package_of pid x) (\<lambda>_. Inr (Some x))) = Inl e"
      by simp
    with g l(2,3) cell MovePackage Inl show ?thesis
      by (simp add: read_input_def get_package_object_def lookup_spec_def)
  next
    case (Inr pkg)
    with o have "(case objects s pid of None \<Rightarrow> Inr None | Some x \<Rightarrow> rbind (package_of pid x) (\<lambda>_. Inr (Some x))) =
        Inr (map_option (package_into_object P) pkg)"
      by simp
    with g l(2,3) cell MovePackage Inr show ?thesis
      by (simp add: read_input_def get_package_object_def lookup_spec_def)
  qed
next
  case (ImmOrOwnedMoveObject objref)
  with cell A show ?thesis
    by (cases objref) (auto simp: read_input_def get_object_by_key_object_at lookup_spec_def)
next
  case (SharedMoveObject oid v m)
  with sh obtain w where "map_of (rev locks) oid = Some w" by fastforce
  moreover have "init_locks get_shared_locks tx_key cell = Inr locks"
    using cell L by (auto simp: init_locks_def)
  ultimately show ?thesis
    using SharedMoveObject A by (auto simp: read_input_def get_object_by_key_object_at lookup_spec_def)
qed

lemma read_inputs_spec:
  assumes C: "cache_contract P package_of cached" and L: "get_shared_locks tx_key = Inr locks"
  shows "cache_agrees package_of cached s \<Longrightarrow> cell = None \<or> cell = Some locks \<Longrightarrow>
    (\<forall>kind \<in> set kinds. \<forall>oid. shared_id kind = Some oid \<longrightarrow> map_of (rev locks) oid \<noteq> None) \<Longrightarrow>
    \<exists>s'. read_inputs P get_shared_locks tx_key kinds cell acc s =
      Inr (rbind (mapM (lookup_spec P package_of locks (objects s)) kinds) (\<lambda>ios. Inr (acc @ ios)), s') \<and>
      objects s' = objects s \<and> cache_agrees package_of cached s'"
proof (induction kinds arbitrary: cell acc s)
  case (Cons kind kinds)
  obtain r cell' s1 where one: "read_input P get_shared_locks tx_key kind cell s = Inr (r, cell', s1)"
    "objects s1 = objects s" "cell' = None \<or> cell' = Some locks" "cache_agrees package_of cached s1"
    and r: "rbind r (\<lambda>found. case found of None \<Rightarrow> Inl (object_not_found_error P kind) | Some obj \<Rightarrow> Inr (kind, obj)) =
      lookup_spec P package_of locks (objects s) kind"
    using read_input_spec [OF C Cons.prems(1), where get_shared_locks = get_shared_locks and kind = kind, OF L Cons.prems(2)]
      Cons.prems(3) by fastforce
  show ?case
  proof (cases r)
    case (Inl e)
    with r have "lookup_spec P package_of locks (objects s) kind = Inl e" by simp
    with one Inl show ?thesis by simp
  next
    case (Inr found)
    show ?thesis
    proof (cases found)
      case None
      with r Inr have "lookup_spec P package_of locks (objects s) kind = Inl (object_not_found_error P kind)" by simp
      with one Inr None show ?thesis by simp
    next
      case (Some obj)
      with r Inr have now: "lookup_spec P package_of locks (objects s) kind = Inr (kind, obj)" by simp
      from Cons.IH [OF one(4,3), of "acc @ [(kind, obj)]"] Cons.prems(3) one(2) obtain s' where
        "read_inputs P get_shared_locks tx_key kinds cell' (acc @ [(kind, obj)]) s1 =
          Inr (rbind (mapM (lookup_spec P package_of locks (objects s)) kinds) (\<lambda>ios. Inr (acc @ [(kind, obj)] @ ios)), s')"
        "objects s' = objects s" "cache_agrees package_of cached s'" by auto
      with one Inr Some now show ?thesis by (simp add: rbind_assoc)
    qed
  qed
qed simp

section \<open>What committing does\<close>

lemma fold_removals:
  "fold (\<lambda>(oid, _) m. if map_of written oid = None then m(oid := None) else m) mi objs =
     (\<lambda>oid. if oid \<in> fst ` set mi \<and> map_of written oid = None then None else objs oid)"
  by (induction mi arbitrary: objs) (auto simp: fun_eq_iff)

lemma fold_writes: "fold (\<lambda>(oid, obj) m. m(oid \<mapsto> obj)) written objs = objs ++ map_of (rev written)"
proof (induction written arbitrary: objs)
  case (Cons p w)
  then show ?case by (cases p) (simp add: map_add_def fun_eq_iff split: option.split)
qed simp

lemma commit_objects_objects:
  assumes "distinct (map fst written)"
  shows "objects (commit_objects mutable_inputs written s) oid =
    (case map_of written oid of
       Some obj \<Rightarrow> Some obj
     | None \<Rightarrow> if oid \<in> fst ` set mutable_inputs then None else objects s oid)"
proof -
  have "map_of (rev written) = map_of written"
    by (rule map_of_inject_set [THEN iffD2]) (use assms in \<open>simp_all add: rev_map [symmetric]\<close>)
  then show ?thesis
    by (simp add: commit_objects_def Let_def fold_removals fold_writes map_add_def split: option.split)
qed

text \<open>A commit that leaves the stored packages alone keeps the cache in agreement.\<close>

lemma cache_agrees_commit:
  assumes "distinct (map fst written)" and "cache_agrees package_of cached s"
    and "\<And>pid pkg. package_at package_of (objects s) pid = Inr (Some pkg) \<Longrightarrow>
      pid \<notin> fst ` set mutable_inputs \<union> fst ` set written"
  shows "cache_agrees package_of cached (commit_objects mutable_inputs written s)"
  unfolding cache_agrees_def
proof (intro allI impI)
  fix pid pkg
  assume "cached (package_cache (commit_objects mutable_inputs written s)) pid = Some pkg"
  then have "cached (package_cache s) pid = Some pkg" by (simp add: commit_objects_def Let_def)
  with assms(2) have now: "package_at package_of (objects s) pid = Inr (Some pkg)" by (simp add: cache_agrees_def)
  from assms(3) [OF this] have "objects (commit_objects mutable_inputs written s) pid = objects s pid"
    by (simp add: commit_objects_objects [OF assms(1)] map_of_eq_None_iff [THEN iffD2])
  with now show "package_at package_of (objects (commit_objects mutable_inputs written s)) pid = Inr (Some pkg)"
    by (simp add: package_at_def)
qed

lemma commit_objects_reads: "num_object_reads (commit_objects mi written s) = num_object_reads s"
  by (simp add: commit_objects_def Let_def)


section \<open>A concrete store\<close>

text \<open>
  Objects are pairs of a version and a parent; the packages are the objects at version 1. The
  cache is a map that is filled on a miss; a miss reads the object.
\<close>

definition pair_package_of :: "nat \<Rightarrow> nat \<times> nat \<Rightarrow> (nat, unit) InputObjectKind + nat \<times> nat" where
  "pair_package_of pid x = (if fst x = 1 then Inr x else Inl (MovePackage pid))"

definition pair_get_package ::
  "nat \<Rightarrow> (nat, nat \<times> nat, nat \<Rightarrow> (nat \<times> nat) option) InMemoryObjectStore \<Rightarrow>
     ((nat, unit) InputObjectKind + (nat \<times> nat) option) \<times> (nat, nat \<times> nat, nat \<Rightarrow> (nat \<times> nat) option) InMemoryObjectStore" where
  "pair_get_package pid s =
     (case package_cache s pid of
        Some pkg \<Rightarrow> (Inr (Some pkg), s)
      | None \<Rightarrow>
          (case get_object pid s of
             (None, s') \<Rightarrow> (Inr None, s')
           | (Some x, s') \<Rightarrow>
               (case pair_package_of pid x of
                  Inl e \<Rightarrow> (Inl e, s')
                | Inr pkg \<Rightarrow> (Inr (Some pkg), s'\<lparr>package_cache := (package_cache s')(pid \<mapsto> pkg)\<rparr>))))"

definition pair_ops :: "(nat, nat \<times> nat, nat \<Rightarrow> (nat \<times> nat) option, nat \<times> nat, unit, (nat, unit) InputObjectKind) StoreOps" where
  "pair_ops =
     \<lparr> obj_version = fst, owned_by_object = \<lambda>x parent. snd x = parent, new_package_cache = \<lambda>_. None,
       cache_get_package_object = pair_get_package, package_into_object = id, object_not_found_error = id \<rparr>"

definition pair_store :: "(nat, nat \<times> nat, nat \<Rightarrow> (nat \<times> nat) option) InMemoryObjectStore" where
  "pair_store = InMemoryObjectStore_new pair_ops [0 \<mapsto> (1, 0), 1 \<mapsto> (4, 0), 2 \<mapsto> (6, 0), 3 \<mapsto> (7, 0)]"

lemma pair_ops_contract: "cache_contract pair_ops pair_package_of (\<lambda>pc. pc)"
  by (auto simp: cache_contract_def pair_ops_def pair_get_package_def pair_package_of_def get_object_def package_at_def
      split: option.splits if_splits)

section \<open>Properties\<close>

text \<open>
  C24. On a store whose package cache agrees with its objects, \<open>read_objects_for_execution\<close> with
  locks for every shared input never panics, changes no object and leaves the cache in
  agreement. It returns the inputs in order, each with the object the store holds: for a package
  the object under its ID, also when the cache answers; otherwise the object at the version the
  input names (the locked version for a shared object). The first input that has no such object
  ends it with the error for that input.
\<close>

theorem read_objects_for_execution_spec:
  assumes "cache_contract P package_of cached" and "cache_agrees package_of cached s"
    and "get_shared_locks tx_key = Inr locks"
    and "\<forall>kind \<in> set kinds. \<forall>oid. shared_id kind = Some oid \<longrightarrow> map_of (rev locks) oid \<noteq> None"
  shows "\<exists>s'. read_objects_for_execution P get_shared_locks tx_key kinds s =
      Inr (mapM (lookup_spec P package_of locks (objects s)) kinds, s') \<and>
    objects s' = objects s \<and> cache_agrees package_of cached s'"
  using read_inputs_spec [OF assms(1), where get_shared_locks = get_shared_locks and cell = None and acc = "[]",
      OF assms(3,2) _ assms(4)]
  by (simp add: read_objects_for_execution_def rbind_def) (metis (no_types, lifting) sum.case_eq_if sum.collapse)

theorem read_objects_for_execution_spec_witness:
  "\<exists>s'. read_objects_for_execution pair_ops (\<lambda>key. Inr [(2, 6)]) ()
      [MovePackage 0, SharedMoveObject 2 1 True, ImmOrOwnedMoveObject (1, 4, ()), MovePackage 0] pair_store =
      Inr (Inr [(MovePackage 0, (1, 0)), (SharedMoveObject 2 1 True, (6, 0)), (ImmOrOwnedMoveObject (1, 4, ()), (4, 0)),
        (MovePackage 0, (1, 0))], s') \<and>
    objects s' = objects pair_store \<and> cache_agrees pair_package_of (\<lambda>pc. pc) s'"
proof -
  have agrees: "cache_agrees pair_package_of (\<lambda>pc. pc) pair_store"
    unfolding pair_store_def by (rule cache_agrees_new [OF pair_ops_contract])
  show ?thesis
    using read_objects_for_execution_spec [OF pair_ops_contract agrees, of "\<lambda>key. Inr [(2, 6)]" "()" "[(2, 6)]"
        "[MovePackage 0, SharedMoveObject 2 1 True, ImmOrOwnedMoveObject (1, 4, ()), MovePackage 0]"]
    by (simp add: lookup_spec_def object_at_def pair_store_def InMemoryObjectStore_new_def pair_package_of_def)
      (simp add: pair_ops_def)
qed

text \<open>
  C25. Committing the outputs of a transaction and reading them back: every written object is
  found at its new version, a mutable input that was not written is gone, an input that names
  an older version of a written object is rejected, and every other object is as before.
\<close>

theorem commit_then_read:
  assumes "distinct (map fst written)"
  shows "let s' = commit_objects mutable_inputs written s; found = (\<lambda>oid v. fst (get_object_by_key P oid v s'))
    in (\<forall>(oid, obj) \<in> set written. \<forall>v. found oid v = (if v = obj_version P obj then Some obj else None)) \<and>
       (\<forall>oid v. oid \<in> fst ` set mutable_inputs - fst ` set written \<longrightarrow> found oid v = None) \<and>
       (\<forall>oid v. oid \<notin> fst ` set mutable_inputs \<union> fst ` set written \<longrightarrow>
          found oid v = fst (get_object_by_key P oid v s)) \<and>
       get_num_object_reads s' = get_num_object_reads s"
  by (auto simp: Let_def get_object_by_key_object_at object_at_def commit_objects_objects [OF assms]
      get_num_object_reads_def commit_objects_reads map_of_eq_None_iff [THEN iffD2] assms
      split: option.splits dest: eq_key_imp_eq_value [OF assms])

theorem commit_then_read_witness:
  "fst (get_object_by_key pair_ops 1 5 (commit_objects [(1, ()), (3, ())] [(1, (5, 0))] pair_store)) = Some (5, 0) \<and>
   fst (get_object_by_key pair_ops 3 7 (commit_objects [(1, ()), (3, ())] [(1, (5, 0))] pair_store)) = None"
proof -
  have ver: "obj_version pair_ops (5, 0) = 5" by (simp add: pair_ops_def)
  have "distinct (map fst [(1 :: nat, (5 :: nat, 0 :: nat))])" by simp
  from commit_then_read [OF this, of "[(1, ()), (3, ())]" pair_store pair_ops] show ?thesis
    by (simp add: Let_def ver)
qed

end
