(* ===== verification/Sui_Generators.thy ===== *)
theory Sui_Generators
  imports Sui_Accounts
begin

text \<open>
  The transaction generators of the Sui benchmark, the modules of \<^verbatim>\<open>tx_generator\<close>. The
  builders of transactions, BCS and signing belong to the Sui libraries and are parameters
  (\<open>TxOps\<close>); the values a generator draws from \<open>thread_rng\<close> are the parameter \<open>Rng\<close>.

  The trait \<open>TxGenerator\<close> is a locale with an interpretation for every generator. The
  generator of the unmodified benchmark is modelled beside the modified one, and the two are
  compared.
\<close>

section \<open>Transactions\<close>

datatype ('id, 'dg) ObjectArg =
    ImmOrOwnedObject "('id, 'dg) ObjectRef"
  | SharedObject 'id SequenceNumber bool

datatype ('id, 'dg, 'bytes) CallArg = Pure 'bytes | ObjectArg "('id, 'dg) ObjectArg"

datatype ('bytes, 'cp) PublishData = ModuleBytes "'bytes list" | CompiledPackage 'cp

record Rng =
  gene_id :: "128 word"
  land_x :: u16
  land_y :: u16

record ('id, 'addr, 'dg, 'kp, 'b, 'arg, 'pt, 'bytes, 'cp, 'e, 'tx) TxOps =
  DEFAULT_VALIDATOR_GAS_PRICE :: u64
  bcs_address :: "'addr \<Rightarrow> 'e + 'bytes"
  bcs_u16 :: "u16 \<Rightarrow> 'e + 'bytes"
  bcs_u64 :: "u64 \<Rightarrow> 'e + 'bytes"
  bcs_u128 :: "128 word \<Rightarrow> 'e + 'bytes"
  ptb_new :: 'b
  transfer_object :: "'addr \<Rightarrow> ('id, 'dg) ObjectRef \<Rightarrow> 'b \<Rightarrow> 'e + 'b"
  move_call :: "'id \<Rightarrow> string \<Rightarrow> string \<Rightarrow> ('id, 'dg, 'bytes) CallArg list \<Rightarrow> 'b \<Rightarrow> 'e + 'b"
  ptb_obj :: "('id, 'dg) ObjectArg \<Rightarrow> 'b \<Rightarrow> 'e + 'arg \<times> 'b"
  ptb_pure :: "u64 \<Rightarrow> 'b \<Rightarrow> 'e + 'arg \<times> 'b"
  programmable_move_call :: "'id \<Rightarrow> string \<Rightarrow> string \<Rightarrow> 'arg list \<Rightarrow> 'b \<Rightarrow> 'b"
  ptb_finish :: "'b \<Rightarrow> 'pt"
  sign_programmable :: "'addr \<Rightarrow> ('id, 'dg) ObjectRef \<Rightarrow> u64 \<Rightarrow> 'pt \<Rightarrow> 'kp \<Rightarrow> 'tx"
  sign_move_call :: "'addr \<Rightarrow> ('id, 'dg) ObjectRef \<Rightarrow> u64 \<Rightarrow> 'id \<Rightarrow> string \<Rightarrow> string \<Rightarrow>
    ('id, 'dg, 'bytes) CallArg list \<Rightarrow> 'kp \<Rightarrow> 'tx"
  sign_publish :: "'addr \<Rightarrow> ('id, 'dg) ObjectRef \<Rightarrow> u64 \<Rightarrow> ('bytes, 'cp) PublishData \<Rightarrow> 'kp \<Rightarrow> 'tx"

type_synonym Args = "(string \<times> nat) list"

text \<open>\<open>args.get(&name).copied().unwrap_or(0)\<close>\<close>

definition get_arg :: "Args \<Rightarrow> string \<Rightarrow> nat" where
  "get_arg args name = (case map_of args name of Some v \<Rightarrow> v | None \<Rightarrow> 0)"

section \<open>The object-creating generators\<close>

text \<open>
  The four generators build one Move call, paid with the first gas object of the account. Only
  the function they call and its arguments differ.
\<close>

definition RootObjectCreate_generate_tx where
  "RootObjectCreate_generate_tx P move_package child_per_root (account :: ('id, 'addr, 'dg, 'kp) Account) (to :: 'addr) (args :: Args)
       (objects :: ('id, 'dg) ObjectRef list) (rng :: Rng) =
     rbind (index_at (gas_objects account) 0) (\<lambda>gas.
     rbind (unwrap_ok (bcs_u64 P child_per_root)) (\<lambda>bytes.
     Inr (sign_move_call P (sender account) gas (DEFAULT_VALIDATOR_GAS_PRICE P) move_package
            ''benchmark'' ''generate_dynamic_fields'' [Pure bytes] (keypair account))))"

definition SharedObjectCreate_generate_tx where
  "SharedObjectCreate_generate_tx P move_package (account :: ('id, 'addr, 'dg, 'kp) Account) (to :: 'addr) (args :: Args)
       (objects :: ('id, 'dg) ObjectRef list) (rng :: Rng) =
     rbind (index_at (gas_objects account) 0) (\<lambda>gas.
     Inr (sign_move_call P (sender account) gas (DEFAULT_VALIDATOR_GAS_PRICE P) move_package
            ''benchmark'' ''create_shared_counter'' [] (keypair account)))"

definition KittyObjectCreate_generate_tx where
  "KittyObjectCreate_generate_tx P move_package (account :: ('id, 'addr, 'dg, 'kp) Account) (to :: 'addr) (args :: Args)
       (objects :: ('id, 'dg) ObjectRef list) (rng :: Rng) =
     rbind (index_at (gas_objects account) 0) (\<lambda>gas.
     rbind (unwrap_ok (bcs_u128 P (gene_id rng))) (\<lambda>bytes.
     Inr (sign_move_call P (sender account) gas (DEFAULT_VALIDATOR_GAS_PRICE P) move_package
            ''KittyBreeding'' ''mint'' [Pure bytes] (keypair account))))"

definition LandObjectCreate_generate_tx where
  "LandObjectCreate_generate_tx P move_package (account :: ('id, 'addr, 'dg, 'kp) Account) (to :: 'addr) (args :: Args)
       (objects :: ('id, 'dg) ObjectRef list) (rng :: Rng) =
     rbind (index_at (gas_objects account) 0) (\<lambda>gas.
     Inr (sign_move_call P (sender account) gas (DEFAULT_VALIDATOR_GAS_PRICE P) move_package
            ''MillionPixel'' ''create_land_records'' [] (keypair account)))"

definition PackagePublish_generate_tx where
  "PackagePublish_generate_tx P compiled_package (account :: ('id, 'addr, 'dg, 'kp) Account) (to :: 'addr) (args :: Args)
       (objects :: ('id, 'dg) ObjectRef list) (rng :: Rng) =
     rbind (index_at (gas_objects account) 0) (\<lambda>gas.
     Inr (sign_publish P (sender account) gas (DEFAULT_VALIDATOR_GAS_PRICE P)
            (CompiledPackage compiled_package) (keypair account)))"

section \<open>MoveTxGenerator\<close>

record ('id, 'addr, 'dg) MoveTxGenerator =
  move_package :: 'id
  num_transfers :: u64
  use_native_transfer :: bool
  computation :: u8
  root_objects :: "('addr \<times> ('id, 'dg) ObjectRef) list"
  shared_objects :: "('id \<times> SequenceNumber) list"
  erc20_transfer :: bool
  kitty_objects :: "('addr \<times> ('id, 'dg) ObjectRef) list"
  land_objects :: "(u16 \<times> 'id \<times> SequenceNumber) list"

definition transfer_steps where
  "transfer_steps P package n native account b =
     foldM (\<lambda>b i.
         rbind (index_at (gas_objects account) i) (\<lambda>object.
         unwrap_ok (if native then transfer_object P (sender account) object b
           else move_call P package ''benchmark'' ''transfer_coin'' [ObjectArg (ImmOrOwnedObject object)] b)))
       b [1..<Suc (unat (n :: u64))]"

definition shared_step where
  "shared_step P G args b =
     (if shared_objects G = [] then Inr b
      else rbind (index_at (shared_objects G) (get_arg args ''shared_obj_index'')) (\<lambda>so.
        unwrap_ok (move_call P (move_package G) ''benchmark'' ''increment_shared_counter''
          [ObjectArg (SharedObject (fst so) (snd so) True)] b)))"

definition root_step where
  "root_step P package roots account b =
     (if roots = [] then Inr b
      else rbind (unwrap (map_of roots (sender account))) (\<lambda>root_object.
           rbind (unwrap_ok (ptb_obj P (ImmOrOwnedObject root_object) b)) (\<lambda>(arg, b').
           Inr (programmable_move_call P package ''benchmark'' ''read_dynamic_fields'' [arg] b'))))"

definition computation_step where
  "computation_step P package (intensity :: u8) b =
     (if intensity = 0 then Inr b
      else rbind (mul_c (ucast intensity) 100) (\<lambda>n.
           rbind (unwrap_ok (ptb_pure P n b)) (\<lambda>(arg, b').
           Inr (programmable_move_call P package ''benchmark'' ''run_computation'' [arg] b'))))"

definition erc20_step where
  "erc20_step P G account args b =
     (if \<not> erc20_transfer G then Inr b
      else rbind (index_at (gas_objects account)
                    (length (gas_objects account) div 2 + get_arg args ''obj_index'')) (\<lambda>object.
           unwrap_ok (move_call P (move_package G) ''benchmark'' ''transfer_coin''
             [ObjectArg (ImmOrOwnedObject object)] b)))"

definition kitty_step where
  "kitty_step P G account to args objects b =
     (if kitty_objects G = [] then Inr b
      else rbind (unwrap (map_of (kitty_objects G) (sender account))) (\<lambda>kitty_object.
        if get_arg args ''kitty_fn'' = 1
        then rbind (unwrap_ok (bcs_address P to)) (\<lambda>bytes.
             unwrap_ok (move_call P (move_package G) ''KittyBreeding'' ''provide_gene''
               [ObjectArg (ImmOrOwnedObject kitty_object), Pure bytes] b))
        else rbind (index_at objects 0) (\<lambda>gene_object.
             rbind (index_at objects 1) (\<lambda>new_kitty_object.
             unwrap_ok (move_call P (move_package G) ''KittyBreeding'' ''breed''
               [ObjectArg (ImmOrOwnedObject gene_object), ObjectArg (ImmOrOwnedObject new_kitty_object)] b)))))"

text \<open>The index of the land a pixel belongs to; \<open>len() as u16\<close> truncates.\<close>

definition land_index :: "nat \<Rightarrow> u16 \<Rightarrow> u16 \<Rightarrow> u16 res" where
  "land_index n x y =
     (let len = word_of_nat n :: u16
      in rbind (mul_c (ucast x :: u32) 65536) (\<lambda>hi.
         rbind (add_c hi (ucast y)) (\<lambda>key.
         rbind (mod_c key (ucast len)) (\<lambda>i. Inr (ucast i)))))"

definition land_step where
  "land_step P G rng b =
     (if land_objects G = [] then Inr b
      else rbind (land_index (length (land_objects G)) (land_x rng) (land_y rng)) (\<lambda>index.
           rbind (unwrap (map_of (land_objects G) index)) (\<lambda>land_object.
           rbind (unwrap_ok (bcs_u16 P (land_x rng))) (\<lambda>bx.
           rbind (unwrap_ok (bcs_u16 P (land_y rng))) (\<lambda>by1.
           unwrap_ok (move_call P (move_package G) ''MillionPixel'' ''occupy''
             [ObjectArg (SharedObject (fst land_object) (snd land_object) True), Pure bx, Pure by1] b))))))"

definition MoveTx_generate_tx where
  "MoveTx_generate_tx P G account to args objects rng =
     rbind (transfer_steps P (move_package G) (num_transfers G) (use_native_transfer G) account (ptb_new P)) (\<lambda>b.
     rbind (shared_step P G args b) (\<lambda>b.
     rbind (root_step P (move_package G) (root_objects G) account b) (\<lambda>b.
     rbind (computation_step P (move_package G) (computation G) b) (\<lambda>b.
     rbind (erc20_step P G account args b) (\<lambda>b.
     rbind (kitty_step P G account to args objects b) (\<lambda>b.
     rbind (land_step P G rng b) (\<lambda>b.
     rbind (index_at (gas_objects account) (get_arg args ''obj_index'')) (\<lambda>gas.
     Inr (sign_programmable P (sender account) gas (DEFAULT_VALIDATOR_GAS_PRICE P) (ptb_finish P b)
            (keypair account))))))))))"

definition shared_obj_num where
  "shared_obj_num G = length (shared_objects G)"

section \<open>The generator of the unmodified benchmark\<close>

record ('id, 'addr, 'dg) OriginalGenerator =
  orig_move_package :: 'id
  orig_num_transfers :: u64
  orig_use_native_transfer :: bool
  orig_computation :: u8
  orig_root_objects :: "('addr \<times> ('id, 'dg) ObjectRef) list"
  orig_shared_objects :: "('id \<times> SequenceNumber) list"

definition original_shared_steps where
  "original_shared_steps P package shared b =
     foldM (\<lambda>b so. unwrap_ok (move_call P package ''benchmark'' ''increment_shared_counter''
        [ObjectArg (SharedObject (fst so) (snd so) True)] b)) b shared"

definition original_generate_tx where
  "original_generate_tx P G account =
     rbind (transfer_steps P (orig_move_package G) (orig_num_transfers G) (orig_use_native_transfer G) account (ptb_new P)) (\<lambda>b.
     rbind (original_shared_steps P (orig_move_package G) (orig_shared_objects G) b) (\<lambda>b.
     rbind (root_step P (orig_move_package G) (orig_root_objects G) account b) (\<lambda>b.
     rbind (computation_step P (orig_move_package G) (orig_computation G) b) (\<lambda>b.
     rbind (index_at (gas_objects account) 0) (\<lambda>gas.
     Inr (sign_programmable P (sender account) gas (DEFAULT_VALIDATOR_GAS_PRICE P) (ptb_finish P b)
            (keypair account)))))))"

section \<open>Names\<close>

definition RootObjectCreate_name :: string where
  "RootObjectCreate_name = ''Root Object Creation Transaction Generator''"

definition SharedObjectCreate_name :: string where
  "SharedObjectCreate_name = ''Shared Object Creation Transaction Generator''"

definition KittyObjectCreate_name :: string where
  "KittyObjectCreate_name = ''Kitty Object Creation Transaction Generator''"

definition LandObjectCreate_name :: string where
  "LandObjectCreate_name = ''Kitty Object Creation Transaction Generator''"

definition MoveTx_name :: string where
  "MoveTx_name = ''Programmable Move Transaction Generator''"

section \<open>What a builder promises\<close>

text \<open>
  The commands of a transaction under construction. An operand is an argument of
  \<open>move_call\<close>, or a number encoded by \<open>pure\<close>.
\<close>

datatype ('id, 'dg, 'bytes) operand = Arg "('id, 'dg, 'bytes) CallArg" | U64 u64

datatype ('id, 'addr, 'dg, 'bytes) command =
    Transfer 'addr "('id, 'dg) ObjectRef"
  | Call 'id string string "('id, 'dg, 'bytes) operand list"

fun arg_id :: "('id, 'dg) ObjectArg \<Rightarrow> 'id" where
  "arg_id (ImmOrOwnedObject r) = fst r"
| "arg_id (SharedObject oid _ _) = oid"

fun call_objects :: "('id, 'dg, 'bytes) CallArg list \<Rightarrow> ('id, 'dg) ObjectArg set" where
  "call_objects [] = {}"
| "call_objects (Pure _ # args) = call_objects args"
| "call_objects (ObjectArg oa # args) = insert oa (call_objects args)"

text \<open>The inputs of a transaction name an object in one way only.\<close>

definition consistent :: "('id, 'dg) ObjectArg set \<Rightarrow> bool" where
  "consistent A \<longleftrightarrow> inj_on arg_id A"

lemma consistent_subset: "consistent A \<Longrightarrow> B \<subseteq> A \<Longrightarrow> consistent B"
  unfolding consistent_def by (rule inj_on_subset)

text \<open>
  What the code relies on: an operation with consistent inputs succeeds, it appends one command
  with the given operands, and BCS encodes every value. \<open>cmds\<close> and \<open>inputs\<close> observe a
  builder; \<open>denote\<close> is the operand behind an argument handle.
\<close>

definition builder_contract where
  "builder_contract P cmds inputs denote \<longleftrightarrow>
     (\<forall>a. \<exists>x. bcs_address P a = Inr x) \<and> (\<forall>n. \<exists>x. bcs_u16 P n = Inr x) \<and>
     (\<forall>n. \<exists>x. bcs_u64 P n = Inr x) \<and> (\<forall>n. \<exists>x. bcs_u128 P n = Inr x) \<and>
     cmds (ptb_new P) = [] \<and> inputs (ptb_new P) = {} \<and>
     (\<forall>a r b. consistent (insert (ImmOrOwnedObject r) (inputs b)) \<longrightarrow>
        (\<exists>b'. transfer_object P a r b = Inr b' \<and> cmds b' = cmds b @ [Transfer a r] \<and>
           inputs b' = insert (ImmOrOwnedObject r) (inputs b))) \<and>
     (\<forall>p m f args b. consistent (call_objects args \<union> inputs b) \<longrightarrow>
        (\<exists>b'. move_call P p m f args b = Inr b' \<and> cmds b' = cmds b @ [Call p m f (map Arg args)] \<and>
           inputs b' = call_objects args \<union> inputs b)) \<and>
     (\<forall>oa b. consistent (insert oa (inputs b)) \<longrightarrow>
        (\<exists>x b'. ptb_obj P oa b = Inr (x, b') \<and> cmds b' = cmds b \<and> inputs b' = insert oa (inputs b) \<and>
           denote b' x = Arg (ObjectArg oa))) \<and>
     (\<forall>n b. \<exists>x b'. ptb_pure P n b = Inr (x, b') \<and> cmds b' = cmds b \<and> inputs b' = inputs b \<and> denote b' x = U64 n) \<and>
     (\<forall>p m f xs b. cmds (programmable_move_call P p m f xs b) = cmds b @ [Call p m f (map (denote b) xs)] \<and>
        inputs (programmable_move_call P p m f xs b) = inputs b)"

lemma builder_contractD:
  assumes "builder_contract P cmds inputs denote"
  shows bcs_addressD: "\<exists>x. bcs_address P a = Inr x" and bcs_u16D: "\<exists>x. bcs_u16 P n = Inr x"
    and bcs_u64D: "\<exists>x. bcs_u64 P k = Inr x" and bcs_u128D: "\<exists>x. bcs_u128 P w = Inr x"
    and newD: "cmds (ptb_new P) = []" "inputs (ptb_new P) = {}"
    and transferD: "consistent (insert (ImmOrOwnedObject r) (inputs b)) \<Longrightarrow>
        \<exists>b'. transfer_object P a r b = Inr b' \<and> cmds b' = cmds b @ [Transfer a r] \<and>
           inputs b' = insert (ImmOrOwnedObject r) (inputs b)"
    and callD: "consistent (call_objects args \<union> inputs b) \<Longrightarrow>
        \<exists>b'. move_call P p m f args b = Inr b' \<and> cmds b' = cmds b @ [Call p m f (map Arg args)] \<and>
           inputs b' = call_objects args \<union> inputs b"
    and objD: "consistent (insert oa (inputs b)) \<Longrightarrow>
        \<exists>x b'. ptb_obj P oa b = Inr (x, b') \<and> cmds b' = cmds b \<and> inputs b' = insert oa (inputs b) \<and>
           denote b' x = Arg (ObjectArg oa)"
    and pureD: "\<exists>x b'. ptb_pure P k b = Inr (x, b') \<and> cmds b' = cmds b \<and> inputs b' = inputs b \<and> denote b' x = U64 k"
    and programmableD: "cmds (programmable_move_call P p m f xs b) = cmds b @ [Call p m f (map (denote b) xs)]"
      "inputs (programmable_move_call P p m f xs b) = inputs b"
  using assms by (simp_all only: builder_contract_def)


section \<open>The commands of a generated transaction\<close>

definition owned_call where
  "owned_call p m f r = Call p m f [Arg (ObjectArg (ImmOrOwnedObject r))]"

definition transfer_commands where
  "transfer_commands p n native account =
     map (\<lambda>i. if native then Transfer (sender account) (gas_objects account ! i)
              else owned_call p ''benchmark'' ''transfer_coin'' (gas_objects account ! i)) [1..<Suc (unat (n :: u64))]"

definition shared_commands where
  "shared_commands G args =
     (if shared_objects G = [] then [] else
      let so = shared_objects G ! get_arg args ''shared_obj_index''
      in [Call (move_package G) ''benchmark'' ''increment_shared_counter'' [Arg (ObjectArg (SharedObject (fst so) (snd so) True))]])"

definition root_commands where
  "root_commands p roots account =
     (if roots = [] then [] else [owned_call p ''benchmark'' ''read_dynamic_fields'' (the (map_of roots (sender account)))])"

definition computation_commands where
  "computation_commands p (intensity :: u8) =
     (if intensity = 0 then [] else [Call p ''benchmark'' ''run_computation'' [U64 (ucast intensity * 100)]])"

definition erc20_commands where
  "erc20_commands G account args =
     (if \<not> erc20_transfer G then []
      else [owned_call (move_package G) ''benchmark'' ''transfer_coin''
             (gas_objects account ! (length (gas_objects account) div 2 + get_arg args ''obj_index''))])"

definition kitty_commands where
  "kitty_commands P G account to args objects =
     (if kitty_objects G = [] then []
      else if get_arg args ''kitty_fn'' = 1
      then [Call (move_package G) ''KittyBreeding'' ''provide_gene''
             [Arg (ObjectArg (ImmOrOwnedObject (the (map_of (kitty_objects G) (sender account))))),
              Arg (Pure (projr (bcs_address P to)))]]
      else [Call (move_package G) ''KittyBreeding'' ''breed''
             [Arg (ObjectArg (ImmOrOwnedObject (objects ! 0))), Arg (ObjectArg (ImmOrOwnedObject (objects ! 1)))]])"

definition pixel_land where
  "pixel_land G rng =
     the (map_of (land_objects G)
       (word_of_nat ((unat (land_x rng) * 65536 + unat (land_y rng)) mod length (land_objects G))))"

definition land_commands where
  "land_commands P G rng =
     (if land_objects G = [] then []
      else [Call (move_package G) ''MillionPixel'' ''occupy''
             [Arg (ObjectArg (SharedObject (fst (pixel_land G rng)) (snd (pixel_land G rng)) True)),
              Arg (Pure (projr (bcs_u16 P (land_x rng)))), Arg (Pure (projr (bcs_u16 P (land_y rng))))]])"

text \<open>
  The objects of one transaction. Of the kitties a transaction names either the sender's own or, to
  breed, the gene and the kitty it is given; the latter may be a newer version of the sender's own.
\<close>

definition kitty_inputs where
  "kitty_inputs G account args objects =
     (if kitty_objects G = [] then {}
      else if get_arg args ''kitty_fn'' = 1 then set_option (map_of (kitty_objects G) (sender account))
      else set (take 2 objects))"

definition usable where
  "usable G account args objects =
     ImmOrOwnedObject ` set (gas_objects account) \<union> (\<lambda>(i, v). SharedObject i v True) ` set (shared_objects G) \<union>
     ImmOrOwnedObject ` set_option (map_of (root_objects G) (sender account)) \<union>
     ImmOrOwnedObject ` kitty_inputs G account args objects \<union>
     (\<lambda>(i, v). SharedObject i v True) ` ran (map_of (land_objects G))"

definition generator_ok where
  "generator_ok G account args objects \<longleftrightarrow>
     unat (num_transfers G) < length (gas_objects account) \<and>
     get_arg args ''obj_index'' < length (gas_objects account) \<and>
     (shared_objects G = [] \<or> get_arg args ''shared_obj_index'' < length (shared_objects G)) \<and>
     (root_objects G = [] \<or> map_of (root_objects G) (sender account) \<noteq> None) \<and>
     (erc20_transfer G \<longrightarrow>
        length (gas_objects account) div 2 + get_arg args ''obj_index'' < length (gas_objects account)) \<and>
     (kitty_objects G = [] \<or> map_of (kitty_objects G) (sender account) \<noteq> None \<and>
        (get_arg args ''kitty_fn'' = 1 \<or> 2 \<le> length objects)) \<and>
     (length (land_objects G) < 65536 \<and> (\<forall>i<length (land_objects G). map_of (land_objects G) (word_of_nat i) \<noteq> None))"

text \<open>A step that succeeds, appends the given commands and stays within the usable objects.\<close>

definition step_ok where
  "step_ok cmds inputs U b r cs \<longleftrightarrow> (\<exists>b'. r = Inr b' \<and> cmds b' = cmds b @ cs \<and> inputs b' \<subseteq> U)"

lemma step_ok_skip: "inputs b \<subseteq> U \<Longrightarrow> step_ok cmds inputs U b (Inr b) []"
  by (simp add: step_ok_def)

lemma step_ok_call:
  assumes "builder_contract P cmds inputs denote" and "consistent U" and "inputs b \<subseteq> U" and "call_objects args \<subseteq> U"
  shows "step_ok cmds inputs U b (unwrap_ok (move_call P p m f args b)) [Call p m f (map Arg args)]"
proof -
  have "consistent (call_objects args \<union> inputs b)"
    by (rule consistent_subset [OF assms(2)]) (use assms(3,4) in blast)
  from callD [OF assms(1) this, of p m f] assms(3,4) show ?thesis by (auto simp: step_ok_def)
qed

lemma step_ok_transfer:
  assumes "builder_contract P cmds inputs denote" and "consistent U" and "inputs b \<subseteq> U" and "ImmOrOwnedObject r \<in> U"
  shows "step_ok cmds inputs U b (unwrap_ok (transfer_object P a r b)) [Transfer a r]"
proof -
  have "consistent (insert (ImmOrOwnedObject r) (inputs b))"
    by (rule consistent_subset [OF assms(2)]) (use assms(3,4) in blast)
  from transferD [OF assms(1) this, of a] assms(3,4) show ?thesis by (auto simp: step_ok_def)
qed

lemma transfer_steps_ok:
  assumes P: "builder_contract P cmds inputs denote" and U: "consistent U" and sub: "inputs b \<subseteq> U"
    and gas: "ImmOrOwnedObject ` set (gas_objects account) \<subseteq> U" and n: "unat n < length (gas_objects account)"
  shows "step_ok cmds inputs U b (transfer_steps P p n native account b) (transfer_commands p n native account)"
proof -
  let ?f = "\<lambda>b i. rbind (index_at (gas_objects account) i) (\<lambda>object.
         unwrap_ok (if native then transfer_object P (sender account) object b
           else move_call P p ''benchmark'' ''transfer_coin'' [ObjectArg (ImmOrOwnedObject object)] b))"
  let ?c = "\<lambda>i. if native then Transfer (sender account) (gas_objects account ! i)
              else owned_call p ''benchmark'' ''transfer_coin'' (gas_objects account ! i)"
  have one: "step_ok cmds inputs U b (?f b i) [?c i]" if "i < length (gas_objects account)" "inputs b \<subseteq> U" for i b
  proof -
    from that(1) gas have "ImmOrOwnedObject (gas_objects account ! i) \<in> U" by auto
    with that step_ok_transfer [OF P U that(2), of "gas_objects account ! i" "sender account"]
      step_ok_call [OF P U that(2), of "[ObjectArg (ImmOrOwnedObject (gas_objects account ! i))]"] show ?thesis
      by (simp add: owned_call_def)
  qed
  have "step_ok cmds inputs U b (foldM ?f b is) (map ?c is)"
    if "\<forall>i \<in> set is. i < length (gas_objects account)" "inputs b \<subseteq> U" for "is" b
    using that
  proof (induction "is" arbitrary: b)
    case (Cons i "is")
    from one [of i b] Cons.prems obtain b1 where b1: "?f b i = Inr b1" "cmds b1 = cmds b @ [?c i]" "inputs b1 \<subseteq> U"
      by (auto simp: step_ok_def)
    from Cons.IH [of b1] Cons.prems b1 show ?case by (simp add: step_ok_def)
  qed (simp add: step_ok_skip)
  from this [of "[1..<Suc (unat n)]" b] n sub show ?thesis
    by (auto simp: transfer_steps_def transfer_commands_def simp del: upt_Suc)
qed

lemma usableD:
  assumes "usable G account args objects \<subseteq> U"
  shows usable_root: "map_of (root_objects G) (sender account) = Some r \<Longrightarrow> ImmOrOwnedObject r \<in> U"
    and usable_kitty: "r \<in> kitty_inputs G account args objects \<Longrightarrow> ImmOrOwnedObject r \<in> U"
    and usable_gas: "i < length (gas_objects account) \<Longrightarrow> ImmOrOwnedObject (gas_objects account ! i) \<in> U"
    and usable_shared: "j < length (shared_objects G) \<Longrightarrow>
      SharedObject (fst (shared_objects G ! j)) (snd (shared_objects G ! j)) True \<in> U"
    and usable_land: "map_of (land_objects G) k = Some l \<Longrightarrow> SharedObject (fst l) (snd l) True \<in> U"
  using assms unfolding usable_def by (force dest: ranI nth_mem)+

lemma shared_step_ok:
  assumes P: "builder_contract P cmds inputs denote" and U: "consistent U" and sub: "inputs b \<subseteq> U"
    and ok: "generator_ok G account args objects" and us: "usable G account args objects \<subseteq> U"
  shows "step_ok cmds inputs U b (shared_step P G args b) (shared_commands G args)"
proof (cases "shared_objects G = []")
  case False
  let ?so = "shared_objects G ! get_arg args ''shared_obj_index''"
  from False ok have i: "get_arg args ''shared_obj_index'' < length (shared_objects G)" by (simp add: generator_ok_def)
  with us have "SharedObject (fst ?so) (snd ?so) True \<in> U" by (rule usable_shared)
  with step_ok_call [OF P U sub, of "[ObjectArg (SharedObject (fst ?so) (snd ?so) True)]"] False i show ?thesis
    by (simp add: shared_step_def shared_commands_def Let_def)
qed (simp add: shared_step_def shared_commands_def step_ok_skip sub)

lemma root_step_ok:
  assumes P: "builder_contract P cmds inputs denote" and U: "consistent U" and sub: "inputs b \<subseteq> U"
    and ok: "generator_ok G account args objects" and us: "usable G account args objects \<subseteq> U"
  shows "step_ok cmds inputs U b (root_step P p (root_objects G) account b)
    (root_commands p (root_objects G) account)"
proof (cases "root_objects G = []")
  case False
  with ok obtain r where r: "map_of (root_objects G) (sender account) = Some r" by (auto simp: generator_ok_def)
  with us have "ImmOrOwnedObject r \<in> U" by (rule usable_root)
  with sub have "consistent (insert (ImmOrOwnedObject r) (inputs b))"
    by (intro consistent_subset [OF U]) blast
  from objD [OF P this] obtain x b' where
    "ptb_obj P (ImmOrOwnedObject r) b = Inr (x, b')" "cmds b' = cmds b"
    "inputs b' = insert (ImmOrOwnedObject r) (inputs b)" "denote b' x = Arg (ObjectArg (ImmOrOwnedObject r))" by blast
  with False r sub \<open>ImmOrOwnedObject r \<in> U\<close> show ?thesis
    by (simp add: root_step_def root_commands_def step_ok_def programmableD [OF P] owned_call_def)
qed (simp add: root_step_def root_commands_def step_ok_skip sub)

lemma computation_arg: "mul_c (ucast (n :: u8)) (100 :: u64) = Inr (ucast n * 100)"
proof -
  have "unat n < 2 ^ 8" using unsigned_less [of n] by simp
  then have "unat (ucast n :: u64) * 100 < 2 ^ 64" by (simp add: unsigned_ucast_eq take_bit_nat_eq_self)
  then show ?thesis by (simp add: mul_c_def)
qed

lemma computation_step_ok:
  assumes P: "builder_contract P cmds inputs denote" and sub: "inputs b \<subseteq> U"
  shows "step_ok cmds inputs U b (computation_step P p n b) (computation_commands p n)"
proof (cases "n = 0")
  case False
  from pureD [OF P, of "ucast n * 100" b] obtain x b' where
    "ptb_pure P (ucast n * 100) b = Inr (x, b')" "cmds b' = cmds b" "inputs b' = inputs b" "denote b' x = U64 (ucast n * 100)"
    by blast
  with False sub show ?thesis
    by (simp add: computation_step_def computation_commands_def step_ok_def programmableD [OF P] computation_arg)
qed (simp add: computation_step_def computation_commands_def step_ok_skip sub)

lemma erc20_step_ok:
  assumes P: "builder_contract P cmds inputs denote" and U: "consistent U" and sub: "inputs b \<subseteq> U"
    and ok: "generator_ok G account args objects" and us: "usable G account args objects \<subseteq> U"
  shows "step_ok cmds inputs U b (erc20_step P G account args b) (erc20_commands G account args)"
proof (cases "erc20_transfer G")
  case True
  let ?i = "length (gas_objects account) div 2 + get_arg args ''obj_index''"
  from True ok have i: "?i < length (gas_objects account)" by (simp add: generator_ok_def)
  with us have "ImmOrOwnedObject (gas_objects account ! ?i) \<in> U" by (rule usable_gas)
  with step_ok_call [OF P U sub, of "[ObjectArg (ImmOrOwnedObject (gas_objects account ! ?i))]"] True i show ?thesis
    by (simp add: erc20_step_def erc20_commands_def owned_call_def)
qed (simp add: erc20_step_def erc20_commands_def step_ok_skip sub)

lemma kitty_step_ok:
  assumes P: "builder_contract P cmds inputs denote" and U: "consistent U" and sub: "inputs b \<subseteq> U"
    and ok: "generator_ok G account args objects" and us: "usable G account args objects \<subseteq> U"
  shows "step_ok cmds inputs U b (kitty_step P G account to args objects b) (kitty_commands P G account to args objects)"
proof (cases "kitty_objects G = []")
  case False
  with ok obtain k where k: "map_of (kitty_objects G) (sender account) = Some k" by (auto simp: generator_ok_def)
  show ?thesis
  proof (cases "get_arg args ''kitty_fn'' = 1")
    case True
    obtain bs where bs: "bcs_address P to = Inr bs" using bcs_addressD [OF P] by blast
    have "ImmOrOwnedObject k \<in> U" using False True k by (intro usable_kitty [OF us]) (simp add: kitty_inputs_def)
    with step_ok_call [OF P U sub, of "[ObjectArg (ImmOrOwnedObject k), Pure bs]"] False True k bs show ?thesis
      by (simp add: kitty_step_def kitty_commands_def)
  next
    case other: False
    with False ok have len: "2 \<le> length objects" "objects \<noteq> []" by (auto simp: generator_ok_def)
    from len(1) obtain x y rest where "objects = x # y # rest" by (cases objects; cases "tl objects") auto
    then have "objects ! 0 \<in> set (take 2 objects)" "objects ! 1 \<in> set (take 2 objects)" by simp_all
    then have "ImmOrOwnedObject (objects ! 0) \<in> U" "ImmOrOwnedObject (objects ! 1) \<in> U"
      using False other by (auto intro!: usable_kitty [OF us] simp: kitty_inputs_def)
    with step_ok_call [OF P U sub, of "[ObjectArg (ImmOrOwnedObject (objects ! 0)), ObjectArg (ImmOrOwnedObject (objects ! 1))]"]
      False other k len show ?thesis
      by (simp add: kitty_step_def kitty_commands_def index_at_def)
  qed
qed (simp add: kitty_step_def kitty_commands_def step_ok_skip sub)

text \<open>The key of a pixel always fits.\<close>

lemma pixel_key:
  fixes x y :: u16
  obtains key :: u32 where "unat key = unat x * 65536 + unat y"
    and "rbind (mul_c (ucast x :: u32) 65536) (\<lambda>hi. rbind (add_c hi (ucast y)) f) = f key"
proof -
  have x: "unat x < 65536" and y: "unat y < 65536" using unsigned_less [of x] unsigned_less [of y] by simp_all
  have ux: "unat (ucast x :: u32) = unat x" and uy: "unat (ucast y :: u32) = unat y"
    using x y by (simp_all add: unsigned_ucast_eq take_bit_nat_eq_self)
  have hi: "mul_c (ucast x :: u32) 65536 = Inr (ucast x * 65536)" using x by (simp add: mul_c_def ux)
  have uhi: "unat (ucast x * 65536 :: u32) = unat x * 65536" using x by (simp add: unat_word_ariths ux)
  have key: "add_c (ucast x * 65536 :: u32) (ucast y) = Inr (ucast x * 65536 + ucast y)"
    using x y by (simp add: add_c_def uhi uy)
  have ukey: "unat (ucast x * 65536 + ucast y :: u32) = unat x * 65536 + unat y"
    using x y uhi uy by (simp add: unat_word_ariths)
  from that [OF ukey] show thesis by (simp add: hi key)
qed

lemma land_index_zero: "land_index 0 x y = Inl DivideByZero"
proof -
  obtain key :: u32 where "unat key = unat x * 65536 + unat y"
    and "rbind (mul_c (ucast x :: u32) 65536) (\<lambda>hi. rbind (add_c hi (ucast y)) (\<lambda>key.
         rbind (mod_c key (ucast (word_of_nat 0 :: u16))) (\<lambda>i. Inr (ucast i :: u16)))) =
       rbind (mod_c key (ucast (word_of_nat 0 :: u16))) (\<lambda>i. Inr (ucast i))" by (rule pixel_key)
  then show ?thesis by (simp add: land_index_def mod_c_def)
qed

lemma land_index_ok:
  assumes "0 < n" and "n < 65536"
  shows "land_index n x y = Inr (word_of_nat ((unat x * 65536 + unat y) mod n))"
proof -
  obtain key :: u32 where ukey: "unat key = unat x * 65536 + unat y"
    and key: "rbind (mul_c (ucast x :: u32) 65536) (\<lambda>hi. rbind (add_c hi (ucast y)) (\<lambda>key.
         rbind (mod_c key (ucast (word_of_nat n :: u16))) (\<lambda>i. Inr (ucast i :: u16)))) =
       rbind (mod_c key (ucast (word_of_nat n :: u16))) (\<lambda>i. Inr (ucast i))" by (rule pixel_key)
  have un: "unat (ucast (word_of_nat n :: u16) :: u32) = n"
    using assms by (simp add: unsigned_ucast_eq unat_of_nat take_bit_nat_eq_self)
  with assms have "(ucast (word_of_nat n :: u16) :: u32) \<noteq> 0" by (metis unat_0 less_irrefl)
  moreover have "unat (key mod ucast (word_of_nat n :: u16)) = (unat x * 65536 + unat y) mod n"
    by (simp only: unat_mod ukey un)
  then have "(ucast (key mod ucast (word_of_nat n :: u16)) :: u16) = word_of_nat ((unat x * 65536 + unat y) mod n)"
    by (metis of_nat_unat)
  ultimately show ?thesis unfolding land_index_def Let_def key by (simp add: mod_c_def)
qed

lemma land_step_ok:
  assumes P: "builder_contract P cmds inputs denote" and U: "consistent U" and sub: "inputs b \<subseteq> U"
    and ok: "generator_ok G account args objects" and us: "usable G account args objects \<subseteq> U"
  shows "step_ok cmds inputs U b (land_step P G rng b) (land_commands P G rng)"
proof (cases "land_objects G = []")
  case False
  let ?n = "length (land_objects G)"
  let ?i = "(unat (land_x rng) * 65536 + unat (land_y rng)) mod ?n"
  from False ok have n: "0 < ?n" "?n < 65536" and all: "\<forall>i<?n. map_of (land_objects G) (word_of_nat i) \<noteq> None"
    by (simp_all add: generator_ok_def)
  from n all have "map_of (land_objects G) (word_of_nat ?i) \<noteq> None" by simp
  then obtain l where l: "map_of (land_objects G) (word_of_nat ?i) = Some l" by blast
  obtain bx where bx: "bcs_u16 P (land_x rng) = Inr bx" using bcs_u16D [OF P] by blast
  obtain bz where bz: "bcs_u16 P (land_y rng) = Inr bz" using bcs_u16D [OF P] by blast
  have "SharedObject (fst l) (snd l) True \<in> U" using us l by (rule usable_land)
  with step_ok_call [OF P U sub, of "[ObjectArg (SharedObject (fst l) (snd l) True), Pure bx, Pure bz]"] False show ?thesis
    by (simp add: land_step_def land_commands_def land_index_ok [OF n] pixel_land_def l bx bz)
qed (simp add: land_step_def land_commands_def step_ok_skip sub)

definition move_commands where
  "move_commands P G account to args objects rng =
     transfer_commands (move_package G) (num_transfers G) (use_native_transfer G) account @
     shared_commands G args @ root_commands (move_package G) (root_objects G) account @
     computation_commands (move_package G) (computation G) @ erc20_commands G account args @
     kitty_commands P G account to args objects @ land_commands P G rng"

lemma step_ok_bind:
  assumes "step_ok cmds inputs U b m cs"
    and "\<And>b'. inputs b' \<subseteq> U \<Longrightarrow> step_ok cmds inputs U b' (f b') ds"
  shows "step_ok cmds inputs U b (rbind m f) (cs @ ds)"
proof -
  from assms(1) obtain b' where b': "m = Inr b'" "cmds b' = cmds b @ cs" "inputs b' \<subseteq> U" by (auto simp: step_ok_def)
  from assms(2) [OF b'(3)] b' show ?thesis by (auto simp: step_ok_def)
qed

lemma MoveTx_steps_ok:
  assumes P: "builder_contract P cmds inputs denote" and U: "consistent (usable G account args objects)"
    and ok: "generator_ok G account args objects"
  shows "\<exists>b. MoveTx_generate_tx P G account to args objects rng =
      Inr (sign_programmable P (sender account) (gas_objects account ! get_arg args ''obj_index'')
        (DEFAULT_VALIDATOR_GAS_PRICE P) (ptb_finish P b) (keypair account)) \<and>
    cmds b = move_commands P G account to args objects rng"
proof -
  let ?U = "usable G account args objects"
  have gas: "ImmOrOwnedObject ` set (gas_objects account) \<subseteq> ?U" "unat (num_transfers G) < length (gas_objects account)"
    using ok by (auto simp: usable_def generator_ok_def)
  have "step_ok cmds inputs ?U (ptb_new P)
    (rbind (transfer_steps P (move_package G) (num_transfers G) (use_native_transfer G) account (ptb_new P)) (\<lambda>b.
     rbind (shared_step P G args b) (\<lambda>b.
     rbind (root_step P (move_package G) (root_objects G) account b) (\<lambda>b.
     rbind (computation_step P (move_package G) (computation G) b) (\<lambda>b.
     rbind (erc20_step P G account args b) (\<lambda>b.
     rbind (kitty_step P G account to args objects b) (land_step P G rng)))))))
    (move_commands P G account to args objects rng)"
    unfolding move_commands_def
    by (intro step_ok_bind transfer_steps_ok [OF P U _ gas] shared_step_ok [OF P U _ ok] root_step_ok [OF P U _ ok]
        computation_step_ok [OF P] erc20_step_ok [OF P U _ ok] kitty_step_ok [OF P U _ ok] land_step_ok [OF P U _ ok])
      (simp_all add: newD [OF P])
  then obtain b where b: "rbind (transfer_steps P (move_package G) (num_transfers G) (use_native_transfer G) account (ptb_new P)) (\<lambda>b.
     rbind (shared_step P G args b) (\<lambda>b.
     rbind (root_step P (move_package G) (root_objects G) account b) (\<lambda>b.
     rbind (computation_step P (move_package G) (computation G) b) (\<lambda>b.
     rbind (erc20_step P G account args b) (\<lambda>b.
     rbind (kitty_step P G account to args objects b) (land_step P G rng)))))) = Inr b"
    "cmds b = move_commands P G account to args objects rng"
    by (auto simp: step_ok_def newD [OF P])
  moreover have "get_arg args ''obj_index'' < length (gas_objects account)" using ok by (simp add: generator_ok_def)
  ultimately show ?thesis
    by (intro exI [of _ b]) (auto simp: MoveTx_generate_tx_def)
qed


section \<open>The trait TxGenerator\<close>

text \<open>
  What the benchmark relies on: for an account the generator can serve, and a shared-object
  index below \<open>shared_obj_num\<close> when there are shared objects, a transaction is generated.
\<close>

locale TxGenerator =
  fixes generate_tx :: "'acc \<Rightarrow> 'addr \<Rightarrow> Args \<Rightarrow> 'ref list \<Rightarrow> Rng \<Rightarrow> 'tx res"
    and shared_num :: nat
    and serves :: "'acc \<Rightarrow> Args \<Rightarrow> 'ref list \<Rightarrow> bool"
  assumes generates: "serves account args objects \<Longrightarrow>
      shared_num = 0 \<or> get_arg args ''shared_obj_index'' < shared_num \<Longrightarrow>
      \<exists>tx. generate_tx account to args objects rng = Inr tx"
begin

text \<open>One transaction for every request of a list.\<close>

lemma generates_all:
  assumes "\<forall>(account, to, args, objects, rng) \<in> set requests. serves account args objects \<and>
      (shared_num = 0 \<or> get_arg args ''shared_obj_index'' < shared_num)"
  shows "\<exists>txs. mapM (\<lambda>(account, to, args, objects, rng). generate_tx account to args objects rng) requests = Inr txs"
  using assms
proof (induction requests)
  case (Cons r requests)
  obtain account to args objects rng where r: "r = (account, to, args, objects, rng)" by (cases r)
  from Cons.prems generates [of account args objects to rng] obtain tx where
    "generate_tx account to args objects rng = Inr tx" by (auto simp: r)
  with Cons show ?case by (auto simp: r)
qed simp

end

definition has_gas where
  "has_gas (account :: ('id, 'addr, 'dg, 'kp) Account) (args :: Args) (objects :: ('id, 'dg) ObjectRef list) \<longleftrightarrow> gas_objects account \<noteq> []"

interpretation shared_create: TxGenerator "SharedObjectCreate_generate_tx P pkg" 0 has_gas for P pkg
  by unfold_locales (simp add: SharedObjectCreate_generate_tx_def has_gas_def index_at_def)

interpretation land_create: TxGenerator "LandObjectCreate_generate_tx P pkg" 0 has_gas for P pkg
  by unfold_locales (simp add: LandObjectCreate_generate_tx_def has_gas_def index_at_def)

interpretation package_publish: TxGenerator "PackagePublish_generate_tx P cpkg" 0 has_gas for P cpkg
  by unfold_locales (simp add: PackagePublish_generate_tx_def has_gas_def index_at_def)

interpretation root_create: TxGenerator "RootObjectCreate_generate_tx P pkg n" 0
    "\<lambda>account args objects. (\<exists>x. bcs_u64 P n = Inr x) \<and> has_gas account args objects" for P pkg n
  by unfold_locales (auto simp: RootObjectCreate_generate_tx_def has_gas_def index_at_def)

interpretation kitty_create: TxGenerator "KittyObjectCreate_generate_tx P pkg" 0
    "\<lambda>account args objects. (\<forall>w. \<exists>x. bcs_u128 P w = Inr x) \<and> has_gas account args objects" for P pkg
  by unfold_locales (auto simp: KittyObjectCreate_generate_tx_def has_gas_def index_at_def dest: spec)

definition MoveTx_serves where
  "MoveTx_serves P G account args objects \<longleftrightarrow>
     (\<exists>cmds inputs denote. builder_contract P (cmds :: _ \<Rightarrow> (_, _, _, _) command list) inputs denote) \<and>
     consistent (usable G account args objects) \<and>
     generator_ok G account (if shared_objects G = [] then args else (''shared_obj_index'', 0) # args) objects"

text \<open>The index of the shared object is the caller's; everything else is the account's.\<close>

lemma generator_ok_shared:
  assumes "shared_objects G = [] \<or> get_arg args ''shared_obj_index'' < length (shared_objects G)"
    and "generator_ok G account (if shared_objects G = [] then args else (''shared_obj_index'', 0) # args) objects"
  shows "generator_ok G account args objects"
  using assms by (auto simp: generator_ok_def get_arg_def split: if_splits)

interpretation move_tx: TxGenerator "MoveTx_generate_tx P G" "shared_obj_num G" "MoveTx_serves P G" for P G
proof (unfold_locales, goal_cases)
  case (1 account args objects to rng)
  from 1(2) have "shared_objects G = [] \<or> get_arg args ''shared_obj_index'' < length (shared_objects G)"
    by (auto simp: shared_obj_num_def)
  with 1(1) have "generator_ok G account args objects" by (simp add: MoveTx_serves_def generator_ok_shared)
  with 1(1) show ?case
    unfolding MoveTx_serves_def using MoveTx_steps_ok [of P _ _ _ G account args objects to rng] by blast
qed

section \<open>The unmodified generator\<close>

definition to_original where
  "to_original G =
     \<lparr> orig_move_package = move_package G, orig_num_transfers = num_transfers G,
       orig_use_native_transfer = use_native_transfer G, orig_computation = computation G,
       orig_root_objects = root_objects G, orig_shared_objects = shared_objects G \<rparr>"

lemma rbind_right_id [simp]: "rbind m Inr = m"
  by (cases m) auto

lemma shared_step_single:
  assumes "length (shared_objects G) \<le> 1" and "get_arg args ''shared_obj_index'' = 0"
  shows "shared_step P G args b = original_shared_steps P (move_package G) (shared_objects G) b"
  using assms by (cases "shared_objects G") (simp_all add: shared_step_def original_shared_steps_def)

section \<open>A concrete builder\<close>

type_synonym list_builder = "(nat, nat, unit, nat) command list \<times> (nat, unit) ObjectArg set"

definition list_ops :: "(nat, nat, unit, unit, list_builder, (nat, unit, nat) operand,
    (nat, nat, unit, nat) command list, nat, unit, unit, nat \<times> (nat, unit) ObjectRef \<times> (nat, nat, unit, nat) command list) TxOps" where
  "list_ops =
     \<lparr> DEFAULT_VALIDATOR_GAS_PRICE = 1000, bcs_address = \<lambda>a. Inr a, bcs_u16 = \<lambda>n. Inr (unat n),
       bcs_u64 = \<lambda>n. Inr (unat n), bcs_u128 = \<lambda>n. Inr (unat n), ptb_new = ([], {}),
       transfer_object = \<lambda>a r (cs, A). Inr (cs @ [Transfer a r], insert (ImmOrOwnedObject r) A),
       move_call = \<lambda>p m f args (cs, A). Inr (cs @ [Call p m f (map Arg args)], call_objects args \<union> A),
       ptb_obj = \<lambda>oa (cs, A). Inr (Arg (ObjectArg oa), cs, insert oa A),
       ptb_pure = \<lambda>n b. Inr (U64 n, b),
       programmable_move_call = \<lambda>p m f xs (cs, A). (cs @ [Call p m f xs], A),
       ptb_finish = fst, sign_programmable = \<lambda>a g price cs kp. (a, g, cs),
       sign_move_call = \<lambda>a g price p m f args kp. (a, g, [Call p m f (map Arg args)]),
       sign_publish = \<lambda>a g price d kp. (a, g, []) \<rparr>"


definition sample_generator :: "(nat, nat, unit) MoveTxGenerator" where
  "sample_generator =
     \<lparr> move_package = 50, num_transfers = 0, use_native_transfer = False, computation = 2, root_objects = [],
       shared_objects = [(60, 1), (61, 1)], erc20_transfer = True, kitty_objects = [], land_objects = [(0, 70, 1)] \<rparr>"

definition sample_account :: "(nat, nat, unit, unit) Account" where
  "sample_account = \<lparr> sender = 9, keypair = (), gas_objects = [(1, 1, ()), (2, 1, ()), (3, 1, ()), (4, 1, ())] \<rparr>"


section \<open>Properties\<close>




text \<open>
  Without the features that were added and with at most one shared object, the modified
  generator builds the same transaction as the unmodified one, panics included.
\<close>

theorem MoveTx_matches_original:
  assumes "\<not> erc20_transfer G" and "kitty_objects G = []" and "land_objects G = []"
    and "length (shared_objects G) \<le> 1"
    and "get_arg args ''shared_obj_index'' = 0" and "get_arg args ''obj_index'' = 0"
  shows "MoveTx_generate_tx P G account to args objects rng = original_generate_tx P (to_original G) account"
  using assms
  by (simp add: shared_step_single MoveTx_generate_tx_def original_generate_tx_def to_original_def erc20_step_def kitty_step_def land_step_def)

definition plain_generator :: "(nat, nat, unit) MoveTxGenerator" where
  "plain_generator =
     sample_generator\<lparr>num_transfers := 1, shared_objects := [(60, 1)], erc20_transfer := False, land_objects := []\<rparr>"

theorem MoveTx_matches_original_witness:
  "MoveTx_generate_tx list_ops plain_generator sample_account 9 [(''shared_obj_index'', 0)] []
      \<lparr>gene_id = 0, land_x = 3, land_y = 4\<rparr> =
   original_generate_tx list_ops (to_original plain_generator) sample_account"
  by (rule MoveTx_matches_original) (simp_all add: plain_generator_def sample_generator_def get_arg_def)

text \<open>
  The land of a pixel. The index is the pixel's key modulo the number of lands at 16 bits,
  so with fewer than 65536 lands every pixel has a land, with a multiple of 65536 lands the
  generator panics on a division by zero, and with more lands than 65536 some are never used.
\<close>

theorem land_index_spec:
  "land_index n x y =
     (if n mod 65536 = 0 then Inl DivideByZero
      else Inr (word_of_nat ((unat x * 65536 + unat y) mod (n mod 65536))))"
proof -
  have "(word_of_nat n :: u16) = word_of_nat (n mod 65536)"
    by (simp add: word_unat_eq_iff unat_of_nat)
  then have "land_index n x y = land_index (n mod 65536) x y" by (simp only: land_index_def)
  moreover have "land_index 0 x y = Inl DivideByZero"
    by (simp add: land_index_zero)
  ultimately show ?thesis
    using land_index_ok [of "n mod 65536" x y] by simp
qed

end
