(* ===== verification/Sui_Node.thy ===== *)
theory Sui_Node
  imports Sui_Store Sui_Generators
begin

text \<open>
  The validator of the Sui benchmark, \<^verbatim>\<open>single_node.rs\<close>, and the mock consensus,
  \<^verbatim>\<open>mock_consensus.rs\<close>. The authority state, the validator service, the execution engine
  and the checkpoint builder belong to the Sui libraries: their state is the type \<open>'v\<close> and
  their operations are the records \<open>Authority\<close>, \<open>Engine\<close> and \<open>CheckpointBuilder\<close>.
\<close>

section \<open>Components and the authority\<close>

datatype Component =
    ExecutionOnly
  | Baseline
  | WithTxManager
  | ValidatorWithoutConsensus
  | ValidatorWithFakeConsensus
  | TxnSigning
  | CheckpointExecutor

datatype ConsensusMode = Noop | DirectSequencing

datatype ('cert, 'other) ConsensusTransactionKind = UserTransaction 'cert | OtherKind 'other

record ('v, 'tx, 'cert, 'ex, 'eff, 'own, 'resp, 'id, 'dg, 'obj, 'name, 'key, 'other, 'e) Authority =
  build_authority :: "'obj list \<Rightarrow> 'v"
  exec_from_quorum :: "'tx \<Rightarrow> 'ex"
  exec_from_certificate :: "'cert \<Rightarrow> 'ex"
  try_execute_immediately :: "'ex \<Rightarrow> 'v \<Rightarrow> ('e + 'eff) \<times> 'v"
  enqueue_certificates_for_execution :: "'cert list \<Rightarrow> 'v \<Rightarrow> 'v"
  authority_execute_certificate :: "'cert \<Rightarrow> 'v \<Rightarrow> ('e + 'eff) \<times> 'v"
  service_execute_certificate :: "'cert \<Rightarrow> 'v \<Rightarrow> ('e + 'eff) \<times> 'v"
  handle_transaction :: "'tx \<Rightarrow> 'v \<Rightarrow> ('e + 'resp) \<times> 'v"
  process_consensus_transaction :: "('cert, 'other) ConsensusTransactionKind \<Rightarrow> 'v \<Rightarrow> ('e + unit) \<times> 'v"
  assign_shared_versions :: "'ex list \<Rightarrow> 'v \<Rightarrow> ('e + 'v)"
  live_objects :: "'v \<Rightarrow> ('id \<times> 'obj + unit) list"
  validator_name :: "'v \<Rightarrow> 'name"
  validator_secret :: "'v \<Rightarrow> 'key"
  contains_shared_object :: "'cert \<Rightarrow> bool"
  status_is_ok :: "'eff \<Rightarrow> bool"
  all_changed_objects :: "'eff \<Rightarrow> (('id, 'dg) ObjectRef \<times> 'own) list"
  is_immutable :: "'own \<Rightarrow> bool"
  gas_object :: "'eff \<Rightarrow> ('id, 'dg) ObjectRef"

section \<open>SingleValidator\<close>

definition consensus_mode_for :: "Component \<Rightarrow> ConsensusMode" where
  "consensus_mode_for component =
     (case component of ValidatorWithFakeConsensus \<Rightarrow> DirectSequencing | _ \<Rightarrow> Noop)"

record 'v SingleValidator =
  authority :: 'v
  consensus_mode :: ConsensusMode

definition SingleValidator_new where
  "SingleValidator_new A genesis_objects component =
     \<lparr> authority = build_authority A genesis_objects, consensus_mode = consensus_mode_for component \<rparr>"

text \<open>\<open>call(..).await.unwrap()\<close>: an error of a validator call is a panic.\<close>

definition await_unwrap :: "('e + 'a) \<times> 'v \<Rightarrow> ('a \<times> 'v) res" where
  "await_unwrap rv = rbind (unwrap_ok (fst rv)) (\<lambda>x. Inr (x, snd rv))"

definition execute_raw_transaction where
  "execute_raw_transaction A transaction v =
     rbind (await_unwrap (try_execute_immediately A (exec_from_quorum A transaction) v)) (\<lambda>(effects, v').
     rbind (assert_that (status_is_ok A effects)) (\<lambda>_.
     Inr (effects, v')))"

definition publish_package where
  "publish_package A P publish_data addr kp gas v =
     (let transaction = sign_publish P addr gas (DEFAULT_VALIDATOR_GAS_PRICE P) publish_data kp
      in rbind (execute_raw_transaction A transaction v) (\<lambda>(effects, v').
         rbind (unwrap (map_option fst (find (\<lambda>(oref, owner). is_immutable A owner) (all_changed_objects A effects)))) (\<lambda>package.
         Inr (package, gas_object A effects, v'))))"

definition execute_certificate where
  "execute_certificate A cert component v =
     rbind (case component of
         Baseline \<Rightarrow> await_unwrap (try_execute_immediately A (exec_from_certificate A cert) v)
       | WithTxManager \<Rightarrow>
           (let v1 = (if contains_shared_object A cert
                      then enqueue_certificates_for_execution A [cert] v else v)
            in await_unwrap (authority_execute_certificate A cert v1))
       | ValidatorWithoutConsensus \<Rightarrow> await_unwrap (service_execute_certificate A cert v)
       | ValidatorWithFakeConsensus \<Rightarrow> await_unwrap (service_execute_certificate A cert v)
       | TxnSigning \<Rightarrow> Inl Unreachable
       | CheckpointExecutor \<Rightarrow> Inl Unreachable
       | ExecutionOnly \<Rightarrow> Inl Unreachable) (\<lambda>(effects, v').
     rbind (assert_that (status_is_ok A effects)) (\<lambda>_.
     Inr (effects, v')))"

definition sign_transaction where
  "sign_transaction A transaction v = await_unwrap (handle_transaction A transaction v)"

definition create_in_memory_store where
  "create_in_memory_store A S v =
     rbind (mapM (\<lambda>o1. case o1 of Inl normal \<Rightarrow> Inr normal | Inr wrapped \<Rightarrow> Inl Unreachable) (live_objects A v)) (\<lambda>objs.
     Inr (InMemoryObjectStore_new S (map_of (rev objs))))"

definition assigned_shared_object_versions where
  "assigned_shared_object_versions A transactions v =
     unwrap_ok (assign_shared_versions A (map (exec_from_certificate A) transactions) v)"

definition get_validator_key where
  "get_validator_key A name v =
     rbind (assert_that (name = validator_name A v)) (\<lambda>_. Inr (validator_secret A v))"

section \<open>Execution in memory\<close>

text \<open>
  The execution engine. It reads the store through the reference it is given, so it may count
  reads and fill the package cache; its outputs are the mutable inputs, the written objects and
  the effects.
\<close>

record ('v, 'cert, 'key, 'id, 'obj, 'pc, 'dg, 'ci, 'x, 'eff, 'e) Engine =
  cert_input_objects :: "'cert \<Rightarrow> 'e + ('id, 'dg) InputObjectKind list"
  cert_key :: "'cert \<Rightarrow> 'key"
  shared_locks :: "'v \<Rightarrow> 'key \<Rightarrow> 'e + ('id \<times> SequenceNumber) list"
  check_certificate_input :: "'cert \<Rightarrow> (('id, 'dg) InputObjectKind \<times> 'obj) list \<Rightarrow> 'e + 'ci"
  execute_transaction_to_effects :: "('id, 'obj, 'pc) InMemoryObjectStore \<Rightarrow> 'ci \<Rightarrow> 'cert \<Rightarrow>
    (('id \<times> 'x) list \<times> ('id \<times> 'obj) list \<times> 'eff) \<times> ('id, 'obj, 'pc) InMemoryObjectStore"

definition execute_transaction_in_memory where
  "execute_transaction_in_memory A S E v cert s =
     rbind (unwrap_ok (cert_input_objects E cert)) (\<lambda>kinds.
     rbind (read_objects_for_execution S (shared_locks E v) (cert_key E cert) kinds s) (\<lambda>(r, s1).
     rbind (unwrap_ok r) (\<lambda>input_objects.
     rbind (unwrap_ok (check_certificate_input E cert input_objects)) (\<lambda>checked.
     let ((mutable_inputs, written, effects), s2) = execute_transaction_to_effects E s1 checked cert
     in rbind (assert_that (status_is_ok A effects)) (\<lambda>_.
        Inr (effects, commit_objects mutable_inputs written s2))))))"

section \<open>Checkpoints\<close>

record ('bd, 'tx, 'eff, 'ck, 'cc) CheckpointBuilder =
  builder_new :: 'bd
  push_transaction :: "'tx \<Rightarrow> 'eff \<Rightarrow> 'bd \<Rightarrow> 'bd"
  builder_size :: "'bd \<Rightarrow> nat"
  builder_build :: "'bd \<Rightarrow> ('ck \<times> 'cc) \<times> 'bd"

text \<open>\<open>all_effects.remove(digest).unwrap()\<close> on a map from digests to effects.\<close>

fun checkpoint_loop where
  "checkpoint_loop K digest checkpoint_size [] all_effects builder checkpoints = Inr (builder, checkpoints)"
| "checkpoint_loop K digest checkpoint_size (tx # txs) all_effects builder checkpoints =
     rbind (unwrap (all_effects (digest tx))) (\<lambda>effects.
     let builder = push_transaction K tx effects builder;
         all_effects = all_effects(digest tx := None)
     in if builder_size K builder = checkpoint_size
        then let (c, builder') = builder_build K builder
             in checkpoint_loop K digest checkpoint_size txs all_effects builder' (checkpoints @ [c])
        else checkpoint_loop K digest checkpoint_size txs all_effects builder checkpoints)"

definition build_checkpoints where
  "build_checkpoints K digest transactions all_effects checkpoint_size =
     rbind (checkpoint_loop K digest checkpoint_size transactions all_effects (builder_new K) []) (\<lambda>(builder, checkpoints).
     Inr (if 0 < builder_size K builder
          then checkpoints @ [fst (builder_build K builder)] else checkpoints))"

section \<open>MockConsensusClient\<close>

text \<open>
  The channel is the list of the transactions sent and not yet received; \<open>run_impl\<close> is the
  loop of the consensus task over what it receives.
\<close>

definition submit_to_consensus :: "('cert, 'other) ConsensusTransactionKind \<Rightarrow>
    ('cert, 'other) ConsensusTransactionKind list \<Rightarrow> ('cert, 'other) ConsensusTransactionKind list" where
  "submit_to_consensus transaction channel = channel @ [transaction]"

fun run_impl where
  "run_impl A mode [] v = Inr v"
| "run_impl A mode (tx # received) v =
     rbind (case mode of
         Noop \<Rightarrow> Inr v
       | DirectSequencing \<Rightarrow>
           rbind (await_unwrap (process_consensus_transaction A tx v)) (\<lambda>(_, v1). Inr v1)) (\<lambda>v1.
     rbind (case tx of UserTransaction cert \<Rightarrow> Inr cert | OtherKind _ \<Rightarrow> Inl Unreachable) (\<lambda>cert.
     run_impl A mode received
       (if contains_shared_object A cert then enqueue_certificates_for_execution A [cert] v1 else v1)))"

section \<open>Checkpoints partition the transactions\<close>

text \<open>
  What the code relies on: the builder collects what is pushed in order, and building empties
  it into the contents of one checkpoint.
\<close>

definition checkpoint_contract where
  "checkpoint_contract K pending contents \<longleftrightarrow>
     pending (builder_new K) = [] \<and>
     (\<forall>tx eff b. pending (push_transaction K tx eff b) = pending b @ [(tx, eff)]) \<and>
     (\<forall>b. builder_size K b = length (pending b)) \<and>
     (\<forall>b. contents (snd (fst (builder_build K b))) = pending b \<and> pending (snd (builder_build K b)) = [])"

lemma checkpoint_loop_ok:
  assumes K: "checkpoint_contract K pending contents" and size: "0 < n"
  shows "distinct (map digest txs) \<Longrightarrow> (\<forall>tx \<in> set txs. all_effects (digest tx) = Some (eff tx)) \<Longrightarrow>
    length (pending b) < n \<Longrightarrow>
    \<exists>b' cks. checkpoint_loop K digest n txs all_effects b done = Inr (b', done @ cks) \<and>
      concat (map (\<lambda>c. contents (snd c)) cks) @ pending b' = pending b @ map (\<lambda>tx. (tx, eff tx)) txs \<and>
      (\<forall>c \<in> set cks. length (contents (snd c)) = n) \<and> length (pending b') < n"
proof (induction txs arbitrary: all_effects b "done")
  case (Cons tx txs)
  from K have push: "pending (push_transaction K tx (eff tx) b) = pending b @ [(tx, eff tx)]"
    and sz: "\<And>b. builder_size K b = length (pending b)"
    and build: "\<And>b. contents (snd (fst (builder_build K b))) = pending b" "\<And>b. pending (snd (builder_build K b)) = []"
    by (simp_all add: checkpoint_contract_def)
  let ?b = "push_transaction K tx (eff tx) b"
  let ?ae = "all_effects(digest tx := None)"
  have "digest t \<noteq> digest tx" if "t \<in> set txs" for t
    using Cons.prems(1) that by (metis distinct.simps(2) image_eqI list.set_map list.simps(9))
  then have rest: "distinct (map digest txs)" "\<forall>t \<in> set txs. ?ae (digest t) = Some (eff t)"
    using Cons.prems(1,2) by auto
  show ?case
  proof (cases "length (pending b) + 1 = n")
    case True
    let ?c = "fst (builder_build K ?b)"
    have "length (pending (snd (builder_build K ?b))) < n" by (simp add: build size)
    from Cons.IH [OF rest this, of "done @ [?c]"] obtain b' cks where
      "checkpoint_loop K digest n txs ?ae (snd (builder_build K ?b)) (done @ [?c]) = Inr (b', (done @ [?c]) @ cks)"
      "concat (map (\<lambda>c. contents (snd c)) cks) @ pending b' = pending (snd (builder_build K ?b)) @ map (\<lambda>tx. (tx, eff tx)) txs"
      "\<forall>c \<in> set cks. length (contents (snd c)) = n" "length (pending b') < n" by blast
    with True Cons.prems(2) show ?thesis
      by (intro exI [of _ b'] exI [of _ "?c # cks"]) (auto simp: push sz build split_def)
  next
    case False
    with Cons.prems(3) have "length (pending ?b) < n" by (simp add: push)
    from Cons.IH [OF rest this, of "done"] obtain b' cks where
      "checkpoint_loop K digest n txs ?ae ?b done = Inr (b', done @ cks)"
      "concat (map (\<lambda>c. contents (snd c)) cks) @ pending b' = pending ?b @ map (\<lambda>tx. (tx, eff tx)) txs"
      "\<forall>c \<in> set cks. length (contents (snd c)) = n" "length (pending b') < n" by blast
    with False Cons.prems(2) show ?thesis
      by (intro exI [of _ b'] exI [of _ cks]) (auto simp: push sz)
  qed
qed simp

lemma build_checkpoints_ok:
  assumes K: "checkpoint_contract K pending contents" and size: "0 < n"
    and "distinct (map digest txs)" and "\<forall>tx \<in> set txs. all_effects (digest tx) = Some (eff tx)"
  shows "\<exists>cks. build_checkpoints K digest txs all_effects n = Inr cks \<and>
    concat (map (\<lambda>c. contents (snd c)) cks) = map (\<lambda>tx. (tx, eff tx)) txs \<and>
    (\<forall>c \<in> set (butlast cks). length (contents (snd c)) = n) \<and>
    (\<forall>c \<in> set cks. 0 < length (contents (snd c)) \<and> length (contents (snd c)) \<le> n) \<and>
    length cks = length txs div n + (if length txs mod n = 0 then 0 else 1)"
proof -
  have "length (pending (builder_new K)) < n" using K size by (simp add: checkpoint_contract_def)
  from checkpoint_loop_ok [OF K size assms(3,4) this, of "[]"] obtain b' cks where
    loop: "checkpoint_loop K digest n txs all_effects (builder_new K) [] = Inr (b', cks)"
    and all: "concat (map (\<lambda>c. contents (snd c)) cks) @ pending b' = map (\<lambda>tx. (tx, eff tx)) txs"
    and full: "\<forall>c \<in> set cks. length (contents (snd c)) = n" and rest: "length (pending b') < n"
    using K by (auto simp: checkpoint_contract_def)
  have "length (concat (map (\<lambda>c. contents (snd c)) cks)) = length cks * n"
    using full by (induction cks) auto
  with arg_cong [OF all, of length] have len: "length txs = length cks * n + length (pending b')" by simp
  have sz: "builder_size K b' = length (pending b')"
    and bd: "contents (snd (fst (builder_build K b'))) = pending b'"
    using K by (simp_all add: checkpoint_contract_def)
  have but: "\<forall>c \<in> set (butlast cks). length (contents (snd c)) = n" using full by (auto dest: in_set_butlastD)
  show ?thesis
  proof (cases "pending b' = []")
    case True
    with loop all full len sz size but show ?thesis by (auto simp: build_checkpoints_def)
  next
    case False
    with len rest have "length txs div n = length cks" "length txs mod n \<noteq> 0" by simp_all
    with False loop all full sz size bd rest show ?thesis by (auto simp: build_checkpoints_def)
  qed
qed

section \<open>Dispatch on the component\<close>

definition certificate_component :: "Component \<Rightarrow> bool" where
  "certificate_component c \<longleftrightarrow>
     c \<in> {Baseline, WithTxManager, ValidatorWithoutConsensus, ValidatorWithFakeConsensus}"

lemma await_unwrap_eq: "await_unwrap rv = Inr (x, v) \<longleftrightarrow> rv = (Inr x, v)"
  by (cases rv) (auto simp: await_unwrap_def)

lemma await_unwrap_unreachable: "await_unwrap rv \<noteq> Inl Unreachable"
  by (cases "fst rv") (auto simp: await_unwrap_def unwrap_ok_def)

lemma execute_certificate_unreachable:
  "execute_certificate A cert component v = Inl Unreachable \<longleftrightarrow> \<not> certificate_component component"
  by (cases component)
    (auto simp: execute_certificate_def certificate_component_def rbind_eq_Inl await_unwrap_unreachable
      assert_that_def Let_def split: if_splits)

lemma execute_certificate_status:
  "execute_certificate A cert component v = Inr (effects, v') \<Longrightarrow> status_is_ok A effects"
  by (auto simp: execute_certificate_def)

section \<open>The mock consensus\<close>

text \<open>
  The calls the consensus task makes, as a specification over the authority's state: first the
  sequencing of the transaction, then its execution if it has shared objects.
\<close>

fun consensus_calls where
  "consensus_calls A mode cert v =
     (let v1 = (case mode of Noop \<Rightarrow> v | DirectSequencing \<Rightarrow> snd (process_consensus_transaction A (UserTransaction cert) v))
      in if contains_shared_object A cert then enqueue_certificates_for_execution A [cert] v1 else v1)"

lemma run_impl_ok:
  assumes "mode = Noop \<or> (\<forall>tx v. \<exists>v'. process_consensus_transaction A tx v = (Inr (), v'))"
  shows "run_impl A mode (map UserTransaction certs) v = Inr (fold (consensus_calls A mode) certs v)"
proof (induction certs arbitrary: v)
  case (Cons cert certs)
  have "(case mode of Noop \<Rightarrow> Inr v | DirectSequencing \<Rightarrow>
        rbind (await_unwrap (process_consensus_transaction A (UserTransaction cert) v)) (\<lambda>(_, v1). Inr v1)) =
      Inr (case mode of Noop \<Rightarrow> v | DirectSequencing \<Rightarrow> snd (process_consensus_transaction A (UserTransaction cert) v))"
  proof (cases mode)
    case DirectSequencing
    with assms obtain v' where "process_consensus_transaction A (UserTransaction cert) v = (Inr (), v')" by blast
    with DirectSequencing show ?thesis by (simp add: await_unwrap_def)
  qed simp
  with Cons show ?case by (simp add: Let_def)
qed simp


section \<open>A concrete builder and a concrete authority\<close>

definition list_checkpoints :: "((nat \<times> nat) list, nat, nat, unit, (nat \<times> nat) list) CheckpointBuilder" where
  "list_checkpoints =
     \<lparr> builder_new = [], push_transaction = \<lambda>tx eff b. b @ [(tx, eff)], builder_size = length,
       builder_build = \<lambda>b. (((), b), []) \<rparr>"

lemma list_checkpoints_contract: "checkpoint_contract list_checkpoints id id"
  by (simp add: checkpoint_contract_def list_checkpoints_def)

text \<open>An authority that logs what it is asked to do; odd certificates have shared objects.\<close>

definition log_authority :: "(string list, nat, nat, nat, nat, nat, nat, nat, unit, nat, nat, nat, unit, unit) Authority" where
  "log_authority =
     \<lparr> build_authority = \<lambda>objs. [], exec_from_quorum = id, exec_from_certificate = id,
       try_execute_immediately = \<lambda>ex v. (Inr ex, v @ [''execute'']),
       enqueue_certificates_for_execution = \<lambda>certs v. v @ [''enqueue''],
       authority_execute_certificate = \<lambda>cert v. (Inr cert, v @ [''authority'']),
       service_execute_certificate = \<lambda>cert v. (Inr cert, v @ [''service'']),
       handle_transaction = \<lambda>tx v. (Inr tx, v @ [''sign'']),
       process_consensus_transaction = \<lambda>tx v. (Inr (), v @ [''sequence'']),
       assign_shared_versions = \<lambda>exs v. Inr v, live_objects = \<lambda>v. [], validator_name = \<lambda>v. 0,
       validator_secret = \<lambda>v. 0, contains_shared_object = odd, status_is_ok = \<lambda>eff. True,
       all_changed_objects = \<lambda>eff. [((100, 1, ()), 0)], is_immutable = \<lambda>own. own = 0,
       gas_object = \<lambda>eff. (1, 2, ()) \<rparr>"

section \<open>Properties\<close>

text \<open>
  \<open>build_checkpoints\<close> with effects for every transaction never panics; the contents of the
  checkpoints, in order, are the transactions in order with their effects; every checkpoint but
  the last has the requested size, none is empty or larger, and there are as many as needed.
\<close>

theorem build_checkpoints_spec:
  assumes "checkpoint_contract K pending contents" and "0 < n"
    and "distinct (map digest txs)" and "\<forall>tx \<in> set txs. all_effects (digest tx) = Some (eff tx)"
  shows "\<exists>cks. build_checkpoints K digest txs all_effects n = Inr cks \<and>
    concat (map (\<lambda>c. contents (snd c)) cks) = map (\<lambda>tx. (tx, eff tx)) txs \<and>
    (\<forall>c \<in> set (butlast cks). length (contents (snd c)) = n) \<and>
    (\<forall>c \<in> set cks. 0 < length (contents (snd c)) \<and> length (contents (snd c)) \<le> n) \<and>
    length cks = length txs div n + (if length txs mod n = 0 then 0 else 1)"
  using assms by (rule build_checkpoints_ok)

theorem build_checkpoints_spec_witness:
  "\<exists>cks. build_checkpoints list_checkpoints id [5, 6, 7, 8, 9] (\<lambda>d. Some (d + 1)) 2 = Inr cks \<and> length cks = 3 \<and>
     concat (map snd cks) = [(5, 6), (6, 7), (7, 8), (8, 9), (9, 10)]"
  using build_checkpoints_spec [OF list_checkpoints_contract, of 2 id "[5, 6, 7, 8, 9]" "\<lambda>d. Some (d + 1)" "\<lambda>d. d + 1"]
  by auto

text \<open>
  The consensus task handles the user transactions it receives in the order they were
  sent: with direct sequencing each is sequenced first, and one with shared objects is then
  enqueued for execution; without sequencing only the second step is taken.
\<close>

theorem run_impl_in_order:
  assumes "mode = Noop \<or> (\<forall>tx v. \<exists>v'. process_consensus_transaction A tx v = (Inr (), v'))"
    and "channel = fold submit_to_consensus (map UserTransaction certs) []"
  shows "run_impl A mode channel v = Inr (fold (consensus_calls A mode) certs v)"
proof -
  have "fold submit_to_consensus txs q = q @ txs" for txs q :: "('a, 'b) ConsensusTransactionKind list"
    by (induction txs arbitrary: q) (simp_all add: submit_to_consensus_def)
  with assms(2) run_impl_ok [OF assms(1), of certs v] show ?thesis by simp
qed

theorem run_impl_in_order_witness:
  "run_impl log_authority DirectSequencing [UserTransaction 2, UserTransaction 3] [] =
     Inr [''sequence'', ''sequence'', ''enqueue'']"
proof -
  have "run_impl log_authority DirectSequencing [UserTransaction 2, UserTransaction 3] [] =
      Inr (fold (consensus_calls log_authority DirectSequencing) [2, 3] [])"
    by (rule run_impl_in_order) (auto simp: log_authority_def submit_to_consensus_def)
  then show ?thesis by (simp add: log_authority_def Let_def)
qed

end
