(* ===== verification/Sui_Bench.thy ===== *)
theory Sui_Bench
  imports Sui_Node
begin

text \<open>
  The benchmark driver of the Sui single-node benchmark: the options of \<^verbatim>\<open>command.rs\<close>, the
  workloads of \<^verbatim>\<open>workload.rs\<close>, the package manifest of the publish workload, the context of
  \<^verbatim>\<open>benchmark_context.rs\<close>, and the runs of \<^verbatim>\<open>lib.rs\<close> and \<^verbatim>\<open>main.rs\<close>.

  Spawned tasks that call the validator run one call after the other, in the order the
  parameter \<open>sched\<close> gives, and their results are collected in the order of \<open>compl\<close>; both are
  only known to be permutations. Clocks and printed reports have no effect on the state and
  are left out; what a run measures is the number of transactions in the measured section.
\<close>

section \<open>command.rs\<close>

record PTBOptions =
  opt_num_transfers :: u64
  opt_use_native_transfer :: bool
  opt_num_dynamic_fields :: u64
  opt_computation :: u8
  opt_num_shared_objects :: nat
  opt_erc20_transfer :: bool
  opt_test_kitty :: bool
  opt_num_land_objects :: nat

datatype WorkloadKind = PTB PTBOptions | Publish string

record Command =
  cmd_tx_count :: u64
  cmd_checkpoint_size :: nat
  cmd_print_sample_tx :: bool
  cmd_skip_signing :: bool
  cmd_component :: Component
  cmd_workload :: WorkloadKind
  cmd_erc20_tx_path :: string
  cmd_account_path :: string

fun gas_object_num_per_account :: "WorkloadKind \<Rightarrow> u64 res" where
  "gas_object_num_per_account (PTB opts) = add_c (opt_num_transfers opts) 1"
| "gas_object_num_per_account (Publish _) = Inr 1"

fun is_test_kitty :: "WorkloadKind \<Rightarrow> bool" where
  "is_test_kitty (PTB opts) = (if opt_test_kitty opts then True else False)"
| "is_test_kitty (Publish _) = False"

section \<open>workload.rs\<close>

record Workload =
  tx_count :: u64
  workload_kind :: WorkloadKind

definition num_accounts_of :: "Workload \<Rightarrow> u64" where
  "num_accounts_of w = tx_count w"

section \<open>The context\<close>

record ('v, 'id, 'addr, 'dg, 'kp) BenchmarkContext =
  validator :: "'v SingleValidator"
  user_accounts :: "('addr \<times> ('id, 'addr, 'dg, 'kp) Account) list"
  admin_account :: "('id, 'addr, 'dg, 'kp) Account"
  benchmark_component :: Component
  account_indexes :: "(nat \<times> 'addr) list"

definition BenchmarkContext_new where
  "BenchmarkContext_new A T keys admin_key order order' open_csv workload component print_sample_tx account_path =
     (if account_path = [] then
        rbind (add_c (num_accounts_of workload) 1) (\<lambda>num0.
        rbind (if print_sample_tx then add_c num0 1 else Inr num0) (\<lambda>num_accounts.
        rbind (gas_object_num_per_account (workload_kind workload)) (\<lambda>per.
        rbind (mul_c num_accounts per) (\<lambda>total.
        rbind (batch_create_account_and_gas T keys order num_accounts per) (\<lambda>(accounts, genesis).
        rbind (assert_that (word_of_nat (length genesis) = total)) (\<lambda>_.
        rbind (unwrap (btree_pop_last accounts)) (\<lambda>((_, admin), users).
        Inr \<lparr> validator = SingleValidator_new A genesis component, user_accounts = users,
              admin_account = admin, benchmark_component = component, account_indexes = [] \<rparr>)))))))
      else
        rbind (batch_create_account_and_gas_by_index T keys admin_key order'
                 (get_records_from_file open_csv account_path)) (\<lambda>(accounts, genesis, indexes, admin).
        Inr \<lparr> validator = SingleValidator_new A genesis component, user_accounts = accounts,
              admin_account = admin, benchmark_component = component, account_indexes = indexes \<rparr>))"

text \<open>Calls that change the authority of the context.\<close>

definition with_authority where
  "with_authority ctx v = ctx\<lparr>validator := (validator ctx)\<lparr>authority := v\<rparr>\<rparr>"

definition ctx_publish_package where
  "ctx_publish_package A P publish_data ctx =
     (let admin = admin_account ctx
      in rbind (index_at (gas_objects admin) 0) (\<lambda>gas.
         rbind (publish_package A P publish_data (sender admin) (keypair admin) gas (authority (validator ctx)))
           (\<lambda>(package, updated_gas, v').
         Inr (package, (with_authority ctx v')
           \<lparr>admin_account := admin\<lparr>gas_objects := (gas_objects admin)[0 := updated_gas]\<rparr>\<rparr>))))"

section \<open>Tasks on the validator\<close>

fun run_tasks where
  "run_tasks f [] v = Inr ([], v)"
| "run_tasks f (x # xs) v =
     rbind (f x v) (\<lambda>(y, v1). rbind (run_tasks f xs v1) (\<lambda>(ys, v2). Inr (y # ys, v2)))"

definition spawn_all where
  "spawn_all sched compl f xs v = rbind (run_tasks f (sched xs) v) (\<lambda>(ys, v'). Inr (compl ys, v'))"

definition execute_raw_transactions where
  "execute_raw_transactions A sched compl transactions v =
     spawn_all sched compl (execute_raw_transaction A) transactions v"

definition validator_sign_transactions where
  "validator_sign_transactions A sched compl transactions v =
     spawn_all sched compl (sign_transaction A) transactions v"

section \<open>Gas objects\<close>

text \<open>\<open>new_gas_objects.remove(&oref.0)\<close> for every reference in turn.\<close>

fun refresh_refs where
  "refresh_refs [] new_gas_objects = ([], new_gas_objects)"
| "refresh_refs (oref # orefs) new_gas_objects =
     (case map_of new_gas_objects (fst oref) of
        Some new_oref \<Rightarrow>
          (let (rs, rest) = refresh_refs orefs (AList.delete (fst oref) new_gas_objects) in (new_oref # rs, rest))
      | None \<Rightarrow> (let (rs, rest) = refresh_refs orefs new_gas_objects in (oref # rs, rest)))"

fun refresh_accounts where
  "refresh_accounts [] new_gas_objects = []"
| "refresh_accounts ((addr, account) # accounts) new_gas_objects =
     (let (refreshed, rest) = refresh_refs (gas_objects account) new_gas_objects
      in (addr, account\<lparr>gas_objects := refreshed\<rparr>) # refresh_accounts accounts rest)"

definition refresh_gas_objects where
  "refresh_gas_objects new_gas_objects ctx =
     ctx\<lparr>user_accounts := refresh_accounts (user_accounts ctx) new_gas_objects\<rparr>"

section \<open>Generating transactions\<close>

text \<open>
  A generator is given by its \<open>generate_tx\<close> and its \<open>shared_obj_num\<close>; \<open>rngs i\<close> are the
  random values of the i-th task. The counter is incremented before it is used.
\<close>

definition shared_index_args :: "nat \<Rightarrow> nat \<Rightarrow> Args" where
  "shared_index_args shared_num i = [(''shared_obj_index'', if shared_num = 0 then 0 else i mod shared_num)]"

definition generate_transactions where
  "generate_transactions generate_tx shared_num compl rngs ctx =
     rbind (mapM (\<lambda>(i, addr, account). generate_tx account (sender account)
                    (shared_index_args shared_num (Suc i)) [] (rngs i))
              (enumerate 0 (user_accounts ctx))) (\<lambda>txs.
     Inr (compl txs))"

definition generate_kitty_provide_gene_transactions where
  "generate_kitty_provide_gene_transactions generate_tx compl rngs ctx =
     rbind (mapM (\<lambda>(i, addr, account). generate_tx account (sender account) [(''kitty_fn'', 1)] [] (rngs i))
              (enumerate 0 (user_accounts ctx))) (\<lambda>txs.
     Inr (compl txs))"

definition generate_kitty_breed_transactions where
  "generate_kitty_breed_transactions generate_tx compl rngs gene_objects new_kitty_objects ctx =
     rbind (mapM (\<lambda>(i, addr, account).
                rbind (unwrap (map_of gene_objects (sender account))) (\<lambda>gene_object.
                rbind (unwrap (map_of new_kitty_objects (sender account))) (\<lambda>new_kitty_object.
                generate_tx account (sender account) [(''kitty_fn'', 2)] [gene_object, new_kitty_object] (rngs i))))
              (enumerate 0 (user_accounts ctx))) (\<lambda>txs.
     Inr (compl txs))"

text \<open>The records of a transfer file, with the number of earlier transfers of each sender.\<close>

definition entry_or_zero :: "(nat \<times> nat) list \<Rightarrow> nat \<Rightarrow> nat" where
  "entry_or_zero m k = (case map_of m k of Some n \<Rightarrow> n | None \<Rightarrow> 0)"

fun erc20_requests where
  "erc20_requests ctx obj_index_map [] = Inr []"
| "erc20_requests ctx obj_index_map (r # rs) =
     rbind (index_at r 0) (\<lambda>f0. rbind (unwrap (parse_u64 f0)) (\<lambda>from_index.
     rbind (index_at r 1) (\<lambda>f1. rbind (unwrap (parse_u64 f1)) (\<lambda>to_index.
     rbind (unwrap (map_of (account_indexes ctx) from_index)) (\<lambda>from_addr.
     rbind (unwrap (map_of (user_accounts ctx) from_addr)) (\<lambda>from1.
     rbind (unwrap (map_of (account_indexes ctx) to_index)) (\<lambda>to1.
     let obj_index = entry_or_zero obj_index_map from_index
     in rbind (erc20_requests ctx (AList.update from_index (Suc obj_index) obj_index_map) rs) (\<lambda>reqs.
        Inr ((from1, to1, [(''obj_index'', obj_index)]) # reqs)))))))))"

definition generate_erc20_tx_from_csv where
  "generate_erc20_tx_from_csv generate_tx compl rngs open_csv erc20_tx_path ctx =
     rbind (erc20_requests ctx [] (get_records_from_file open_csv erc20_tx_path)) (\<lambda>reqs.
     rbind (mapM (\<lambda>(i, from1, to1, args). generate_tx from1 to1 args [] (rngs i)) (enumerate 0 reqs)) (\<lambda>txs.
     Inr (compl txs)))"

section \<open>Preparing objects\<close>

text \<open>What the driver reads of effects, and committing the outputs of a transaction.\<close>

record ('v, 'eff, 'own, 'id, 'addr, 'dg, 'ep, 'dig, 'e) EffectsOps =
  created :: "'eff \<Rightarrow> (('id, 'dg) ObjectRef \<times> 'own) list"
  mutated :: "'eff \<Rightarrow> (('id, 'dg) ObjectRef \<times> 'own) list"
  address_owner :: "'own \<Rightarrow> 'addr option"
  is_shared :: "'own \<Rightarrow> bool"
  executed_epoch :: "'eff \<Rightarrow> 'ep"
  transaction_digest :: "'eff \<Rightarrow> 'dig"
  current_epoch :: "'v \<Rightarrow> 'ep"
  commit_transaction_outputs :: "'ep \<Rightarrow> 'dig \<Rightarrow> 'v \<Rightarrow> ('e + unit) \<times> 'v"

text \<open>The first created object that an address owns, and the first shared one.\<close>

definition first_owned where
  "first_owned F orefs =
     unwrap (case List.map_filter (\<lambda>(oref, own). map_option (\<lambda>addr. (addr, oref)) (address_owner F own)) orefs of
               [] \<Rightarrow> None | p # _ \<Rightarrow> Some p)"

definition first_shared where
  "first_shared F orefs =
     unwrap (case List.map_filter (\<lambda>(oref, own). if is_shared F own then Some (fst oref, fst (snd oref)) else None) orefs of
               [] \<Rightarrow> None | p # _ \<Rightarrow> Some p)"

text \<open>The loops over the effects. \<open>new_gas\<close> collects the new references of the gas objects.\<close>

fun root_loop where
  "root_loop A F [] roots new_gas v = Inr (roots, new_gas, v)"
| "root_loop A F (effects # results) roots new_gas v =
     rbind (await_unwrap (commit_transaction_outputs F (executed_epoch F effects) (transaction_digest F effects) v)) (\<lambda>(_, v').
     rbind (first_owned F (created F effects)) (\<lambda>(owner, root_object).
     let gas = gas_object A effects
     in root_loop A F results (AList.update owner root_object roots) (AList.update (fst gas) gas new_gas) v'))"

fun shared_loop where
  "shared_loop A F epoch_id [] shared new_gas v = Inr (shared, new_gas, v)"
| "shared_loop A F epoch_id (effects # results) shared new_gas v =
     rbind (first_shared F (created F effects)) (\<lambda>shared_object.
     let gas = gas_object A effects
     in rbind (await_unwrap (commit_transaction_outputs F epoch_id (transaction_digest F effects) v)) (\<lambda>(_, v').
        shared_loop A F epoch_id results (shared @ [shared_object]) (AList.update (fst gas) gas new_gas) v'))"

fun kitty_loop where
  "kitty_loop A F epoch_id [] kitties new_gas v = Inr (kitties, new_gas, v)"
| "kitty_loop A F epoch_id (effects # results) kitties new_gas v =
     rbind (first_owned F (created F effects)) (\<lambda>(owner, kitty_object).
     let gas = gas_object A effects
     in rbind (await_unwrap (commit_transaction_outputs F epoch_id (transaction_digest F effects) v)) (\<lambda>(_, v').
        kitty_loop A F epoch_id results (AList.update owner kitty_object kitties) (AList.update (fst gas) gas new_gas) v'))"

fun land_loop where
  "land_loop A F epoch_id [] i lands new_gas v = Inr (lands, new_gas, v)"
| "land_loop A F epoch_id (effects # results) i lands new_gas v =
     rbind (first_shared F (created F effects)) (\<lambda>land_object.
     rbind (add_c (i :: u16) 1) (\<lambda>i'.
     let gas = gas_object A effects
     in rbind (await_unwrap (commit_transaction_outputs F epoch_id (transaction_digest F effects) v)) (\<lambda>(_, v').
        land_loop A F epoch_id results i' (AList.update i land_object lands) (AList.update (fst gas) gas new_gas) v')))"

definition preparing_dynamic_fields where
  "preparing_dynamic_fields A P F sched compl compl' rngs package num_dynamic_fields ctx =
     (if num_dynamic_fields = 0 then Inr ([], ctx)
      else rbind (generate_transactions (RootObjectCreate_generate_tx P package num_dynamic_fields) 0 compl' rngs ctx) (\<lambda>txs.
           rbind (execute_raw_transactions A sched compl txs (authority (validator ctx))) (\<lambda>(results, v).
           rbind (root_loop A F results [] [] v) (\<lambda>(roots, new_gas, v').
           Inr (roots, refresh_gas_objects new_gas (with_authority ctx v'))))))"

definition prepare_shared_objects where
  "prepare_shared_objects A P F sched compl rngs package num_shared_objects ctx =
     (if num_shared_objects = 0 then Inr ([], ctx)
      else rbind (assert_that (num_shared_objects \<le> length (user_accounts ctx))) (\<lambda>_.
           rbind (mapM (\<lambda>(i, addr, account). SharedObjectCreate_generate_tx P package account (sender account) [] [] (rngs i))
                    (enumerate 0 (take num_shared_objects (user_accounts ctx)))) (\<lambda>txs.
           rbind (execute_raw_transactions A sched compl txs (authority (validator ctx))) (\<lambda>(results, v).
           rbind (shared_loop A F (current_epoch F v) results [] [] v) (\<lambda>(shared, new_gas, v').
           Inr (shared, refresh_gas_objects new_gas (with_authority ctx v')))))))"

definition prepare_kitty_objects where
  "prepare_kitty_objects A P F sched compl rngs package test_kitty ctx =
     (if \<not> test_kitty then Inr ([], ctx)
      else rbind (mapM (\<lambda>(i, addr, account). KittyObjectCreate_generate_tx P package account (sender account) [] [] (rngs i))
                    (enumerate 0 (user_accounts ctx))) (\<lambda>txs.
           rbind (execute_raw_transactions A sched compl txs (authority (validator ctx))) (\<lambda>(results, v).
           rbind (kitty_loop A F (current_epoch F v) results [] [] v) (\<lambda>(kitties, new_gas, v').
           Inr (kitties, refresh_gas_objects new_gas (with_authority ctx v'))))))"

definition prepare_land_objects where
  "prepare_land_objects A P F sched compl rngs package num_land_objects ctx =
     (if num_land_objects = 0 then Inr ([], ctx)
      else rbind (mapM (\<lambda>(i, addr, account). LandObjectCreate_generate_tx P package account (sender account) [] [] (rngs i))
                    (enumerate 0 (take num_land_objects (user_accounts ctx)))) (\<lambda>txs.
           rbind (execute_raw_transactions A sched compl txs (authority (validator ctx))) (\<lambda>(results, v).
           rbind (land_loop A F (current_epoch F v) results 0 [] [] v) (\<lambda>(lands, new_gas, v').
           Inr (lands, refresh_gas_objects new_gas (with_authority ctx v'))))))"

section \<open>Certificates and the measured runs\<close>

record ('v, 'tx, 'cert, 'sig, 'e) CertifyOps =
  sign_with_secret :: "'tx \<Rightarrow> 'v \<Rightarrow> 'sig"
  handle_for_signature :: "'tx \<Rightarrow> 'v \<Rightarrow> ('e + 'sig) \<times> 'v"
  new_certificate :: "'tx \<Rightarrow> 'sig list \<Rightarrow> 'v \<Rightarrow> 'e + 'cert"
  into_unsigned :: "'cert \<Rightarrow> 'tx"

definition certify_one where
  "certify_one C skip_signing tx v =
     rbind (if skip_signing then Inr (sign_with_secret C tx v, v)
            else await_unwrap (handle_for_signature C tx v)) (\<lambda>(sig, v').
     rbind (unwrap_ok (new_certificate C tx [sig] v')) (\<lambda>cert. Inr (cert, v')))"

definition certify_transactions where
  "certify_transactions C sched compl transactions skip_signing v =
     spawn_all sched compl (certify_one C skip_signing) transactions v"

text \<open>\<open>transactions.remove(0)\<close>\<close>

fun remove_first :: "'a list \<Rightarrow> ('a \<times> 'a list) res" where
  "remove_first [] = Inl IndexOutOfBounds"
| "remove_first (x # xs) = Inr (x, xs)"

definition execute_sample_transaction where
  "execute_sample_transaction A C sample v =
     rbind (execute_raw_transaction A (into_unsigned C sample) v) (\<lambda>(effects, v').
     rbind (assert_that (status_is_ok A effects)) (\<lambda>_. Inr v'))"

definition take_sample where
  "take_sample A C print_sample_tx transactions v =
     (if print_sample_tx
      then rbind (remove_first transactions) (\<lambda>(sample, rest).
           rbind (execute_sample_transaction A C sample v) (\<lambda>v'. Inr (rest, v')))
      else Inr (transactions, v))"

definition execute_all where
  "execute_all A component sched compl transactions v =
     spawn_all sched compl (\<lambda>tx. execute_certificate A tx component) transactions v"

definition benchmark_transaction_execution where
  "benchmark_transaction_execution A C component sched compl transactions print_sample_tx v =
     rbind (take_sample A C print_sample_tx transactions v) (\<lambda>(measured, v1).
     rbind (execute_all A component sched compl measured v1) (\<lambda>(results, v2).
     Inr (length measured, v2)))"

text \<open>In memory: in order when some transaction has shared objects, as tasks otherwise.\<close>

definition execute_transactions_in_memory where
  "execute_transactions_in_memory A S E v sched compl transactions s =
     (if list_ex (contains_shared_object A) transactions
      then run_tasks (execute_transaction_in_memory A S E v) transactions s
      else spawn_all sched compl (execute_transaction_in_memory A S E v) transactions s)"

definition benchmark_transaction_execution_in_memory where
  "benchmark_transaction_execution_in_memory A S E C sched compl transactions print_sample_tx v =
     rbind (take_sample A C print_sample_tx transactions v) (\<lambda>(measured, v1).
     rbind (create_in_memory_store A S v1) (\<lambda>store.
     rbind (execute_transactions_in_memory A S E v1 sched compl measured store) (\<lambda>(effects, store').
     Inr (length measured, get_num_object_reads store', v1))))"

definition benchmark_transaction_signing where
  "benchmark_transaction_signing A sched compl transactions print_sample_tx v =
     rbind (if print_sample_tx then rbind (index_at transactions 0) (\<lambda>_. Inr ()) else Inr ()) (\<lambda>_.
     rbind (validator_sign_transactions A sched compl transactions v) (\<lambda>(responses, v').
     Inr (length transactions, v')))"

record ('v, 'ck, 'cc, 'e) CheckpointStores =
  insert_verified_checkpoint :: "'ck \<Rightarrow> 'v \<Rightarrow> ('e + unit) \<times> 'v"
  multi_insert_transaction_and_effects :: "'cc \<Rightarrow> 'v \<Rightarrow> ('e + unit) \<times> 'v"
  insert_verified_checkpoint_contents :: "'ck \<Rightarrow> 'cc \<Rightarrow> 'v \<Rightarrow> ('e + unit) \<times> 'v"
  update_highest_synced_checkpoint :: "'ck \<Rightarrow> 'v \<Rightarrow> ('e + unit) \<times> 'v"
  ckpt_sequence_number :: "'ck \<Rightarrow> u64"
  send_checkpoint :: "'ck \<Rightarrow> 'v \<Rightarrow> ('e + unit) \<times> 'v"
  run_epoch :: "u64 \<Rightarrow> 'v \<Rightarrow> 'v"

fun sync_checkpoints where
  "sync_checkpoints W [] v = Inr v"
| "sync_checkpoints W ((ckpt, contents) # cks) v =
     rbind (await_unwrap (insert_verified_checkpoint W ckpt v)) (\<lambda>(_, v1).
     rbind (await_unwrap (multi_insert_transaction_and_effects W contents v1)) (\<lambda>(_, v2).
     rbind (await_unwrap (insert_verified_checkpoint_contents W ckpt contents v2)) (\<lambda>(_, v3).
     rbind (await_unwrap (update_highest_synced_checkpoint W ckpt v3)) (\<lambda>(_, v4).
     rbind (await_unwrap (send_checkpoint W ckpt v4)) (\<lambda>(_, v5).
     sync_checkpoints W cks v5)))))"

definition benchmark_checkpoint_executor where
  "benchmark_checkpoint_executor A S E C F K W cert_digest sched compl transactions checkpoint_size v =
     rbind (remove_first transactions) (\<lambda>(sample, rest).
     rbind (execute_sample_transaction A C sample v) (\<lambda>v1.
     rbind (create_in_memory_store A S v1) (\<lambda>store.
     rbind (execute_transactions_in_memory A S E v1 sched compl rest store) (\<lambda>(all_effects, store').
     rbind (build_checkpoints K cert_digest rest
              (map_of (rev (map (\<lambda>e. (transaction_digest F e, e)) all_effects))) checkpoint_size) (\<lambda>checkpoints.
     rbind (unwrap (if checkpoints = [] then None else Some (last checkpoints))) (\<lambda>(last_ckpt, _).
     rbind (sync_checkpoints W checkpoints v1) (\<lambda>v2.
     Inr (length rest, run_epoch W (ckpt_sequence_number W last_ckpt) v2))))))))"


section \<open>The publish workload\<close>

record Package =
  pkg_name :: string
  pkg_path :: string
  is_source_code :: bool

record PackageDependencyManifest =
  dependencies :: "Package list"
  root_package :: Package

text \<open>
  The file system, the JSON parser and the Move compiler. \<open>read_dir\<close> gives for every entry its
  extension and the result of reading the file.
\<close>

record ('id, 'bytes, 'cp, 'e) PackageOps =
  read_to_string :: "string \<Rightarrow> 'e + string"
  manifest_from_str :: "string \<Rightarrow> 'e + PackageDependencyManifest"
  path_parent :: "string \<Rightarrow> string option"
  path_join :: "string \<Rightarrow> string \<Rightarrow> string"
  build_replacing :: "(string \<times> 'id) list \<Rightarrow> string \<Rightarrow> 'e + 'cp"
  get_package_bytes :: "'cp \<Rightarrow> 'bytes list"
  toml_package_name :: "string \<Rightarrow> 'e + string"
  read_dir :: "string \<Rightarrow> 'e + ('e + string option \<times> ('e + 'bytes)) list"
  ZERO :: 'id

definition load_manifest_json where
  "load_manifest_json D file_path =
     (case read_to_string D file_path of
        Inl _ \<Rightarrow> Inl ExplicitPanic
      | Inr data \<Rightarrow> (case manifest_from_str D data of Inl _ \<Rightarrow> Inl ExplicitPanic | Inr m \<Rightarrow> Inr m))"

fun read_modules where
  "read_modules [] all_bytes = Inr all_bytes"
| "read_modules (entry # entries) all_bytes =
     rbind (unwrap_ok entry) (\<lambda>(extension, contents).
     if extension = Some ''mv''
     then rbind (unwrap_ok contents) (\<lambda>bytes. read_modules entries (all_bytes @ [bytes]))
     else read_modules entries all_bytes)"

definition dependency_bytes where
  "dependency_bytes D dir p =
     (let target_path = path_join D dir (pkg_path p)
      in if is_source_code p
         then rbind (unwrap_ok (build_replacing D [(pkg_name p, ZERO D)] target_path)) (\<lambda>cp. Inr (get_package_bytes D cp))
         else rbind (unwrap_ok (toml_package_name D (path_join D target_path ''Move.toml''))) (\<lambda>package_name.
              rbind (unwrap_ok (read_dir D (path_join D (path_join D (path_join D target_path ''build'') package_name)
                       ''bytecode_modules''))) (\<lambda>entries.
              read_modules entries [])))"

fun publish_dependencies where
  "publish_dependencies A P D dir [] dep_map ctx = Inr (dep_map, ctx)"
| "publish_dependencies A P D dir (p # ps) dep_map ctx =
     rbind (dependency_bytes D dir p) (\<lambda>module_bytes.
     rbind (ctx_publish_package A P (ModuleBytes module_bytes) ctx) (\<lambda>(package, ctx').
     publish_dependencies A P D dir ps (AList.update (pkg_name p) (fst package) dep_map) ctx'))"

definition PackagePublishTxGenerator_new where
  "PackagePublishTxGenerator_new A P D manifest_path ctx =
     rbind (load_manifest_json D manifest_path) (\<lambda>manifest.
     rbind (unwrap (path_parent D manifest_path)) (\<lambda>dir.
     rbind (publish_dependencies A P D dir (dependencies manifest) [] ctx) (\<lambda>(dep_map, ctx').
     let root = root_package manifest
     in rbind (assert_that (is_source_code root)) (\<lambda>_.
        rbind (unwrap_ok (build_replacing D (AList.update (pkg_name root) (ZERO D) dep_map)
                 (path_join D dir (pkg_path root)))) (\<lambda>compiled_package.
        Inr (compiled_package, ctx'))))))"

section \<open>create_tx_generator\<close>

datatype ('id, 'addr, 'dg, 'cp) generator =
    MoveGenerator "('id, 'addr, 'dg) MoveTxGenerator"
  | PublishGenerator 'cp

text \<open>The orders and random values of the phases of a run.\<close>

record ('tx, 'eff, 'cert, 'resp) Orders =
  tx_order :: "'tx list \<Rightarrow> 'tx list"
  tx_compl :: "'tx list \<Rightarrow> 'tx list"
  eff_compl :: "'eff list \<Rightarrow> 'eff list"
  cert_order :: "'cert list \<Rightarrow> 'cert list"
  cert_compl :: "'cert list \<Rightarrow> 'cert list"
  resp_compl :: "'resp list \<Rightarrow> 'resp list"
  random_values :: "nat \<Rightarrow> Rng"

definition generate_with where
  "generate_with P gen =
     (case gen of
        MoveGenerator G \<Rightarrow> MoveTx_generate_tx P G
      | PublishGenerator cp \<Rightarrow> PackagePublish_generate_tx P cp)"

definition shared_num_of where
  "shared_num_of gen = (case gen of MoveGenerator G \<Rightarrow> shared_obj_num G | PublishGenerator cp \<Rightarrow> 0)"

definition create_tx_generator where
  "create_tx_generator A P F D R move_package_data workload ctx =
     (case workload_kind workload of
        PTB opts \<Rightarrow>
          rbind (ctx_publish_package A P move_package_data ctx) (\<lambda>(package, ctx1).
          rbind (preparing_dynamic_fields A P F (tx_order R) (eff_compl R) (tx_compl R) (random_values R)
                   (fst package) (opt_num_dynamic_fields opts) ctx1) (\<lambda>(roots, ctx2).
          rbind (prepare_shared_objects A P F (tx_order R) (eff_compl R) (random_values R)
                   (fst package) (opt_num_shared_objects opts) ctx2) (\<lambda>(shared, ctx3).
          rbind (prepare_kitty_objects A P F (tx_order R) (eff_compl R) (random_values R)
                   (fst package) (opt_test_kitty opts) ctx3) (\<lambda>(kitties, ctx4).
          rbind (prepare_land_objects A P F (tx_order R) (eff_compl R) (random_values R)
                   (fst package) (opt_num_land_objects opts) ctx4) (\<lambda>(lands, ctx5).
          Inr (MoveGenerator \<lparr> move_package = fst package, num_transfers = opt_num_transfers opts,
                 use_native_transfer = opt_use_native_transfer opts, computation = opt_computation opts,
                 root_objects = roots, shared_objects = shared, erc20_transfer = opt_erc20_transfer opts,
                 kitty_objects = kitties, land_objects = lands \<rparr>, ctx5))))))
      | Publish manifest_path \<Rightarrow>
          rbind (PackagePublishTxGenerator_new A P D manifest_path ctx) (\<lambda>(cp, ctx'). Inr (PublishGenerator cp, ctx')))"

section \<open>lib.rs\<close>

text \<open>
  \<open>run_benchmark\<close> on a context and a generator: the number of transactions in the measured
  section and the final authority.
\<close>

definition run_component where
  "run_component A P S E C F K W R cert_digest gen component checkpoint_size print_sample_tx skip_signing
       transactions ctx =
     (let v = authority (validator ctx)
      in if component = TxnSigning
         then benchmark_transaction_signing A (tx_order R) (resp_compl R) transactions print_sample_tx v
         else
           rbind (certify_transactions C (tx_order R) (cert_compl R) transactions skip_signing v) (\<lambda>(certs, v1).
           rbind (assigned_shared_object_versions A certs v1) (\<lambda>v2.
           case component of
             CheckpointExecutor \<Rightarrow>
               benchmark_checkpoint_executor A S E C F K W cert_digest (cert_order R) (eff_compl R) certs checkpoint_size v2
           | ExecutionOnly \<Rightarrow>
               rbind (benchmark_transaction_execution_in_memory A S E C (cert_order R) (eff_compl R) certs
                        print_sample_tx v2) (\<lambda>(n, reads, v3). Inr (n, v3))
           | _ \<Rightarrow>
               benchmark_transaction_execution A C component (cert_order R) (eff_compl R) certs print_sample_tx v2)))"

definition run_benchmark where
  "run_benchmark A P S E C F D K W R T keys admin_key order order' open_csv cert_digest move_package_data
       workload component checkpoint_size print_sample_tx skip_signing erc20_tx_path account_path =
     rbind (BenchmarkContext_new A T keys admin_key order order' open_csv workload component print_sample_tx account_path) (\<lambda>ctx0.
     rbind (create_tx_generator A P F D R move_package_data workload ctx0) (\<lambda>(gen, ctx).
     rbind (if erc20_tx_path = []
            then generate_transactions (generate_with P gen) (shared_num_of gen) (tx_compl R) (random_values R) ctx
            else generate_erc20_tx_from_csv (generate_with P gen) (tx_compl R) (random_values R) open_csv erc20_tx_path ctx)
       (\<lambda>transactions.
     run_component A P S E C F K W R cert_digest gen component checkpoint_size print_sample_tx skip_signing
       transactions ctx)))"

text \<open>The effects of the first phase of the kitty test: the new genes, kitties and gas objects.\<close>

fun gene_loop where
  "gene_loop A F epoch_id [] genes kitties new_gas v = Inr (genes, kitties, new_gas, v)"
| "gene_loop A F epoch_id (effects # results) genes kitties new_gas v =
     rbind (first_owned F (created F effects)) (\<lambda>(gene_owner, gene_object).
     let gas = gas_object A effects
     in rbind (first_owned F (filter (\<lambda>(oref, own). fst oref \<noteq> fst gas) (mutated F effects))) (\<lambda>(kitty_owner, new_kitty).
        rbind (await_unwrap (commit_transaction_outputs F epoch_id (transaction_digest F effects) v)) (\<lambda>(_, v').
        gene_loop A F epoch_id results (AList.update gene_owner gene_object genes)
          (AList.update kitty_owner new_kitty kitties) (AList.update (fst gas) gas new_gas) v')))"

definition certify_and_assign where
  "certify_and_assign A C R transactions skip_signing v =
     rbind (certify_transactions C (tx_order R) (cert_compl R) transactions skip_signing v) (\<lambda>(certs, v1).
     rbind (assigned_shared_object_versions A certs v1) (\<lambda>v2. Inr (certs, v2)))"

text \<open>The breed phase of the kitty test.\<close>

definition run_breed where
  "run_breed A P C R gen component print_sample_tx skip_signing genes kitties ctx =
     rbind (generate_kitty_breed_transactions (generate_with P gen) (tx_compl R) (random_values R) genes kitties ctx) (\<lambda>txs.
     if component = TxnSigning
     then benchmark_transaction_signing A (tx_order R) (resp_compl R) txs print_sample_tx (authority (validator ctx))
     else
       rbind (certify_and_assign A C R txs skip_signing (authority (validator ctx))) (\<lambda>(certs, v).
       rbind (execute_all A (benchmark_component ctx) (cert_order R) (eff_compl R) certs v) (\<lambda>(results, v').
       Inr (length certs, v'))))"

definition run_kitty_test where
  "run_kitty_test A P C F D R T keys admin_key order order' open_csv move_package_data
       workload component print_sample_tx skip_signing account_path =
     rbind (BenchmarkContext_new A T keys admin_key order order' open_csv workload component print_sample_tx account_path) (\<lambda>ctx0.
     rbind (create_tx_generator A P F D R move_package_data workload ctx0) (\<lambda>(gen, ctx).
     rbind (generate_kitty_provide_gene_transactions (generate_with P gen) (tx_compl R) (random_values R) ctx) (\<lambda>txs.
     if component = TxnSigning
     then benchmark_transaction_signing A (tx_order R) (resp_compl R) txs print_sample_tx (authority (validator ctx))
     else
       rbind (certify_and_assign A C R txs skip_signing (authority (validator ctx))) (\<lambda>(certs, v1).
       rbind (execute_all A (benchmark_component ctx) (cert_order R) (eff_compl R) certs v1) (\<lambda>(results, v2).
       rbind (gene_loop A F (current_epoch F v2) results [] [] [] v2) (\<lambda>(genes, kitties, new_gas, v3).
       run_breed A P C R gen component print_sample_tx skip_signing genes kitties
         (refresh_gas_objects new_gas (with_authority ctx v3))))))))"

section \<open>main.rs\<close>

definition sui_main where
  "sui_main A P S E C F D K W R T keys admin_key order order' open_csv cert_digest move_package_data args =
     (let wl = \<lparr> tx_count = cmd_tx_count args, workload_kind = cmd_workload args \<rparr>
      in if is_test_kitty (workload_kind wl)
         then run_kitty_test A P C F D R T keys admin_key order order' open_csv move_package_data
                wl (cmd_component args) (cmd_print_sample_tx args) (cmd_skip_signing args) (cmd_account_path args)
         else run_benchmark A P S E C F D K W R T keys admin_key order order' open_csv cert_digest move_package_data
                wl (cmd_component args) (cmd_checkpoint_size args) (cmd_print_sample_tx args) (cmd_skip_signing args)
                (cmd_erc20_tx_path args) (cmd_account_path args))"

end
