(* ===== verification/Sui_Results.thy ===== *)
theory Sui_Results
  imports Sui_Bench
begin

text \<open>
  The lemmas and properties of the Sui benchmark driver: gas references after a refresh, the
  lands a workload creates, the transactions generated and the objects they use, the number of
  transactions a run measures, and the runs that cannot succeed.
\<close>

section \<open>Refreshing gas objects\<close>

definition refreshed where
  "refreshed new_gas oref = (case map_of new_gas (fst oref) of Some new_oref \<Rightarrow> new_oref | None \<Rightarrow> oref)"

lemma refresh_refs_ok:
  assumes "distinct (map fst orefs)"
  shows "\<exists>rest. refresh_refs orefs new_gas = (map (refreshed new_gas) orefs, rest) \<and>
    (\<forall>k. k \<notin> fst ` set orefs \<longrightarrow> map_of rest k = map_of new_gas k)"
  using assms
proof (induction orefs arbitrary: new_gas)
  case (Cons r orefs)
  then have r: "fst r \<notin> fst ` set orefs" by simp
  show ?case
  proof (cases "map_of new_gas (fst r)")
    case None
    from Cons.IH [of new_gas] Cons.prems obtain rest where
      "refresh_refs orefs new_gas = (map (refreshed new_gas) orefs, rest)"
      "\<forall>k. k \<notin> fst ` set orefs \<longrightarrow> map_of rest k = map_of new_gas k" by auto
    with None show ?thesis by (auto simp: refreshed_def)
  next
    case (Some n)
    let ?new = "AList.delete (fst r) new_gas"
    from Cons.IH [of ?new] Cons.prems obtain rest where IH:
      "refresh_refs orefs ?new = (map (refreshed ?new) orefs, rest)"
      "\<forall>k. k \<notin> fst ` set orefs \<longrightarrow> map_of rest k = map_of ?new k" by auto
    have "map (refreshed ?new) orefs = map (refreshed new_gas) orefs"
      using r by (auto simp: refreshed_def delete_conv' rev_image_eqI)
    with Some IH show ?thesis by (auto simp: refreshed_def delete_conv')
  qed
qed simp

lemma refresh_accounts_ok:
  assumes "distinct (map fst (concat (map (\<lambda>p. gas_objects (snd p)) accounts)))"
    and "\<forall>k \<in> set (map fst (concat (map (\<lambda>p. gas_objects (snd p)) accounts))). map_of new_gas k = map_of new_gas' k"
  shows "refresh_accounts accounts new_gas =
    map (\<lambda>(addr, account). (addr, account\<lparr>gas_objects := map (refreshed new_gas') (gas_objects account)\<rparr>)) accounts"
  using assms
proof (induction accounts arbitrary: new_gas)
  case (Cons p accounts)
  obtain addr account where p: "p = (addr, account)" by (cases p)
  from Cons.prems(1) have d: "distinct (map fst (gas_objects account))"
    and dis: "fst ` set (gas_objects account) \<inter> set (map fst (concat (map (\<lambda>p. gas_objects (snd p)) accounts))) = {}"
    and d': "distinct (map fst (concat (map (\<lambda>p. gas_objects (snd p)) accounts)))"
    by (simp_all add: p)
  from refresh_refs_ok [OF d, of new_gas] obtain rest where
    rr: "refresh_refs (gas_objects account) new_gas = (map (refreshed new_gas) (gas_objects account), rest)"
    and rest: "\<forall>k. k \<notin> fst ` set (gas_objects account) \<longrightarrow> map_of rest k = map_of new_gas k" by blast
  have same: "map (refreshed new_gas) (gas_objects account) = map (refreshed new_gas') (gas_objects account)"
    using Cons.prems(2) by (auto simp: refreshed_def p)
  have "\<forall>k \<in> set (map fst (concat (map (\<lambda>p. gas_objects (snd p)) accounts))). map_of rest k = map_of new_gas' k"
  proof
    fix k assume k: "k \<in> set (map fst (concat (map (\<lambda>p. gas_objects (snd p)) accounts)))"
    with dis rest have "map_of rest k = map_of new_gas k" by blast
    moreover have "k \<in> set (map fst (concat (map (\<lambda>p. gas_objects (snd p)) (p # accounts))))"
      using k by (simp del: set_concat)
    ultimately show "map_of rest k = map_of new_gas' k" using Cons.prems(2) by metis
  qed
  from Cons.IH [OF d' this] rr same show ?case by (simp add: p)
qed simp

lemma refresh_accounts_length [simp]: "length (refresh_accounts accounts new_gas) = length accounts"
proof (induction accounts arbitrary: new_gas)
  case (Cons p accounts)
  then show ?case by (cases p) (simp add: split_def Let_def)
qed simp

section \<open>The lands\<close>

lemma land_loop_keys:
  "land_loop A F ep results i lands new_gas v = Inr (lands', new_gas', v') \<Longrightarrow>
   unat i + length results < 65536 \<and>
   (\<forall>k. map_of lands' k \<noteq> None \<longleftrightarrow> map_of lands k \<noteq> None \<or> (unat i \<le> unat k \<and> unat k < unat i + length results))"
proof (induction results arbitrary: i lands new_gas v)
  case Nil
  then show ?case using unsigned_less [of i] by auto
next
  case (Cons effects results)
  from Cons.prems obtain land i' new_gas1 v1 where i': "add_c i 1 = Inr i'"
    and rest: "land_loop A F ep results i' (AList.update i land lands) new_gas1 v1 = Inr (lands', new_gas', v')"
    by (auto simp: Let_def split: prod.splits)
  from i' have u: "unat i' = unat i + 1" by (simp add: add_c_eq_Inr)
  have k: "k = i \<longleftrightarrow> unat k = unat i" for k by (simp add: word_unat_eq_iff)
  from Cons.IH [OF rest] show ?case by (auto simp: u update_conv' k)
qed

section \<open>Tasks\<close>

lemma run_tasks_length: "run_tasks f xs v = Inr (ys, v') \<Longrightarrow> length ys = length xs"
  by (induction xs arbitrary: ys v) auto

lemma spawn_all_length:
  "permutes sched \<Longrightarrow> permutes compl \<Longrightarrow> spawn_all sched compl f xs v = Inr (ys, v') \<Longrightarrow> length ys = length xs"
  by (auto simp: spawn_all_def permutes_length dest: run_tasks_length)

lemma run_tasks_panic:
  assumes "xs \<noteq> []" and "\<And>x v. f x v = Inl e"
  shows "run_tasks f xs v = Inl e"
  using assms by (cases xs) auto

definition orders_ok where
  "orders_ok R \<longleftrightarrow> permutes (tx_order R) \<and> permutes (tx_compl R) \<and> permutes (eff_compl R) \<and>
     permutes (cert_order R) \<and> permutes (cert_compl R) \<and> permutes (resp_compl R)"

section \<open>The number of accounts\<close>

lemma with_authority_accounts [simp]: "user_accounts (with_authority ctx v) = user_accounts ctx"
  by (simp add: with_authority_def)

lemma with_authority_component [simp]: "benchmark_component (with_authority ctx v) = benchmark_component ctx"
  by (simp add: with_authority_def)

lemma refresh_gas_objects_frame [simp]:
  "length (user_accounts (refresh_gas_objects new_gas ctx)) = length (user_accounts ctx)"
  "benchmark_component (refresh_gas_objects new_gas ctx) = benchmark_component ctx"
  by (simp_all add: refresh_gas_objects_def)

text \<open>A phase of the preparation keeps the number of accounts and the component.\<close>

definition keeps where
  "keeps ctx ctx' \<longleftrightarrow> length (user_accounts ctx') = length (user_accounts ctx) \<and>
     benchmark_component ctx' = benchmark_component ctx"

lemma ctx_publish_package_keeps: "ctx_publish_package A P d ctx = Inr (pkg, ctx') \<Longrightarrow> keeps ctx ctx'"
  by (auto simp: ctx_publish_package_def keeps_def Let_def with_authority_def)

lemma preparing_keeps:
  "preparing_dynamic_fields A P F s c c' rs pkg n ctx = Inr (roots, ctx') \<Longrightarrow> keeps ctx ctx'"
  "prepare_shared_objects A P F s c rs pkg m ctx = Inr (sh, ctx') \<Longrightarrow> keeps ctx ctx'"
  "prepare_kitty_objects A P F s c rs pkg b ctx = Inr (ki, ctx') \<Longrightarrow> keeps ctx ctx'"
  "prepare_land_objects A P F s c rs pkg k ctx = Inr (la, ctx') \<Longrightarrow> keeps ctx ctx'"
  by (auto simp: preparing_dynamic_fields_def prepare_shared_objects_def prepare_kitty_objects_def
      prepare_land_objects_def keeps_def split: if_splits)

lemma publish_dependencies_keeps:
  "publish_dependencies A P D dir ps m ctx = Inr (m', ctx') \<Longrightarrow> keeps ctx ctx'"
proof (induction ps arbitrary: m ctx)
  case (Cons p ps)
  then obtain bytes pkg ctx1 where "ctx_publish_package A P (ModuleBytes bytes) ctx = Inr (pkg, ctx1)"
    and "keeps ctx1 ctx'" by auto
  then show ?case using ctx_publish_package_keeps by (fastforce simp: keeps_def)
qed (simp add: keeps_def)

lemma create_tx_generator_keeps:
  assumes "create_tx_generator A P F D R d w ctx = Inr (gen, ctx')"
  shows "keeps ctx ctx'"
proof (cases "workload_kind w")
  case (PTB opts)
  with assms show ?thesis
    by (auto simp: create_tx_generator_def keeps_def dest!: ctx_publish_package_keeps preparing_keeps)
next
  case (Publish path)
  with assms show ?thesis
    by (auto simp: create_tx_generator_def PackagePublishTxGenerator_new_def keeps_def Let_def
        dest!: publish_dependencies_keeps)
qed

lemma generate_transactions_length:
  "permutes compl \<Longrightarrow> generate_transactions g n compl rs ctx = Inr txs \<Longrightarrow> length txs = length (user_accounts ctx)"
  by (auto simp: generate_transactions_def permutes_length dest: mapM_length)

lemma provide_gene_length:
  "permutes compl \<Longrightarrow> generate_kitty_provide_gene_transactions g compl rs ctx = Inr txs \<Longrightarrow>
     length txs = length (user_accounts ctx)"
  by (auto simp: generate_kitty_provide_gene_transactions_def permutes_length dest: mapM_length)

lemma certify_length:
  "permutes sched \<Longrightarrow> permutes compl \<Longrightarrow> certify_transactions C sched compl txs skip v = Inr (certs, v') \<Longrightarrow>
     length certs = length txs"
  unfolding certify_transactions_def by (rule spawn_all_length)

section \<open>The measured section\<close>

definition set_aside :: "Component \<Rightarrow> bool \<Rightarrow> nat" where
  "set_aside component print_sample_tx =
     (if component = TxnSigning then 0
      else if component = CheckpointExecutor \<or> print_sample_tx then 1 else 0)"

lemma remove_first_eq: "remove_first xs = Inr (y, ys) \<longleftrightarrow> xs = y # ys"
  by (cases xs) auto

lemma take_sample_length:
  "take_sample A C b txs v = Inr (rest, v') \<Longrightarrow> length rest + (if b then 1 else 0) = length txs"
  by (auto simp: take_sample_def remove_first_eq split: if_splits)

lemma run_component_measures:
  assumes R: "orders_ok R"
    and run: "run_component A P S E C F K W R dg gen component csize b skip txs ctx = Inr (n, v')"
  shows "n + set_aside component b = length txs"
proof (cases "component = TxnSigning")
  case True
  with run show ?thesis
    by (auto simp: run_component_def benchmark_transaction_signing_def set_aside_def Let_def)
next
  case False
  with run obtain certs v1 v2 where cert: "certify_transactions C (tx_order R) (cert_compl R) txs skip
      (authority (validator ctx)) = Inr (certs, v1)" and go: "(case component of
             CheckpointExecutor \<Rightarrow>
               benchmark_checkpoint_executor A S E C F K W dg (cert_order R) (eff_compl R) certs csize v2
           | ExecutionOnly \<Rightarrow>
               rbind (benchmark_transaction_execution_in_memory A S E C (cert_order R) (eff_compl R) certs
                        b v2) (\<lambda>(n, reads, v3). Inr (n, v3))
           | _ \<Rightarrow>
               benchmark_transaction_execution A C component (cert_order R) (eff_compl R) certs b v2) = Inr (n, v')"
    by (auto simp: run_component_def Let_def)
  from cert R have "length certs = length txs" by (auto simp: orders_ok_def intro: certify_length)
  moreover have "n + set_aside component b = length certs"
    using go False
    by (cases component)
      (auto simp: benchmark_checkpoint_executor_def benchmark_transaction_execution_in_memory_def
        benchmark_transaction_execution_def set_aside_def remove_first_eq dest!: take_sample_length)
  ultimately show ?thesis by simp
qed

section \<open>The accounts of a context\<close>

lemma word_of_nat_unat_mult: "unat a * unat b < 2 ^ 64 \<Longrightarrow> word_of_nat (unat a * unat b) = a * b" for a b :: u64
  by simp

lemma context_new_ok:
  assumes T: "sui_types_contract T" and ord: "permutes order"
    and num: "add_c (tx_count w) 1 = Inr n0" "(if b then add_c n0 1 else Inr n0) = Inr num"
    and per: "gas_object_num_per_account (workload_kind w) = Inr per"
    and inj: "inj_on (fst \<circ> keys) {..<unat num}" and fits: "unat num * unat per < 2 ^ 64"
  shows "\<exists>ctx. BenchmarkContext_new A T keys admin_key order order' open_csv w component b [] = Inr ctx \<and>
    length (user_accounts ctx) = unat (tx_count w) + (if b then 1 else 0) \<and> benchmark_component ctx = component \<and>
    btree_ok (user_accounts ctx) \<and> (\<forall>(addr, acc) \<in> set (user_accounts ctx). sender acc = addr \<and> length (gas_objects acc) = unat per) \<and>
    length (gas_objects (admin_account ctx)) = unat per \<and>
    distinct (map fst (concat (map (\<lambda>p. gas_objects (snd p)) (user_accounts ctx)) @ gas_objects (admin_account ctx)))"
proof -
  obtain accounts genesis where run: "batch_create_account_and_gas T keys order num per = Inr (accounts, genesis)"
    and g: "genesis_ok T accounts genesis" and len: "length accounts = unat num" "length genesis = unat num * unat per"
    and each: "\<forall>(addr, acc) \<in> set accounts. length (gas_objects acc) = unat per"
    using batch_create_ok [OF T ord inj fits] by blast
  from num have un: "unat num = unat (tx_count w) + 1 + (if b then 1 else 0)"
    by (cases b) (simp_all add: add_c_eq_Inr)
  with len have "accounts \<noteq> []" by auto
  then obtain users addr admin where acc: "accounts = users @ [(addr, admin)]"
    by (metis rev_exhaust prod.exhaust)
  have mul: "mul_c num per = Inr (num * per)" using fits by (simp add: mul_c_def)
  let ?ctx = "\<lparr> validator = SingleValidator_new A genesis component, user_accounts = users,
              admin_account = admin, benchmark_component = component, account_indexes = [] \<rparr>"
  have new: "BenchmarkContext_new A T keys admin_key order order' open_csv w component b [] = Inr ?ctx"
    by (simp add: BenchmarkContext_new_def num_accounts_of_def num per mul run [unfolded acc] len(2) btree_pop_last_def)
  have "distinct (map fst (map (compute_object_reference T) genesis))" using g by (simp add: genesis_ok_def)
  moreover have "mset (map fst (concat (map (gas_objects \<circ> snd) accounts))) = mset (map fst (map (compute_object_reference T) genesis))"
    using g unfolding genesis_ok_def mset_map by simp
  ultimately have "distinct (map fst (concat (map (gas_objects \<circ> snd) accounts)))"
    using mset_eq_imp_distinct_iff by blast
  then have d: "distinct (map fst (concat (map (\<lambda>p. gas_objects (snd p)) users) @ gas_objects admin))"
    by (simp add: acc comp_def)
  show ?thesis
    using g each un len d acc
    by (intro exI [of _ ?ctx] conjI new) (auto simp: genesis_ok_def btree_ok_def sorted_wrt_append)
qed

section \<open>Well-formed contexts\<close>

definition all_gas_ids where
  "all_gas_ids ctx = map fst (concat (map (\<lambda>p. gas_objects (snd p)) (user_accounts ctx)))"

definition ctx_wf where
  "ctx_wf ctx \<longleftrightarrow> btree_ok (user_accounts ctx) \<and>
     (\<forall>(addr, acc) \<in> set (user_accounts ctx). sender acc = addr) \<and> distinct (all_gas_ids ctx)"

text \<open>Two contexts with the same accounts and the same IDs of gas objects, account by account.\<close>

definition same_accounts where
  "same_accounts ctx ctx' \<longleftrightarrow>
     map (\<lambda>(addr, acc). (addr, sender acc, keypair acc, map fst (gas_objects acc))) (user_accounts ctx') =
     map (\<lambda>(addr, acc). (addr, sender acc, keypair acc, map fst (gas_objects acc))) (user_accounts ctx)"

lemma same_accounts_refl [simp]: "same_accounts ctx ctx"
  by (simp add: same_accounts_def)

lemma same_accounts_trans: "same_accounts a b \<Longrightarrow> same_accounts b c \<Longrightarrow> same_accounts a c"
  by (simp add: same_accounts_def)

lemma same_accounts_ids:
  assumes "same_accounts ctx ctx'"
  shows "all_gas_ids ctx' = all_gas_ids ctx"
proof -
  have ids: "all_gas_ids c = concat (map (\<lambda>(a, s, k, is). is)
      (map (\<lambda>(addr, acc). (addr, sender acc, keypair acc, map fst (gas_objects acc))) (user_accounts c)))" for c
    by (simp add: all_gas_ids_def map_concat comp_def split_def)
  from assms show ?thesis by (simp only: ids same_accounts_def)
qed

lemma same_accounts_wf:
  assumes "same_accounts ctx ctx'" and "ctx_wf ctx"
  shows "ctx_wf ctx'"
proof -
  let ?f = "\<lambda>(addr, acc). (addr, sender acc, keypair acc, map fst (gas_objects acc))"
  have eq: "map ?f (user_accounts ctx') = map ?f (user_accounts ctx)" using assms(1) by (simp add: same_accounts_def)
  have keys: "map fst (user_accounts c) = map fst (map ?f (user_accounts c))" for c
    by (simp add: comp_def split_def)
  have ok: "btree_ok (user_accounts ctx')"
    using assms(2) keys [of ctx] keys [of ctx'] eq by (simp only: ctx_wf_def btree_ok_def)
  have senders: "(\<forall>(addr, acc) \<in> set (user_accounts c). sender acc = addr) \<longleftrightarrow>
      (\<forall>(a, s, k, is) \<in> set (map ?f (user_accounts c)). s = a)" for c by auto
  from assms(2) have "\<forall>(addr, acc) \<in> set (user_accounts ctx'). sender acc = addr"
    unfolding ctx_wf_def senders eq by (elim conjE)
  with ok show ?thesis
    using assms(2) same_accounts_ids [OF assms(1)] by (simp add: ctx_wf_def)
qed

text \<open>New references are filed under their own ID, so a refresh changes versions only.\<close>

definition filed :: "('id \<times> ('id, 'dg) ObjectRef) list \<Rightarrow> bool" where
  "filed new_gas \<longleftrightarrow> (\<forall>k r. map_of new_gas k = Some r \<longrightarrow> fst r = k)"

lemma filed_Nil [simp]: "filed []"
  by (simp add: filed_def)

lemma filed_update [simp]: "filed new_gas \<Longrightarrow> filed (AList.update (fst r) r new_gas)"
  by (auto simp: filed_def update_conv')

lemma refreshed_id: "filed new_gas \<Longrightarrow> fst (refreshed new_gas r) = fst r"
  by (auto simp: refreshed_def filed_def split: option.split)

lemma refresh_same_accounts:
  assumes "ctx_wf ctx" and "filed new_gas"
  shows "same_accounts ctx (refresh_gas_objects new_gas ctx)"
proof -
  have d: "distinct (map fst (concat (map (\<lambda>p. gas_objects (snd p)) (user_accounts ctx))))"
    using assms(1) by (simp add: ctx_wf_def all_gas_ids_def)
  show ?thesis
    using refreshed_id [OF assms(2)]
    by (auto simp: same_accounts_def refresh_gas_objects_def refresh_accounts_ok [OF d, of new_gas new_gas])
qed

lemma root_loop_filed: "root_loop A F rs roots g v = Inr (roots', g', v') \<Longrightarrow> filed g \<Longrightarrow> filed g'"
  by (induction rs arbitrary: roots g v) (fastforce simp: Let_def)+

lemma shared_loop_filed: "shared_loop A F ep rs sh g v = Inr (sh', g', v') \<Longrightarrow> filed g \<Longrightarrow> filed g'"
  by (induction rs arbitrary: sh g v) (fastforce simp: Let_def)+

lemma kitty_loop_filed: "kitty_loop A F ep rs ki g v = Inr (ki', g', v') \<Longrightarrow> filed g \<Longrightarrow> filed g'"
  by (induction rs arbitrary: ki g v) (fastforce simp: Let_def)+

lemma land_loop_filed: "land_loop A F ep rs i la g v = Inr (la', g', v') \<Longrightarrow> filed g \<Longrightarrow> filed g'"
  by (induction rs arbitrary: i la g v) (fastforce simp: Let_def)+

lemma same_with_authority [simp]: "same_accounts ctx (with_authority ctx v)" "ctx_wf (with_authority ctx v) = ctx_wf ctx"
  by (simp_all add: same_accounts_def ctx_wf_def all_gas_ids_def)

lemma refresh_after:
  "ctx_wf ctx \<Longrightarrow> filed g \<Longrightarrow> same_accounts ctx (refresh_gas_objects g (with_authority ctx v))"
  using refresh_same_accounts [of "with_authority ctx v" g] same_accounts_trans [OF same_with_authority(1)] by auto

lemma preparing_same_accounts:
  "preparing_dynamic_fields A P F s c c' rs pkg n ctx = Inr (roots, ctx') \<Longrightarrow> ctx_wf ctx \<Longrightarrow> same_accounts ctx ctx'"
  "prepare_shared_objects A P F s c rs pkg m ctx = Inr (sh, ctx') \<Longrightarrow> ctx_wf ctx \<Longrightarrow> same_accounts ctx ctx'"
  "prepare_kitty_objects A P F s c rs pkg b ctx = Inr (ki, ctx') \<Longrightarrow> ctx_wf ctx \<Longrightarrow> same_accounts ctx ctx'"
  "prepare_land_objects A P F s c rs pkg k ctx = Inr (la, ctx') \<Longrightarrow> ctx_wf ctx \<Longrightarrow> same_accounts ctx ctx'"
  by (auto simp: preparing_dynamic_fields_def prepare_shared_objects_def prepare_kitty_objects_def
      prepare_land_objects_def split: if_splits
      intro!: refresh_after dest: root_loop_filed shared_loop_filed kitty_loop_filed land_loop_filed)

lemma ctx_publish_package_same: "ctx_publish_package A P d ctx = Inr (pkg, ctx') \<Longrightarrow> same_accounts ctx ctx'"
  by (auto simp: ctx_publish_package_def same_accounts_def Let_def with_authority_def)

lemma publish_dependencies_same:
  "publish_dependencies A P D dir ps m ctx = Inr (m', ctx') \<Longrightarrow> same_accounts ctx ctx'"
proof (induction ps arbitrary: m ctx)
  case (Cons p ps)
  then show ?case by (auto dest!: ctx_publish_package_same intro: same_accounts_trans)
qed simp

lemma create_tx_generator_same:
  assumes run: "create_tx_generator A P F D R d w ctx = Inr (gen, ctx')" and wf: "ctx_wf ctx"
  shows "same_accounts ctx ctx'"
proof (cases "workload_kind w")
  case (PTB opts)
  with run obtain package c1 roots c2 shared c3 kitties c4 lands where
    1: "ctx_publish_package A P d ctx = Inr (package, c1)" and
    2: "preparing_dynamic_fields A P F (tx_order R) (eff_compl R) (tx_compl R) (random_values R)
          (fst package) (opt_num_dynamic_fields opts) c1 = Inr (roots, c2)" and
    3: "prepare_shared_objects A P F (tx_order R) (eff_compl R) (random_values R)
          (fst package) (opt_num_shared_objects opts) c2 = Inr (shared, c3)" and
    4: "prepare_kitty_objects A P F (tx_order R) (eff_compl R) (random_values R)
          (fst package) (opt_test_kitty opts) c3 = Inr (kitties, c4)" and
    5: "prepare_land_objects A P F (tx_order R) (eff_compl R) (random_values R)
          (fst package) (opt_num_land_objects opts) c4 = Inr (lands, ctx')"
    by (auto simp: create_tx_generator_def)
  note s1 = ctx_publish_package_same [OF 1] note w1 = same_accounts_wf [OF s1 wf]
  note s2 = preparing_same_accounts(1) [OF 2 w1] note w2 = same_accounts_wf [OF s2 w1]
  note s3 = preparing_same_accounts(2) [OF 3 w2] note w3 = same_accounts_wf [OF s3 w2]
  note s4 = preparing_same_accounts(3) [OF 4 w3] note w4 = same_accounts_wf [OF s4 w3]
  note s5 = preparing_same_accounts(4) [OF 5 w4]
  show ?thesis by (rule same_accounts_trans [OF s1 same_accounts_trans [OF s2 same_accounts_trans [OF s3
        same_accounts_trans [OF s4 s5]]]])
next
  case (Publish path)
  with run show ?thesis
    by (auto simp: create_tx_generator_def PackagePublishTxGenerator_new_def Let_def
        dest!: publish_dependencies_same)
qed

section \<open>One transaction per account\<close>

lemma mapM_comp: "mapM f (map h xs) = mapM (\<lambda>x. f (h x)) xs"
  by (induction xs) auto

lemma generate_transactions_requests:
  "generate_transactions g n compl rngs ctx =
     rbind (mapM (\<lambda>(account, to, args, objects, rng). g account to args objects rng)
        (map (\<lambda>(i, addr, account). (account, sender account, shared_index_args n (Suc i), [], rngs i))
           (enumerate 0 (user_accounts ctx)))) (\<lambda>txs. Inr (compl txs))"
  by (simp add: generate_transactions_def mapM_comp split_def)

lemma shared_index_bound: "n = 0 \<or> get_arg (shared_index_args n i) ''shared_obj_index'' < n"
  by (simp add: shared_index_args_def get_arg_def)

lemma generate_move_transactions:
  fixes rngs :: "nat \<Rightarrow> Rng"
  assumes "\<forall>(addr, account) \<in> set (user_accounts ctx). \<forall>i. MoveTx_serves P G account (shared_index_args (shared_obj_num G) i) []"
    and "permutes compl"
  shows "\<exists>txs. generate_transactions (MoveTx_generate_tx P G) (shared_obj_num G) compl rngs ctx = Inr txs \<and>
    length txs = length (user_accounts ctx)"
proof -
  have "\<exists>txs. mapM (\<lambda>(account, to, args, objects, rng). MoveTx_generate_tx P G account to args objects rng)
      (map (\<lambda>(i, addr, account). (account, sender account, shared_index_args (shared_obj_num G) (Suc i), [], rngs i))
        (enumerate 0 (user_accounts ctx))) = Inr txs"
    by (rule move_tx.generates_all)
      (use assms(1) shared_index_bound [of "shared_obj_num G"] in \<open>fastforce simp: in_set_enumerate_eq dest: nth_mem\<close>)
  then obtain txs where
    "generate_transactions (MoveTx_generate_tx P G) (shared_obj_num G) compl rngs ctx = Inr (compl txs)"
    unfolding generate_transactions_requests by auto
  with generate_transactions_length [OF assms(2)] show ?thesis by blast
qed

section \<open>Transfers from a file\<close>

text \<open>The index of a request is the number of earlier requests of the same sender index.\<close>

lemma entry_or_zero_update:
  "entry_or_zero (AList.update k n m) j = (if j = k then n else entry_or_zero m j)"
  by (simp add: entry_or_zero_def update_conv')

definition request_of where
  "request_of ctx froms tos earlier i =
     (let a = froms ! i
      in (the (map_of (user_accounts ctx) (the (map_of (account_indexes ctx) a))),
          the (map_of (account_indexes ctx) (tos ! i)),
          [(''obj_index'', earlier a + length (filter (\<lambda>b. b = a) (take i froms)))]))"

lemma erc20_requests_shape:
  "erc20_requests ctx m records = Inr reqs \<Longrightarrow>
   \<exists>froms tos. length froms = length records \<and> length tos = length records \<and>
     (\<forall>i<length records. map_of (account_indexes ctx) (froms ! i) \<noteq> None \<and>
        map_of (user_accounts ctx) (the (map_of (account_indexes ctx) (froms ! i))) \<noteq> None \<and>
        records ! i \<noteq> [] \<and> parse_u64 (records ! i ! 0) = Some (froms ! i)) \<and>
     reqs = map (request_of ctx froms tos (entry_or_zero m)) [0..<length records]"
proof (induction records arbitrary: m reqs)
  case (Cons r rs)
  from Cons.prems obtain a b addr from1 to1 reqs' where
    r: "r \<noteq> []" "parse_u64 (r ! 0) = Some a" and look: "map_of (account_indexes ctx) a = Some addr"
      "map_of (user_accounts ctx) addr = Some from1" "map_of (account_indexes ctx) b = Some to1"
    and rest: "erc20_requests ctx (AList.update a (Suc (entry_or_zero m a)) m) rs = Inr reqs'"
    and reqs: "reqs = (from1, to1, [(''obj_index'', entry_or_zero m a)]) # reqs'"
    by (auto simp: Let_def)
  from Cons.IH [OF rest] obtain froms tos where len: "length froms = length rs" "length tos = length rs"
    and ok: "\<forall>i<length rs. map_of (account_indexes ctx) (froms ! i) \<noteq> None \<and>
        map_of (user_accounts ctx) (the (map_of (account_indexes ctx) (froms ! i))) \<noteq> None \<and>
        rs ! i \<noteq> [] \<and> parse_u64 (rs ! i ! 0) = Some (froms ! i)"
    and req': "reqs' = map (request_of ctx froms tos (entry_or_zero (AList.update a (Suc (entry_or_zero m a)) m))) [0..<length rs]"
    by blast
  have tail: "request_of ctx froms tos (entry_or_zero (AList.update a (Suc (entry_or_zero m a)) m)) i =
      request_of ctx (a # froms) (b # tos) (entry_or_zero m) (Suc i)" for i
    by (simp add: request_of_def entry_or_zero_update Let_def)
  have "[0..<length (r # rs)] = 0 # map Suc [0..<length rs]" by (simp add: upt_conv_Cons map_Suc_upt del: upt_Suc)
  then have "reqs = map (request_of ctx (a # froms) (b # tos) (entry_or_zero m)) [0..<length (r # rs)]"
    using look by (simp add: reqs req' tail request_of_def [of _ _ _ _ 0] comp_def del: upt_Suc)
  moreover have "\<forall>i<length (r # rs). map_of (account_indexes ctx) ((a # froms) ! i) \<noteq> None \<and>
        map_of (user_accounts ctx) (the (map_of (account_indexes ctx) ((a # froms) ! i))) \<noteq> None \<and>
        (r # rs) ! i \<noteq> [] \<and> parse_u64 ((r # rs) ! i ! 0) = Some ((a # froms) ! i)"
    using ok look r by (auto simp: less_Suc_eq_0_disj)
  ultimately show ?case
    using len by (intro exI [of _ "a # froms"] exI [of _ "b # tos"]) simp
qed simp


lemma distinct_concat_nth:
  "distinct (concat xss) \<Longrightarrow> i < length xss \<Longrightarrow> j < length xss \<Longrightarrow> p < length (xss ! i) \<Longrightarrow> q < length (xss ! j) \<Longrightarrow>
     xss ! i ! p = xss ! j ! q \<Longrightarrow> i = j \<and> p = q"
proof (induction xss arbitrary: i j)
  case (Cons xs xss)
  have no: False if "xs ! a = xss ! k ! b" "a < length xs" "k < length xss" "b < length (xss ! k)" for a k b
  proof -
    have "xs ! a \<in> set xs" "xss ! k ! b \<in> set (concat xss)"
      using that(2-4) by (auto intro!: bexI [of _ "xss ! k"] nth_mem)
    with that(1) Cons.prems(1) show False by auto
  qed
  show ?case
    using Cons.prems Cons.IH [of "i - 1" "j - 1"] no no [OF sym]
    by (cases i; cases j) (auto simp: nth_eq_iff_index_eq)
qed simp

lemma distinct_concat_upt:
  assumes "\<And>i. i < n \<Longrightarrow> distinct (f i)" and "\<And>i j. i < j \<Longrightarrow> j < n \<Longrightarrow> set (f i) \<inter> set (f j) = {}"
  shows "distinct (concat (map f [0..<n]))"
  using assms
proof (induction n)
  case (Suc n)
  then have "distinct (concat (map f [0..<n]))" by simp
  moreover have "set (f i) \<inter> set (f n) = {}" if "i < n" for i using Suc.prems(2) [OF that] by simp
  then have "set (concat (map f [0..<n])) \<inter> set (f n) = {}" by fastforce
  ultimately show ?case using Suc.prems(1) [of n] by simp
qed simp

text \<open>In a well-formed context a gas object belongs to one account and one position.\<close>

lemma gas_position:
  assumes wf: "ctx_wf ctx" and "map_of (user_accounts ctx) a = Some acc" "map_of (user_accounts ctx) b = Some acc'"
    and "p < length (gas_objects acc)" "q < length (gas_objects acc')"
    and "fst (gas_objects acc ! p) = fst (gas_objects acc' ! q)"
  shows "a = b \<and> p = q"
proof -
  let ?us = "user_accounts ctx"
  from assms(2,3) obtain i j where i: "i < length ?us" "?us ! i = (a, acc)" and j: "j < length ?us" "?us ! j = (b, acc')"
    by (metis map_of_SomeD in_set_conv_nth)
  have "distinct (concat (map (\<lambda>p. map fst (gas_objects (snd p))) ?us))"
    using wf by (simp add: ctx_wf_def all_gas_ids_def map_concat comp_def)
  from distinct_concat_nth [OF this, of i j p q] i j assms(4-6) have "i = j \<and> p = q" by simp
  with i j show ?thesis by simp
qed

definition account_for where
  "account_for ctx a = Option.bind (map_of (account_indexes ctx) a) (map_of (user_accounts ctx))"

text \<open>The gas object and the coin of a request, by ID.\<close>

definition used_ids where
  "used_ids req =
     (case req of (from1, to1, args) \<Rightarrow>
        let gas = gas_objects from1; k = get_arg args ''obj_index''
        in [fst (gas ! k), fst (gas ! (length gas div 2 + k))])"

definition in_range where
  "in_range req \<longleftrightarrow>
     (case req of (from1, to1, args) \<Rightarrow>
        length (gas_objects from1) div 2 + get_arg args ''obj_index'' < length (gas_objects from1))"

definition enough_objects where
  "enough_objects ctx records \<longleftrightarrow>
     (\<forall>a acc. account_for ctx a = Some acc \<longrightarrow>
        2 * length (filter (\<lambda>r. r \<noteq> [] \<and> parse_u64 (r ! 0) = Some a) records) \<le> length (gas_objects acc))"

lemma count_take_less:
  assumes "i < length xs" and "P (xs ! i)"
  shows "length (filter P (take i xs)) < length (filter P xs)"
proof -
  have "xs = take i xs @ xs ! i # drop (Suc i) xs" using assms(1) by (rule id_take_nth_drop)
  then have "length (filter P xs) = length (filter P (take i xs @ xs ! i # drop (Suc i) xs))" by simp
  with assms(2) show ?thesis by simp
qed

lemma count_take_mono:
  assumes "i < j" and "j < length xs" and "P (xs ! i)"
  shows "length (filter P (take i xs)) < length (filter P (take j xs))"
  using count_take_less [of i "take j xs" P] assms by simp

text \<open>Counting the senders of a file's records, before or after they are parsed.\<close>

lemma count_senders:
  assumes len: "length froms = length records"
    and ok: "\<And>i. i < length records \<Longrightarrow> records ! i \<noteq> [] \<and> parse_u64 (records ! i ! 0) = Some (froms ! i)"
  shows "length (filter (\<lambda>b. b = a) froms) = length (filter (\<lambda>r. r \<noteq> [] \<and> parse_u64 (r ! 0) = Some a) records)"
proof -
  have froms: "froms = map (\<lambda>r. the (parse_u64 (r ! 0))) records"
  proof (rule nth_equalityI)
    show "length froms = length (map (\<lambda>r. the (parse_u64 (r ! 0))) records)" using len by simp
    show "froms ! i = map (\<lambda>r. the (parse_u64 (r ! 0))) records ! i" if "i < length froms" for i
      using that len ok [of i] by simp
  qed
  have "\<forall>r \<in> set records. r \<noteq> [] \<and> parse_u64 (r ! 0) \<noteq> None"
    unfolding all_set_conv_all_nth using ok by simp
  then have "filter (\<lambda>r. the (parse_u64 (r ! 0)) = a) records = filter (\<lambda>r. r \<noteq> [] \<and> parse_u64 (r ! 0) = Some a) records"
    by (intro filter_cong) auto
  then show ?thesis by (simp only: froms filter_map comp_def length_map)
qed

text \<open>A request takes its gas from the first half of its sender's objects and its coin from the same
position of the second half, so that requests at different positions share nothing.\<close>

definition halves where
  "halves acc k = [fst (gas_objects acc ! k), fst (gas_objects acc ! (length (gas_objects acc) div 2 + k))]"

lemma halves_distinct:
  assumes "ctx_wf ctx" and "map_of (user_accounts ctx) a = Some acc" and "k < length (gas_objects acc) div 2"
  shows "distinct (halves acc k)"
proof -
  have "k < length (gas_objects acc)" "length (gas_objects acc) div 2 + k < length (gas_objects acc)"
    "k \<noteq> length (gas_objects acc) div 2 + k" using assms(3) by linarith+
  with gas_position [OF assms(1,2,2) this(1,2)] show ?thesis by (auto simp: halves_def)
qed

lemma halves_disjoint:
  assumes wf: "ctx_wf ctx" and a: "map_of (user_accounts ctx) a = Some acc" and b: "map_of (user_accounts ctx) b = Some acc'"
    and k: "k < length (gas_objects acc) div 2" and k': "k' < length (gas_objects acc') div 2"
    and later: "a = b \<Longrightarrow> k < k'"
  shows "set (halves acc k) \<inter> set (halves acc' k') = {}"
proof -
  have ne: "fst (gas_objects acc ! p) \<noteq> fst (gas_objects acc' ! q)"
    if p: "p = k \<or> p = length (gas_objects acc) div 2 + k"
    and q: "q = k' \<or> q = length (gas_objects acc') div 2 + k'" for p q
  proof
    assume same: "fst (gas_objects acc ! p) = fst (gas_objects acc' ! q)"
    have "p < length (gas_objects acc)" using p k by linarith
    moreover have "q < length (gas_objects acc')" using q k' by linarith
    ultimately have *: "a = b" "p = q" using gas_position [OF wf a b] same by simp_all
    from *(1) a b have "acc = acc'" by simp
    with later [OF *(1)] p q *(2) k k' show False by auto
  qed
  show ?thesis
    unfolding halves_def using ne [of k k'] ne [of k "length (gas_objects acc') div 2 + k'"]
      ne [of "length (gas_objects acc) div 2 + k" k']
      ne [of "length (gas_objects acc) div 2 + k" "length (gas_objects acc') div 2 + k'"]
    by simp
qed

lemma erc20_objects:
  assumes wf: "ctx_wf ctx" and inj: "inj_on (map_of (account_indexes ctx)) (dom (map_of (account_indexes ctx)))"
    and enough: "enough_objects ctx records" and run: "erc20_requests ctx [] records = Inr reqs"
  shows "(\<forall>req \<in> set reqs. in_range req) \<and> distinct (concat (map used_ids reqs))"
proof -
  from erc20_requests_shape [OF run] obtain froms tos where
    len: "length froms = length records"
    and ok: "\<And>i. i < length records \<Longrightarrow> map_of (account_indexes ctx) (froms ! i) \<noteq> None \<and>
        map_of (user_accounts ctx) (the (map_of (account_indexes ctx) (froms ! i))) \<noteq> None \<and>
        records ! i \<noteq> [] \<and> parse_u64 (records ! i ! 0) = Some (froms ! i)"
    and reqs: "reqs = map (request_of ctx froms tos (entry_or_zero [])) [0..<length records]" by metis
  define addr where "addr i = the (map_of (account_indexes ctx) (froms ! i))" for i
  define acc where "acc i = the (map_of (user_accounts ctx) (addr i))" for i
  define k where "k i = length (filter (\<lambda>b. b = froms ! i) (take i froms))" for i
  have look: "map_of (account_indexes ctx) (froms ! i) = Some (addr i)" "map_of (user_accounts ctx) (addr i) = Some (acc i)"
    if "i < length records" for i using ok [OF that] by (auto simp: addr_def acc_def)
  have req: "request_of ctx froms tos (entry_or_zero []) i = (acc i, the (map_of (account_indexes ctx) (tos ! i)), [(''obj_index'', k i)])" for i
    by (simp add: request_of_def Let_def acc_def addr_def k_def entry_or_zero_def)
  have half: "k i < length (gas_objects (acc i)) div 2" if i: "i < length records" for i
  proof -
    have "k i < length (filter (\<lambda>b. b = froms ! i) froms)"
      using count_take_less [of i froms "\<lambda>b. b = froms ! i"] i len by (simp add: k_def)
    moreover have "2 * length (filter (\<lambda>b. b = froms ! i) froms) \<le> length (gas_objects (acc i))"
      using enough [unfolded enough_objects_def, rule_format, of "froms ! i" "acc i"] look [OF i]
        count_senders [OF len, of "froms ! i"] ok by (simp add: account_for_def)
    ultimately show ?thesis by linarith
  qed
  have later: "k i < k j" if "addr i = addr j" and ij: "i < j" "j < length records" for i j
    using inj_onD [OF inj, of "froms ! i" "froms ! j"] look(1) [of i] look(1) [of j] that len
      count_take_mono [of i j froms "\<lambda>b. b = froms ! i"] by (auto simp: k_def domI)
  have f: "used_ids (request_of ctx froms tos (entry_or_zero []) i) = halves (acc i) (k i)" for i
    by (simp add: used_ids_def halves_def req Let_def get_arg_def)
  have "distinct (concat (map (\<lambda>i. halves (acc i) (k i)) [0..<length records]))"
    using look(2) half later
    by (intro distinct_concat_upt halves_distinct [OF wf] halves_disjoint [OF wf]) (blast intro: less_trans)+
  then have "distinct (concat (map used_ids reqs))" by (simp add: reqs comp_def f)
  moreover have "length (gas_objects (acc i)) div 2 + k i < length (gas_objects (acc i))" if "i < length records" for i
    using half [OF that] by linarith
  then have "\<forall>req \<in> set reqs. in_range req" by (auto simp: reqs req in_range_def get_arg_def)
  ultimately show ?thesis by blast
qed


end
