(* ===== verification/Sui_Properties.thy ===== *)
theory Sui_Properties
  imports Sui_Results
begin

text \<open>
  The properties of the Sui benchmark driver as a whole: the context a run starts with, what
  preparing a workload keeps, the objects the generated transactions use, the number of
  transactions in the measured section, the runs that cannot succeed, and the independence of
  the in-memory execution from the order of its tasks.
\<close>

section \<open>A small concrete node\<close>

text \<open>
  A transaction is its sender and its gas object, and its effects are itself. The authority
  counts the transactions it executed. An owner is an address, or \<open>None\<close> for a package or a
  shared object.
\<close>

type_synonym mini_tx = "nat \<times> (u8 list, unit) ObjectRef"

definition mini_id :: "u8 list" where
  "mini_id = replicate 32 9"

definition mini_tx_ops :: "(u8 list, nat, unit, unit, unit, unit, unit, unit, unit, unit, mini_tx) TxOps" where
  "mini_tx_ops =
     \<lparr> DEFAULT_VALIDATOR_GAS_PRICE = 1000, bcs_address = \<lambda>a. Inr (), bcs_u16 = \<lambda>n. Inr (),
       bcs_u64 = \<lambda>n. Inr (), bcs_u128 = \<lambda>n. Inr (), ptb_new = (),
       transfer_object = \<lambda>a r b. Inr b, move_call = \<lambda>p m f args b. Inr b,
       ptb_obj = \<lambda>oa b. Inr ((), b), ptb_pure = \<lambda>n b. Inr ((), b),
       programmable_move_call = \<lambda>p m f xs b. b,
       ptb_finish = \<lambda>b. b, sign_programmable = \<lambda>a g price pt kp. (a, g),
       sign_move_call = \<lambda>a g price p m f args kp. (a, g),
       sign_publish = \<lambda>a g price d kp. (a, g) \<rparr>"

definition mini_authority :: "(nat, mini_tx, mini_tx, mini_tx, mini_tx, nat option, mini_tx, u8 list, unit,
    u8 list \<times> nat, unit, unit, unit, unit) Authority" where
  "mini_authority =
     \<lparr> build_authority = \<lambda>objs. 0, exec_from_quorum = id, exec_from_certificate = id,
       try_execute_immediately = \<lambda>ex v. (Inr ex, v + 1),
       enqueue_certificates_for_execution = \<lambda>certs v. v,
       authority_execute_certificate = \<lambda>cert v. (Inr cert, v + 1),
       service_execute_certificate = \<lambda>cert v. (Inr cert, v + 1),
       handle_transaction = \<lambda>tx v. (Inr tx, v),
       process_consensus_transaction = \<lambda>tx v. (Inr (), v),
       assign_shared_versions = \<lambda>exs v. Inr v, live_objects = \<lambda>v. [], validator_name = \<lambda>v. (),
       validator_secret = \<lambda>v. (), contains_shared_object = \<lambda>cert. False, status_is_ok = \<lambda>eff. True,
       all_changed_objects = \<lambda>eff. [((mini_id, 1, ()), None)], is_immutable = \<lambda>own. own = None,
       gas_object = \<lambda>eff. snd eff \<rparr>"

definition mini_certify :: "(nat, mini_tx, mini_tx, unit, unit) CertifyOps" where
  "mini_certify =
     \<lparr> sign_with_secret = \<lambda>tx v. (), handle_for_signature = \<lambda>tx v. (Inr (), v),
       new_certificate = \<lambda>tx sigs v. Inr tx, into_unsigned = \<lambda>cert. cert \<rparr>"

definition mini_effects :: "(nat, mini_tx, nat option, u8 list, nat, unit, unit, nat, unit) EffectsOps" where
  "mini_effects =
     \<lparr> created = \<lambda>eff. [((mini_id, 1, ()), Some (fst eff)), ((mini_id, 1, ()), None)],
       mutated = \<lambda>eff. [(snd eff, Some (fst eff))], address_owner = \<lambda>own. own, is_shared = \<lambda>own. own = None,
       executed_epoch = \<lambda>eff. (), transaction_digest = fst, current_epoch = \<lambda>v. (),
       commit_transaction_outputs = \<lambda>ep dig v. (Inr (), v) \<rparr>"

definition mini_orders :: "(mini_tx, mini_tx, mini_tx, mini_tx) Orders" where
  "mini_orders =
     \<lparr> tx_order = rev, tx_compl = id, eff_compl = rev, cert_order = id, cert_compl = rev, resp_compl = id,
       random_values = \<lambda>i. \<lparr> gene_id = 0, land_x = 3, land_y = 4 \<rparr> \<rparr>"

lemma mini_orders_ok: "orders_ok mini_orders"
  by (simp add: orders_ok_def mini_orders_def permutes_id permutes_rev)

text \<open>A workload of single computations, one without shared, root, kitty or land objects.\<close>

definition plain_options :: PTBOptions where
  "plain_options =
     \<lparr> opt_num_transfers = 0, opt_use_native_transfer = False, opt_num_dynamic_fields = 0, opt_computation = 0,
       opt_num_shared_objects = 0, opt_erc20_transfer = False, opt_test_kitty = False, opt_num_land_objects = 0 \<rparr>"

definition plain_workload :: "u64 \<Rightarrow> Workload" where
  "plain_workload n = \<lparr> tx_count = n, workload_kind = PTB plain_options \<rparr>"

text \<open>A file system without files.\<close>

definition no_csv :: "string \<Rightarrow> unit + (unit + string list) list" where
  "no_csv path = Inl ()"

text \<open>A context with one account, and a workload that prepares objects of every kind.\<close>

definition mini_context :: "(nat, u8 list, nat, unit, unit) BenchmarkContext" where
  "mini_context =
     \<lparr> validator = \<lparr> authority = 0, consensus_mode = Noop \<rparr>,
       user_accounts = [(9, \<lparr> sender = 9, keypair = (),
         gas_objects = [([1], 1, ()), ([2], 1, ()), ([3], 1, ()), ([4], 1, ())] \<rparr>)],
       admin_account = \<lparr> sender = 5, keypair = (), gas_objects = [([6], 1, ())] \<rparr>,
       benchmark_component = Baseline, account_indexes = [(7, 9)] \<rparr>"

definition full_workload :: Workload where
  "full_workload = \<lparr> tx_count = 1, workload_kind = PTB (plain_options\<lparr>opt_num_dynamic_fields := 1,
     opt_num_shared_objects := 1, opt_test_kitty := True, opt_num_land_objects := 1\<rparr>) \<rparr>"

lemma mini_context_wf: "ctx_wf mini_context"
  by (simp add: ctx_wf_def mini_context_def all_gas_ids_def btree_ok_def)

section \<open>The context\<close>

text \<open>The accounts and the gas objects per account that a workload asks for.\<close>

definition accounts_for :: "Workload \<Rightarrow> bool \<Rightarrow> nat" where
  "accounts_for w print_sample_tx = unat (tx_count w) + 1 + (if print_sample_tx then 1 else 0)"

definition objects_for :: "Workload \<Rightarrow> nat" where
  "objects_for w = (case workload_kind w of PTB opts \<Rightarrow> unat (opt_num_transfers opts) + 1 | Publish _ \<Rightarrow> 1)"

lemma objects_for_pos: "0 < objects_for w"
  by (simp add: objects_for_def split: WorkloadKind.split)

lemma new_context_ok:
  assumes T: "sui_types_contract T" and ord: "permutes order"
    and inj: "inj_on (fst \<circ> keys) {..<accounts_for w b}" and fits: "accounts_for w b * objects_for w < 2 ^ 64"
  shows "\<exists>ctx. BenchmarkContext_new A T keys admin_key order order' open_csv w component b [] = Inr ctx \<and>
    length (user_accounts ctx) = unat (tx_count w) + (if b then 1 else 0) \<and> benchmark_component ctx = component \<and>
    ctx_wf ctx \<and> (\<forall>(addr, acc) \<in> set (user_accounts ctx). length (gas_objects acc) = objects_for w) \<and>
    length (gas_objects (admin_account ctx)) = objects_for w \<and>
    set (map fst (gas_objects (admin_account ctx))) \<inter> set (all_gas_ids ctx) = {}"
proof -
  have pos: "0 < accounts_for w b" by (simp add: accounts_for_def)
  have acc: "accounts_for w b < 2 ^ 64"
    by (rule le_less_trans [OF _ fits]) (use objects_for_pos [of w] in simp)
  have obj: "objects_for w < 2 ^ 64"
    by (rule le_less_trans [OF _ fits]) (use pos in simp)
  obtain n0 where n0: "add_c (tx_count w) 1 = Inr n0" and u0: "unat n0 = unat (tx_count w) + 1"
    using add_c_ok [of "tx_count w" 1] acc by (auto simp: accounts_for_def)
  obtain num where num: "(if b then add_c n0 1 else Inr n0) = Inr num" and un: "unat num = accounts_for w b"
    using add_c_ok [of n0 1] acc u0 by (cases b) (auto simp: accounts_for_def)
  obtain per where per: "gas_object_num_per_account (workload_kind w) = Inr per" and up: "unat per = objects_for w"
  proof (cases "workload_kind w")
    case (PTB opts)
    with that obj show ?thesis using add_c_ok [of "opt_num_transfers opts" 1] by (auto simp: objects_for_def)
  next
    case (Publish path)
    with that show ?thesis by (simp add: objects_for_def)
  qed
  have "inj_on (fst \<circ> keys) {..<unat num}" "unat num * unat per < 2 ^ 64" using inj fits by (simp_all only: un up)
  from context_new_ok [OF T ord n0 num per this, of A admin_key order' open_csv component] obtain ctx where
    "BenchmarkContext_new A T keys admin_key order order' open_csv w component b [] = Inr ctx"
    "length (user_accounts ctx) = unat (tx_count w) + (if b then 1 else 0)" "benchmark_component ctx = component"
    "btree_ok (user_accounts ctx)"
    "\<forall>(addr, acc) \<in> set (user_accounts ctx). sender acc = addr \<and> length (gas_objects acc) = unat per"
    "length (gas_objects (admin_account ctx)) = unat per"
    "distinct (map fst (concat (map (\<lambda>p. gas_objects (snd p)) (user_accounts ctx)) @ gas_objects (admin_account ctx)))"
    by blast
  then show ?thesis
    by (intro exI [of _ ctx]) (auto simp: ctx_wf_def all_gas_ids_def up)
qed

section \<open>Running the small node\<close>

lemma mapM_Inr: "(\<And>x. x \<in> set xs \<Longrightarrow> f x = Inr (g x)) \<Longrightarrow> mapM f xs = Inr (map g xs)"
  by (induction xs) auto

lemma run_tasks_Inr: "(\<And>x v. f x v = Inr (x, h v)) \<Longrightarrow> run_tasks f xs v = Inr (xs, (h ^^ length xs) v)"
  by (induction xs arbitrary: v) (simp_all add: funpow_swap1)

definition plain_move :: "(u8 list, nat, unit) MoveTxGenerator" where
  "plain_move =
     \<lparr> move_package = mini_id, num_transfers = 0, use_native_transfer = False, computation = 0, root_objects = [],
       shared_objects = [], erc20_transfer = False, kitty_objects = [], land_objects = [] \<rparr>"

lemma plain_move_tx:
  "gas_objects acc \<noteq> [] \<Longrightarrow>
   MoveTx_generate_tx mini_tx_ops plain_move acc to [(''shared_obj_index'', i)] [] rng = Inr (sender acc, hd (gas_objects acc))"
  by (simp add: MoveTx_generate_tx_def transfer_steps_def shared_step_def root_step_def computation_step_def plain_move_def
      erc20_step_def kitty_step_def land_step_def mini_tx_ops_def get_arg_def index_at_def hd_conv_nth)

lemma mini_prepared:
  assumes "gas_objects (admin_account ctx) \<noteq> []"
  shows "\<exists>ctx'. create_tx_generator mini_authority mini_tx_ops mini_effects D mini_orders d (plain_workload n) ctx =
      Inr (MoveGenerator plain_move, ctx') \<and> user_accounts ctx' = user_accounts ctx"
  using assms
  by (simp add: create_tx_generator_def plain_workload_def plain_options_def plain_move_def ctx_publish_package_def Let_def
      index_at_def publish_package_def execute_raw_transaction_def mini_authority_def mini_tx_ops_def await_unwrap_def unwrap_ok_def
      unwrap_def assert_that_def preparing_dynamic_fields_def prepare_shared_objects_def prepare_kitty_objects_def prepare_land_objects_def)

lemma mini_transactions:
  assumes "\<forall>(addr, acc) \<in> set (user_accounts ctx). gas_objects acc \<noteq> []"
  shows "\<exists>txs. generate_transactions (MoveTx_generate_tx mini_tx_ops plain_move) 0 compl rngs ctx = Inr txs"
proof -
  have "mapM (\<lambda>(i, addr, account). MoveTx_generate_tx mini_tx_ops plain_move account (sender account) (shared_index_args 0 (Suc i)) [] (rngs i))
      (enumerate 0 (user_accounts ctx)) = Inr (map (\<lambda>(i, addr, account). (sender account, hd (gas_objects account))) (enumerate 0 (user_accounts ctx)))"
    using assms by (intro mapM_Inr) (auto simp: shared_index_args_def in_set_enumerate_eq intro!: plain_move_tx dest!: nth_mem)
  then show ?thesis by (simp add: generate_transactions_def)
qed

lemma mini_component:
  "\<exists>n v. run_component mini_authority mini_tx_ops S E mini_certify mini_effects K W mini_orders dg gen Baseline
     csize False skip txs ctx = Inr (n, v)"
proof -
  have cert: "run_tasks (certify_one mini_certify skip) xs v = Inr (xs, (id ^^ length xs) v)" for xs v
    by (rule run_tasks_Inr) (simp add: certify_one_def mini_certify_def await_unwrap_def unwrap_ok_def)
  have exec: "run_tasks (\<lambda>tx. execute_certificate mini_authority tx Baseline) xs v = Inr (xs, (Suc ^^ length xs) v)" for xs v
    by (rule run_tasks_Inr) (simp add: execute_certificate_def mini_authority_def await_unwrap_def unwrap_ok_def assert_that_def)
  show ?thesis
    by (simp add: run_component_def certify_transactions_def spawn_all_def cert exec benchmark_transaction_execution_def
        take_sample_def execute_all_def assigned_shared_object_versions_def) (simp add: mini_authority_def unwrap_ok_def)
qed

lemma mini_keys_inj: "inj_on (fst \<circ> (\<lambda>i. (i, ()))) A"
  by (simp add: inj_on_def)

lemma mini_run:
  "\<exists>n v. run_benchmark mini_authority mini_tx_ops S E mini_certify mini_effects D K W mini_orders byte_types
     (\<lambda>i. (i, ())) (9 :: nat, ()) rev order' open_csv dg d (plain_workload 3) Baseline csize False skip [] [] = Inr (n, v)"
proof -
  from new_context_ok [OF byte_types_contract permutes_rev mini_keys_inj, of "plain_workload 3" False mini_authority "(9, ())" order'
      open_csv Baseline] obtain ctx where
    ctx: "BenchmarkContext_new mini_authority byte_types (\<lambda>i. (i, ())) (9 :: nat, ()) rev order' open_csv (plain_workload 3)
      Baseline False [] = Inr ctx"
    and gas: "\<forall>(addr, acc) \<in> set (user_accounts ctx). length (gas_objects acc) = objects_for (plain_workload 3)"
      "length (gas_objects (admin_account ctx)) = objects_for (plain_workload 3)"
    by (auto simp: accounts_for_def objects_for_def plain_workload_def plain_options_def)
  from gas(2) objects_for_pos have "gas_objects (admin_account ctx) \<noteq> []" by (metis length_greater_0_conv)
  from mini_prepared [OF this, of D d 3] obtain ctx' where
    gen: "create_tx_generator mini_authority mini_tx_ops mini_effects D mini_orders d (plain_workload 3) ctx =
      Inr (MoveGenerator plain_move, ctx')" and same: "user_accounts ctx' = user_accounts ctx" by blast
  have "\<forall>(addr, acc) \<in> set (user_accounts ctx'). gas_objects acc \<noteq> []"
    using gas(1) objects_for_pos [of "plain_workload 3"] by (auto simp: same)
  from mini_transactions [OF this, of "tx_compl mini_orders" "random_values mini_orders"] obtain txs where
    "generate_transactions (MoveTx_generate_tx mini_tx_ops plain_move) 0 (tx_compl mini_orders) (random_values mini_orders) ctx' = Inr txs"
    by blast
  with ctx gen mini_component show ?thesis
    by (simp add: run_benchmark_def generate_with_def shared_num_of_def plain_move_def shared_obj_num_def)
qed

section \<open>Lands\<close>

lemma land_loop_distinct:
  "land_loop A F ep results i lands new_gas v = Inr (lands', new_gas', v') \<Longrightarrow> distinct (map fst lands) \<Longrightarrow>
   distinct (map fst lands')"
  by (induction results arbitrary: i lands new_gas v) (auto simp: Let_def distinct_update split: prod.splits)

lemma length_of_keys:
  assumes "distinct (map fst lands)" and "\<forall>k :: u16. map_of lands k \<noteq> None \<longleftrightarrow> unat k < m" and "m < 65536"
  shows "length lands = m"
proof -
  have keys: "fst ` set lands = (word_of_nat :: nat \<Rightarrow> u16) ` {..<m}"
  proof (rule set_eqI)
    fix k :: u16
    have "k \<in> fst ` set lands \<longleftrightarrow> unat k < m" using assms(2) by (simp add: map_of_eq_None_iff)
    also have "\<dots> \<longleftrightarrow> k \<in> word_of_nat ` {..<m}"
      using assms(3) by (auto simp: unat_of_nat intro!: image_eqI [of k word_of_nat "unat k"])
    finally show "k \<in> fst ` set lands \<longleftrightarrow> k \<in> word_of_nat ` {..<m}" .
  qed
  have "inj_on (word_of_nat :: nat \<Rightarrow> u16) {..<m}"
    using assms(3) by (auto simp: inj_on_def word_unat_eq_iff unat_of_nat)
  then have "card (fst ` set lands) = m" unfolding keys by (simp add: card_image)
  with assms(1) show ?thesis using distinct_card [of "map fst lands"] by simp
qed

lemma mapM_take_length: "mapM f (enumerate 0 (take n xs)) = Inr ys \<Longrightarrow> length ys = min n (length xs)"
  using mapM_length by fastforce

lemma lands_cover:
  assumes sched: "permutes sched" "permutes compl"
    and run: "prepare_land_objects A P F sched compl rngs package n ctx = Inr (lands, ctx')"
  shows "min n (length (user_accounts ctx)) < 65536 \<and> distinct (map fst lands) \<and>
    (\<forall>k. map_of lands k \<noteq> None \<longleftrightarrow> unat k < min n (length (user_accounts ctx)))"
proof (cases "n = 0")
  case False
  with run obtain txs results v new_gas v' where
    gen: "mapM (\<lambda>(i, addr, account). LandObjectCreate_generate_tx P package account (sender account) [] [] (rngs i))
                    (enumerate 0 (take n (user_accounts ctx))) = Inr txs"
    and exec: "execute_raw_transactions A sched compl txs (authority (validator ctx)) = Inr (results, v)"
    and loop: "land_loop A F (current_epoch F v) results 0 [] [] v = Inr (lands, new_gas, v')"
    by (auto simp: prepare_land_objects_def)
  have len: "length results = min n (length (user_accounts ctx))"
    using spawn_all_length [OF sched exec [unfolded execute_raw_transactions_def]] mapM_take_length [OF gen] by simp
  show ?thesis
    using land_loop_keys [OF loop] land_loop_distinct [OF loop] by (simp add: len)
qed (use run in \<open>simp add: prepare_land_objects_def\<close>)

lemma land_served:
  assumes "min n m < 65536" "distinct (map fst lands)" "\<forall>k. map_of lands k \<noteq> None \<longleftrightarrow> unat k < min n m" "lands \<noteq> []"
  shows "\<exists>k land. land_index (length lands) x y = Inr k \<and> map_of lands k = Some land"
proof -
  have len: "length lands = min n m" by (rule length_of_keys [OF assms(2,3,1)])
  have pos: "0 < length lands" using assms(4) by simp
  have small: "length lands < 65536" using assms(1) by (simp only: len)
  let ?k = "(unat x * 65536 + unat y) mod length lands"
  have k: "?k < length lands" by (rule mod_less_divisor [OF pos])
  then have "unat (word_of_nat ?k :: u16) = ?k" using small by (simp add: unat_of_nat)
  then have "map_of lands (word_of_nat ?k) \<noteq> None" using assms(3) k len by simp
  moreover have "land_index (length lands) x y = Inr (word_of_nat ?k)" by (rule land_index_ok [OF pos small])
  ultimately show ?thesis by blast
qed

section \<open>Runs that cannot succeed\<close>

lemma isl_if: "(\<And>r. x = Inr r \<Longrightarrow> False) \<Longrightarrow> isl x"
  by (cases x) auto

lemma certificates_unreachable:
  assumes "permutes sched" and "transactions \<noteq> []" and "\<not> certificate_component component"
  shows "execute_all A component sched compl transactions v = Inl Unreachable"
proof -
  have "sched transactions \<noteq> []" using assms(1,2) permutes_length [of sched transactions] by auto
  from run_tasks_panic [OF this, of "\<lambda>tx. execute_certificate A tx component" Unreachable] show ?thesis
    using assms(3) by (simp add: execute_all_def spawn_all_def execute_certificate_unreachable)
qed

lemma kitty_test_panics:
  assumes R: "orders_ok R"
    and ctx: "BenchmarkContext_new A T keys admin_key order order' open_csv w component b path = Inr ctx0"
      "user_accounts ctx0 \<noteq> []" "benchmark_component ctx0 = component"
    and c: "component \<noteq> TxnSigning" "\<not> certificate_component component"
  shows "isl (run_kitty_test A P C F D R T keys admin_key order order' open_csv d w component b skip path)"
proof (rule isl_if)
  fix r assume "run_kitty_test A P C F D R T keys admin_key order order' open_csv d w component b skip path = Inr r"
  with ctx c obtain gen ctx1 txs certs v1 v2 results v3 where
    gen: "create_tx_generator A P F D R d w ctx0 = Inr (gen, ctx1)"
    and txs: "generate_kitty_provide_gene_transactions (generate_with P gen) (tx_compl R) (random_values R) ctx1 = Inr txs"
    and certs: "certify_transactions C (tx_order R) (cert_compl R) txs skip v1 = Inr (certs, v2)"
    and exec: "execute_all A (benchmark_component ctx1) (cert_order R) (eff_compl R) certs v3 = Inr results"
    by (auto simp: run_kitty_test_def certify_and_assign_def)
  from create_tx_generator_keeps [OF gen] ctx have k: "user_accounts ctx1 \<noteq> []" "benchmark_component ctx1 = component"
    by (auto simp: keeps_def)
  have "length txs = length (user_accounts ctx1)" using R txs by (auto simp: orders_ok_def intro: provide_gene_length)
  moreover have "length certs = length txs" using R certs by (auto simp: orders_ok_def intro: certify_length)
  ultimately have "certs \<noteq> []" using k(1) by auto
  with certificates_unreachable [of "cert_order R" certs component A "eff_compl R" v3] R c(2) exec k(2) show False
    by (simp add: orders_ok_def)
qed

lemma checkpoint_executor_panics:
  assumes K: "checkpoint_contract K pending contents" and "length transactions \<le> 1" and "permutes sched" "permutes compl"
  shows "isl (benchmark_checkpoint_executor A S E C F K W dg sched compl transactions csize v)"
proof -
  have none: "build_checkpoints K dg [] eff csize = Inr []" for eff
    using K by (simp add: build_checkpoints_def checkpoint_contract_def)
  show ?thesis
  proof (rule isl_if)
    fix r assume "benchmark_checkpoint_executor A S E C F K W dg sched compl transactions csize v = Inr r"
    with assms(2) show False
      by (auto simp: benchmark_checkpoint_executor_def remove_first_eq none unwrap_def)
  qed
qed

lemma checkpoint_run_panics:
  assumes R: "orders_ok R" and K: "checkpoint_contract K pending contents"
    and ctx: "BenchmarkContext_new A T keys admin_key order order' open_csv w CheckpointExecutor b path = Inr ctx0"
      "length (user_accounts ctx0) \<le> 1"
  shows "isl (run_benchmark A P S E C F D K W R T keys admin_key order order' open_csv dg d w CheckpointExecutor csize b skip [] path)"
proof (rule isl_if)
  fix r assume "run_benchmark A P S E C F D K W R T keys admin_key order order' open_csv dg d w CheckpointExecutor csize b skip [] path = Inr r"
  with ctx obtain gen ctx1 txs certs v1 v2 v3 where
    gen: "create_tx_generator A P F D R d w ctx0 = Inr (gen, ctx1)"
    and txs: "generate_transactions (generate_with P gen) (shared_num_of gen) (tx_compl R) (random_values R) ctx1 = Inr txs"
    and certs: "certify_transactions C (tx_order R) (cert_compl R) txs skip v1 = Inr (certs, v2)"
    and run: "benchmark_checkpoint_executor A S E C F K W dg (cert_order R) (eff_compl R) certs csize v3 = Inr r"
    by (auto simp: run_benchmark_def run_component_def Let_def)
  from create_tx_generator_keeps [OF gen] have k: "length (user_accounts ctx1) = length (user_accounts ctx0)"
    by (simp add: keeps_def)
  have "length txs = length (user_accounts ctx1)" using R txs by (auto simp: orders_ok_def intro: generate_transactions_length)
  moreover have "length certs = length txs" using R certs by (auto simp: orders_ok_def intro: certify_length)
  ultimately have "length certs \<le> 1" using k ctx(2) by simp
  then have "isl (benchmark_checkpoint_executor A S E C F K W dg (cert_order R) (eff_compl R) certs csize v3)"
    by (rule checkpoint_executor_panics [OF K]) (use R in \<open>simp_all add: orders_ok_def\<close>)
  with run show False by simp
qed

lemma mini_full:
  "\<exists>gen ctx'. create_tx_generator mini_authority mini_tx_ops mini_effects D mini_orders d full_workload mini_context = Inr (gen, ctx')"
  by (simp add: create_tx_generator_def full_workload_def plain_options_def ctx_publish_package_def Let_def mini_orders_def
      index_at_def publish_package_def execute_raw_transaction_def mini_authority_def mini_tx_ops_def await_unwrap_def unwrap_ok_def
      unwrap_def assert_that_def preparing_dynamic_fields_def prepare_shared_objects_def prepare_kitty_objects_def prepare_land_objects_def
      mini_context_def mini_effects_def generate_transactions_def execute_raw_transactions_def spawn_all_def with_authority_def
      RootObjectCreate_generate_tx_def SharedObjectCreate_generate_tx_def KittyObjectCreate_generate_tx_def LandObjectCreate_generate_tx_def
      first_owned_def first_shared_def refresh_gas_objects_def mini_id_def add_c_def List.map_filter_def)

lemma mini_lands:
  "\<exists>lands ctx'. prepare_land_objects mini_authority mini_tx_ops mini_effects rev rev (random_values mini_orders) mini_id 7 mini_context =
     Inr (lands, ctx')"
  by (simp add: prepare_land_objects_def mini_context_def mini_orders_def LandObjectCreate_generate_tx_def index_at_def mini_tx_ops_def
      execute_raw_transactions_def spawn_all_def execute_raw_transaction_def mini_authority_def await_unwrap_def unwrap_ok_def assert_that_def
      mini_effects_def first_shared_def unwrap_def List.map_filter_def add_c_def Let_def)

lemma mini_transfers:
  "\<exists>reqs. erc20_requests mini_context [] [[''7'', ''7''], [''7'', ''7'']] = Inr reqs \<and>
     concat (map used_ids reqs) = [[1], [3], [2], [4]]"
proof -
  have parse: "parse_u64 ''7'' = Some 7" by (simp add: parse_uint_def is_digit_def digit_val_def)
  show ?thesis
    by (simp add: parse index_at_def unwrap_def mini_context_def Let_def entry_or_zero_def used_ids_def get_arg_def)
qed

text \<open>A checkpoint builder that collects pairs.\<close>

definition list_builder_ops :: "((mini_tx \<times> mini_tx) list, mini_tx, mini_tx, unit, (mini_tx \<times> mini_tx) list) CheckpointBuilder" where
  "list_builder_ops =
     \<lparr> builder_new = [], push_transaction = \<lambda>tx eff b. b @ [(tx, eff)], builder_size = length,
       builder_build = \<lambda>b. (((), b), []) \<rparr>"

lemma list_builder_ops_contract: "checkpoint_contract list_builder_ops id id"
  by (simp add: checkpoint_contract_def list_builder_ops_def)

section \<open>Properties\<close>

text \<open>
  \<open>BenchmarkContext::new\<close> without an account file: as long as the IDs of the gas objects
  fit in 64 bits it succeeds with one account per transaction, one more for the sample and one
  for the administrator, each with the gas objects the workload needs; the accounts are filed
  under their own addresses, and no gas object belongs to two accounts.
\<close>

theorem BenchmarkContext_new_spec:
  assumes "sui_types_contract T" and "permutes order"
    and "inj_on (fst \<circ> keys) {..<accounts_for w b}" and "accounts_for w b * objects_for w < 2 ^ 64"
  shows "\<exists>ctx. BenchmarkContext_new A T keys admin_key order order' open_csv w component b [] = Inr ctx \<and>
    length (user_accounts ctx) = unat (tx_count w) + (if b then 1 else 0) \<and> benchmark_component ctx = component \<and>
    ctx_wf ctx \<and> (\<forall>(addr, acc) \<in> set (user_accounts ctx). length (gas_objects acc) = objects_for w) \<and>
    length (gas_objects (admin_account ctx)) = objects_for w \<and>
    set (map fst (gas_objects (admin_account ctx))) \<inter> set (all_gas_ids ctx) = {}"
  using assms by (rule new_context_ok)

theorem BenchmarkContext_new_spec_witness:
  "\<exists>ctx. BenchmarkContext_new mini_authority byte_types (\<lambda>i. (i, ())) (9, ()) rev id no_csv (plain_workload 3) Baseline True [] =
      Inr ctx \<and> length (user_accounts ctx) = 4"
  using BenchmarkContext_new_spec [OF byte_types_contract permutes_rev mini_keys_inj, of "plain_workload 3" True
      mini_authority "(9, ())" id no_csv Baseline]
  by (auto simp: accounts_for_def objects_for_def plain_workload_def plain_options_def)

text \<open>
  C28. The number of transactions in the measured section of a run without input files: the
  requested number, but one less for the checkpoint executor without a printed sample, since that
  component always sets its first transaction aside, and one more for transaction signing with a
  printed sample, since that component prints the sample without setting it aside.
\<close>

theorem run_benchmark_measures:
  assumes "sui_types_contract T" and "permutes order" and "orders_ok R"
    and "inj_on (fst \<circ> keys) {..<accounts_for w b}" and "accounts_for w b * objects_for w < 2 ^ 64"
    and "run_benchmark A P S E C F D K W R T keys admin_key order order' open_csv dg d w component csize b skip [] [] =
      Inr (n, v)"
  shows "n + (if component = CheckpointExecutor \<and> \<not> b then 1 else 0) =
    unat (tx_count w) + (if component = TxnSigning \<and> b then 1 else 0)"
proof -
  from new_context_ok [OF assms(1,2,4,5), of A admin_key order' open_csv component] obtain ctx0 where
    new: "BenchmarkContext_new A T keys admin_key order order' open_csv w component b [] = Inr ctx0"
    and len: "length (user_accounts ctx0) = unat (tx_count w) + (if b then 1 else 0)" by blast
  from assms(6) new obtain gen ctx txs where
    gen: "create_tx_generator A P F D R d w ctx0 = Inr (gen, ctx)"
    and txs: "generate_transactions (generate_with P gen) (shared_num_of gen) (tx_compl R) (random_values R) ctx = Inr txs"
    and run: "run_component A P S E C F K W R dg gen component csize b skip txs ctx = Inr (n, v)"
    by (auto simp: run_benchmark_def)
  from create_tx_generator_keeps [OF gen] have "length (user_accounts ctx) = length (user_accounts ctx0)"
    by (simp add: keeps_def)
  moreover from txs assms(3) have "length txs = length (user_accounts ctx)"
    by (auto simp: orders_ok_def intro: generate_transactions_length)
  ultimately show ?thesis
    using run_component_measures [OF assms(3) run] len by (auto simp: set_aside_def split: if_splits)
qed

theorem run_benchmark_measures_witness:
  "\<forall>S E D K W dg d. \<exists>v. run_benchmark mini_authority mini_tx_ops S E mini_certify mini_effects D K W mini_orders byte_types
     (\<lambda>i. (i, ())) (9, ()) rev id no_csv dg d (plain_workload 3) Baseline 1 False False [] [] = Inr (3, v)"
proof (intro allI, goal_cases)
  case (1 S E D K W dg d)
  obtain n v where run: "run_benchmark mini_authority mini_tx_ops S E mini_certify mini_effects D K W mini_orders byte_types
     (\<lambda>i. (i, ())) (9, ()) rev id no_csv dg d (plain_workload 3) Baseline 1 False False [] [] = Inr (n, v)"
    using mini_run by blast
  have "accounts_for (plain_workload 3) False * objects_for (plain_workload 3) < 2 ^ 64"
    by (simp add: accounts_for_def objects_for_def plain_workload_def plain_options_def)
  from run_benchmark_measures [OF byte_types_contract permutes_rev mini_orders_ok mini_keys_inj this run] have "n = 3"
    by (simp add: plain_workload_def)
  with run show ?case by blast
qed

text \<open>
  C29. Preparing a workload, whichever objects it creates, keeps the context well-formed and
  changes no account but for the versions of its gas objects: the accounts, their keys and the
  IDs of their gas objects, in order, are as before.
\<close>

theorem create_tx_generator_wf:
  assumes "ctx_wf ctx" and "create_tx_generator A P F D R d w ctx = Inr (gen, ctx')"
  shows "ctx_wf ctx' \<and> same_accounts ctx ctx' \<and> benchmark_component ctx' = benchmark_component ctx"
  using create_tx_generator_same [OF assms(2,1)] create_tx_generator_keeps [OF assms(2)] same_accounts_wf assms(1)
  by (auto simp: keeps_def)

theorem create_tx_generator_wf_witness:
  "\<forall>D d. \<exists>gen ctx'. create_tx_generator mini_authority mini_tx_ops mini_effects D mini_orders d full_workload mini_context =
     Inr (gen, ctx') \<and> all_gas_ids ctx' = [[1], [2], [3], [4]]"
proof (intro allI, goal_cases)
  case (1 D d)
  obtain gen ctx' where run: "create_tx_generator mini_authority mini_tx_ops mini_effects D mini_orders d full_workload mini_context =
     Inr (gen, ctx')" using mini_full by blast
  from create_tx_generator_wf [OF mini_context_wf this] have "all_gas_ids ctx' = all_gas_ids mini_context"
    by (simp add: same_accounts_ids)
  with run show ?case by (simp add: all_gas_ids_def mini_context_def)
qed

text \<open>
  The lands of a workload, once prepared, are numbered without gaps from zero, and there are
  fewer than 65536, so that every pixel has a land: looking up the index that the transaction
  generator computes for it finds one.
\<close>

theorem prepare_land_objects_cover:
  assumes "permutes sched" and "permutes compl"
    and "prepare_land_objects A P F sched compl rngs package n ctx = Inr (lands, ctx')"
    and "0 < n" and "user_accounts ctx \<noteq> []"
  shows "length lands = min n (length (user_accounts ctx)) \<and> length lands < 65536 \<and>
    (\<forall>x y. \<exists>k land. land_index (length lands) x y = Inr k \<and> map_of lands k = Some land)"
proof -
  note cover = lands_cover [OF assms(1-3)]
  have len: "length lands = min n (length (user_accounts ctx))" using cover length_of_keys by blast
  have "0 < length lands" using assms(4,5) unfolding len by simp
  then have "lands \<noteq> []" by simp
  with cover land_served have "\<exists>k land. land_index (length lands) x y = Inr k \<and> map_of lands k = Some land" for x y
    by blast
  with cover len show ?thesis by simp
qed

theorem prepare_land_objects_cover_witness:
  "\<exists>lands ctx'. prepare_land_objects mini_authority mini_tx_ops mini_effects rev rev (random_values mini_orders) mini_id 7 mini_context =
     Inr (lands, ctx') \<and> length lands = 1"
proof -
  obtain lands ctx' where run: "prepare_land_objects mini_authority mini_tx_ops mini_effects rev rev (random_values mini_orders)
      mini_id 7 mini_context = Inr (lands, ctx')" using mini_lands by blast
  from prepare_land_objects_cover [OF permutes_rev permutes_rev run] run show ?thesis by (auto simp: mini_context_def)
qed

text \<open>
  Transfers read from a file never touch the same object twice: if every sender index leads
  to its own account and every account has two gas objects per transfer it sends, the gas object
  and the coin of every transfer exist, and no object is the gas object or the coin of two.
\<close>

theorem erc20_objects_disjoint:
  assumes "ctx_wf ctx" and "inj_on (map_of (account_indexes ctx)) (dom (map_of (account_indexes ctx)))"
    and "enough_objects ctx records" and "erc20_requests ctx [] records = Inr reqs"
  shows "(\<forall>req \<in> set reqs. in_range req) \<and> distinct (concat (map used_ids reqs))"
  using assms by (rule erc20_objects)

theorem erc20_objects_disjoint_witness:
  "\<exists>reqs. erc20_requests mini_context [] [[''7'', ''7''], [''7'', ''7'']] = Inr reqs \<and>
     concat (map used_ids reqs) = [[1], [3], [2], [4]] \<and> distinct (concat (map used_ids reqs))"
proof -
  obtain reqs where run: "erc20_requests mini_context [] [[''7'', ''7''], [''7'', ''7'']] = Inr reqs"
    and ids: "concat (map used_ids reqs) = [[1], [3], [2], [4]]" using mini_transfers by blast
  have "enough_objects mini_context [[''7'', ''7''], [''7'', ''7'']]"
    by (auto simp: enough_objects_def account_for_def mini_context_def split: if_splits)
  moreover have "inj_on (map_of (account_indexes mini_context)) (dom (map_of (account_indexes mini_context)))"
    by (auto simp: mini_context_def inj_on_def split: if_splits)
  ultimately show ?thesis using erc20_objects_disjoint [OF mini_context_wf _ _ run] run ids by blast
qed

text \<open>
  C30. The kitty test cannot run with the components \<open>CheckpointExecutor\<close> and \<open>ExecutionOnly\<close>:
  without an account file and with at least one transaction, or the sample transaction, it panics,
  whatever the node does.
\<close>

theorem kitty_test_components:
  assumes "sui_types_contract T" and "permutes order" and "orders_ok R"
    and "inj_on (fst \<circ> keys) {..<accounts_for w b}" and "accounts_for w b * objects_for w < 2 ^ 64"
    and "0 < unat (tx_count w) \<or> b" and "component = CheckpointExecutor \<or> component = ExecutionOnly"
  shows "isl (run_kitty_test A P C F D R T keys admin_key order order' open_csv d w component b skip [])"
proof -
  from new_context_ok [OF assms(1,2,4,5), of A admin_key order' open_csv component] obtain ctx0 where
    new: "BenchmarkContext_new A T keys admin_key order order' open_csv w component b [] = Inr ctx0"
    and len: "length (user_accounts ctx0) = unat (tx_count w) + (if b then 1 else 0)"
    and comp: "benchmark_component ctx0 = component" by blast
  from len assms(6) have ne: "user_accounts ctx0 \<noteq> []" by auto
  show ?thesis
    by (rule kitty_test_panics [OF assms(3) new ne comp]) (use assms(7) in \<open>auto simp: certificate_component_def\<close>)
qed

theorem kitty_test_components_witness:
  "\<forall>D d. isl (run_kitty_test mini_authority mini_tx_ops mini_certify mini_effects D mini_orders byte_types (\<lambda>i. (i, ())) (9, ())
     rev id no_csv d (plain_workload 3) ExecutionOnly False False [])"
proof (intro allI)
  fix D d
  show "isl (run_kitty_test mini_authority mini_tx_ops mini_certify mini_effects D mini_orders byte_types (\<lambda>i. (i, ())) (9, ())
     rev id no_csv d (plain_workload 3) ExecutionOnly False False [])"
    by (rule kitty_test_components [OF byte_types_contract permutes_rev mini_orders_ok mini_keys_inj])
      (simp_all add: accounts_for_def objects_for_def plain_workload_def plain_options_def)
qed

text \<open>
  The checkpoint executor cannot run on a single transaction: it sets the first one aside,
  builds no checkpoint from the rest, and panics when it looks for the last checkpoint.
\<close>

theorem checkpoint_run_needs_two:
  assumes "sui_types_contract T" and "permutes order" and "orders_ok R"
    and "inj_on (fst \<circ> keys) {..<accounts_for w b}" and "accounts_for w b * objects_for w < 2 ^ 64"
    and "checkpoint_contract K pending contents" and "unat (tx_count w) + (if b then 1 else 0) \<le> 1"
  shows "isl (run_benchmark A P S E C F D K W R T keys admin_key order order' open_csv dg d w CheckpointExecutor csize b skip [] [])"
proof -
  from new_context_ok [OF assms(1,2,4,5), of A admin_key order' open_csv CheckpointExecutor] obtain ctx0 where
    new: "BenchmarkContext_new A T keys admin_key order order' open_csv w CheckpointExecutor b [] = Inr ctx0"
    and len: "length (user_accounts ctx0) = unat (tx_count w) + (if b then 1 else 0)" by blast
  from assms(7) have "length (user_accounts ctx0) \<le> 1" by (simp only: len)
  with new show ?thesis by (rule checkpoint_run_panics [OF assms(3,6)])
qed

theorem checkpoint_run_needs_two_witness:
  "\<forall>S E D W dg d. isl (run_benchmark mini_authority mini_tx_ops S E mini_certify mini_effects D list_builder_ops W mini_orders byte_types
     (\<lambda>i. (i, ())) (9, ()) rev id no_csv dg d (plain_workload 1) CheckpointExecutor 1 False False [] [])"
proof (intro allI, goal_cases)
  case (1 S E D W dg d)
  show ?case
    by (rule checkpoint_run_needs_two [OF byte_types_contract permutes_rev mini_orders_ok mini_keys_inj _ list_builder_ops_contract])
      (simp_all add: accounts_for_def objects_for_def plain_workload_def plain_options_def)
qed

end
