(* ===== verification/Sui_Memory.thy ===== *)
theory Sui_Memory
  imports Sui_Results
begin

text \<open>
  The in-memory execution of \<^verbatim>\<open>benchmark_context.rs\<close>: without shared objects the transactions
  run as concurrent tasks on one store, and the order of the tasks makes no difference when no
  transaction writes what another reads or writes.
\<close>

section \<open>The execution engine\<close>

definition kind_id where
  "kind_id kind = (case kind of MovePackage i \<Rightarrow> i | ImmOrOwnedMoveObject (i, _, _) \<Rightarrow> i | SharedMoveObject i _ _ \<Rightarrow> i)"

definition agree where
  "agree X m m' \<longleftrightarrow> (\<forall>i. i \<in> X \<longrightarrow> m i = m' i)"

text \<open>
  The engine loads packages through the cache of the store it is given, so what is asked of it
  concerns the stores it is called on: the cache agrees with the objects, and the checked input
  was read from the objects of the store.
\<close>

definition engine_ready where
  "engine_ready S E package_of cached c ci s \<longleftrightarrow> cache_agrees package_of cached s \<and>
     (\<exists>kinds ios. cert_input_objects E c = Inr kinds \<and>
        mapM (lookup_spec S package_of [] (objects s)) kinds = Inr ios \<and> check_certificate_input E c ios = Inr ci)"

text \<open>
  What the code relies on: a certificate without shared objects has no shared input, and its
  read set contains its inputs. On such a store the outputs of the execution engine depend on the
  objects in the certificate's read set only; the engine changes no object of the store and leaves
  its cache in agreement; what it outputs is in the certificate's write set, and no stored package
  is among it, packages being immutable.
\<close>

definition engine_contract where
  "engine_contract A S E package_of cached reads writes \<longleftrightarrow>
     (\<forall>c kinds. cert_input_objects E c = Inr kinds \<longrightarrow> \<not> contains_shared_object A c \<longrightarrow>
        kind_id ` set kinds \<subseteq> reads c \<and> (\<forall>k. k \<in> set kinds \<longrightarrow> shared_id k = None)) \<and>
     (\<forall>c ci s s'. \<not> contains_shared_object A c \<longrightarrow> engine_ready S E package_of cached c ci s \<longrightarrow>
        engine_ready S E package_of cached c ci s' \<longrightarrow> agree (reads c) (objects s) (objects s') \<longrightarrow>
        fst (execute_transaction_to_effects E s ci c) = fst (execute_transaction_to_effects E s' ci c)) \<and>
     (\<forall>c ci s mi wr eff s'. \<not> contains_shared_object A c \<longrightarrow> engine_ready S E package_of cached c ci s \<longrightarrow>
        execute_transaction_to_effects E s ci c = ((mi, wr, eff), s') \<longrightarrow>
        objects s' = objects s \<and> cache_agrees package_of cached s' \<and>
        distinct (map fst wr) \<and> fst ` set mi \<union> fst ` set wr \<subseteq> writes c \<and>
        (\<forall>pid pkg. package_at package_of (objects s) pid = Inr (Some pkg) \<longrightarrow> pid \<notin> fst ` set mi \<union> fst ` set wr))"

lemma engine_contractD:
  assumes "engine_contract A S E package_of cached reads writes" and own: "\<not> contains_shared_object A c"
  shows "cert_input_objects E c = Inr kinds \<Longrightarrow> kind_id ` set kinds \<subseteq> reads c"
    and "cert_input_objects E c = Inr kinds \<Longrightarrow> \<forall>k \<in> set kinds. shared_id k = None"
    and "engine_ready S E package_of cached c ci s \<Longrightarrow> engine_ready S E package_of cached c ci s' \<Longrightarrow>
      agree (reads c) (objects s) (objects s') \<Longrightarrow> execute_transaction_to_effects E s ci c = (out, s1) \<Longrightarrow>
      \<exists>s1'. execute_transaction_to_effects E s' ci c = (out, s1')"
    and "engine_ready S E package_of cached c ci s \<Longrightarrow> execute_transaction_to_effects E s ci c = ((mi, wr, eff), s1) \<Longrightarrow>
      objects s1 = objects s \<and> cache_agrees package_of cached s1 \<and>
      distinct (map fst wr) \<and> fst ` set mi \<union> fst ` set wr \<subseteq> writes c \<and>
      (\<forall>pid pkg. package_at package_of (objects s) pid = Inr (Some pkg) \<longrightarrow> pid \<notin> fst ` set mi \<union> fst ` set wr)"
proof -
  note E = assms(1) [unfolded engine_contract_def]
  note inputs = E [THEN conjunct1, rule_format, OF _ own]
    and outputs = E [THEN conjunct2, THEN conjunct1, rule_format, OF own]
    and written = E [THEN conjunct2, THEN conjunct2, rule_format, OF own]
  show "cert_input_objects E c = Inr kinds \<Longrightarrow> kind_id ` set kinds \<subseteq> reads c"
    and "cert_input_objects E c = Inr kinds \<Longrightarrow> \<forall>k \<in> set kinds. shared_id k = None" using inputs by blast+
  show "\<exists>s1'. execute_transaction_to_effects E s' ci c = (out, s1')"
    if "engine_ready S E package_of cached c ci s" "engine_ready S E package_of cached c ci s'"
      "agree (reads c) (objects s) (objects s')" "execute_transaction_to_effects E s ci c = (out, s1)"
    using outputs [OF that(1-3)] that(4)
    by (intro exI [of _ "snd (execute_transaction_to_effects E s' ci c)"]) (simp add: prod_eq_iff)
  show "objects s1 = objects s \<and> cache_agrees package_of cached s1 \<and>
      distinct (map fst wr) \<and> fst ` set mi \<union> fst ` set wr \<subseteq> writes c \<and>
      (\<forall>pid pkg. package_at package_of (objects s) pid = Inr (Some pkg) \<longrightarrow> pid \<notin> fst ` set mi \<union> fst ` set wr)"
    if "engine_ready S E package_of cached c ci s" "execute_transaction_to_effects E s ci c = ((mi, wr, eff), s1)"
    by (rule written [OF that])
qed

section \<open>One execution\<close>

text \<open>Without shared inputs the locks are not consulted.\<close>

lemma read_inputs_owned:
  "\<forall>k \<in> set kinds. shared_id k = None \<Longrightarrow>
   read_inputs P locks key kinds cell acc s = read_inputs P locks' key kinds cell acc s"
proof (induction kinds arbitrary: cell acc s)
  case (Cons k kinds)
  then have "read_input P locks key k cell s = read_input P locks' key k cell s" for cell s
    by (cases k) (simp_all add: read_input_def)
  with Cons show ?case by (auto split: sum.split option.split prod.split intro!: arg_cong2 [of _ _ _ _ rbind])
qed simp

lemma lookup_local:
  assumes "m (kind_id k) = m' (kind_id k)" and "shared_id k = None"
  shows "lookup_spec P package_of locks m k = lookup_spec P package_of locks m' k"
  using assms by (cases k) (auto simp: lookup_spec_def kind_id_def object_at_def split: prod.splits)

lemma read_owned:
  assumes C: "cache_contract S package_of cached" and A: "cache_agrees package_of cached s"
    and "\<forall>k \<in> set kinds. shared_id k = None"
  shows "\<exists>s'. read_objects_for_execution S locks key kinds s =
      Inr (mapM (lookup_spec S package_of [] (objects s)) kinds, s') \<and>
    objects s' = objects s \<and> cache_agrees package_of cached s'"
proof -
  have "\<exists>s'. read_inputs S (\<lambda>_. Inr []) key kinds None [] s =
      Inr (rbind (mapM (lookup_spec S package_of [] (objects s)) kinds) (\<lambda>ios. Inr ([] @ ios)), s') \<and>
      objects s' = objects s \<and> cache_agrees package_of cached s'"
    by (rule read_inputs_spec [OF C _ A]) (use assms(3) in auto)
  then show ?thesis
    unfolding read_objects_for_execution_def
    using read_inputs_owned [OF assms(3), of S locks key None "[]" s "\<lambda>_. Inr []"] by simp
qed

lemma execute_in_memory_iff:
  "execute_transaction_in_memory A S E v c s = Inr (eff, s1) \<longleftrightarrow>
   (\<exists>kinds ios s2 ci mi wr s3. cert_input_objects E c = Inr kinds \<and>
      read_objects_for_execution S (shared_locks E v) (cert_key E c) kinds s = Inr (Inr ios, s2) \<and>
      check_certificate_input E c ios = Inr ci \<and> execute_transaction_to_effects E s2 ci c = ((mi, wr, eff), s3) \<and>
      status_is_ok A eff \<and> s1 = commit_objects mi wr s3)"
  (is "?run \<longleftrightarrow> ?steps")
proof
  assume ?run
  then show ?steps
    by (auto simp: execute_transaction_in_memory_def Let_def split: prod.splits) (metis surj_pair)
next
  assume ?steps
  then show ?run by (auto simp: execute_transaction_in_memory_def)
qed

text \<open>The store the engine is called on after the inputs were read.\<close>

lemma engine_ready_after_read:
  assumes C: "cache_contract S package_of cached" and A: "cache_agrees package_of cached s"
    and kinds: "cert_input_objects E c = Inr kinds" and own: "\<forall>k \<in> set kinds. shared_id k = None"
    and ios: "mapM (lookup_spec S package_of [] (objects s)) kinds = Inr ios"
    and ci: "check_certificate_input E c ios = Inr ci"
  shows "\<exists>s2. read_objects_for_execution S locks key kinds s = Inr (Inr ios, s2) \<and> objects s2 = objects s \<and>
    engine_ready S E package_of cached c ci s2"
proof -
  from read_owned [OF C A own, of locks key] ios obtain s2 where
    "read_objects_for_execution S locks key kinds s = Inr (Inr ios, s2)" "objects s2 = objects s"
    "cache_agrees package_of cached s2" by auto
  then show ?thesis using kinds ios ci by (auto simp: engine_ready_def)
qed

lemma execute_commit:
  assumes C: "cache_contract S package_of cached" and E: "engine_contract A S E package_of cached reads writes"
    and own: "\<not> contains_shared_object A c" and A: "cache_agrees package_of cached s"
    and run: "execute_transaction_in_memory A S E v c s = Inr (eff, s1)"
  obtains kinds ios ci mi wr s2 s3 where "cert_input_objects E c = Inr kinds"
    "mapM (lookup_spec S package_of [] (objects s)) kinds = Inr ios" "check_certificate_input E c ios = Inr ci"
    "engine_ready S E package_of cached c ci s2" "objects s2 = objects s"
    "execute_transaction_to_effects E s2 ci c = ((mi, wr, eff), s3)" "status_is_ok A eff" "s1 = commit_objects mi wr s3"
proof -
  from run obtain kinds ios s2 ci mi wr s3 where
    kinds: "cert_input_objects E c = Inr kinds"
    and read: "read_objects_for_execution S (shared_locks E v) (cert_key E c) kinds s = Inr (Inr ios, s2)"
    and ci: "check_certificate_input E c ios = Inr ci"
    and exec: "execute_transaction_to_effects E s2 ci c = ((mi, wr, eff), s3)"
    and ok: "status_is_ok A eff" "s1 = commit_objects mi wr s3"
    unfolding execute_in_memory_iff by blast
  note own' = engine_contractD(2) [OF E own kinds]
  from read_owned [OF C A own', of "shared_locks E v" "cert_key E c"] read have
    ios: "mapM (lookup_spec S package_of [] (objects s)) kinds = Inr ios" by auto
  from engine_ready_after_read [OF C A kinds own' ios ci, of "shared_locks E v" "cert_key E c"] read
  have "objects s2 = objects s" "engine_ready S E package_of cached c ci s2" by auto
  with that kinds ios ci exec ok show thesis by blast
qed

lemma commit_ready:
  assumes E: "engine_contract A S E package_of cached reads writes" and own: "\<not> contains_shared_object A c"
    and ready: "engine_ready S E package_of cached c ci s2"
    and exec: "execute_transaction_to_effects E s2 ci c = ((mi, wr, eff), s3)"
  shows "cache_agrees package_of cached (commit_objects mi wr s3)"
    and "objects (commit_objects mi wr s3) i =
      (case map_of wr i of Some obj \<Rightarrow> Some obj | None \<Rightarrow> if i \<in> fst ` set mi then None else objects s2 i)"
    and "i \<notin> writes c \<Longrightarrow> map_of wr i = None \<and> i \<notin> fst ` set mi"
proof -
  note D = engine_contractD(4) [OF E own ready exec]
  then show "cache_agrees package_of cached (commit_objects mi wr s3)"
    by (intro cache_agrees_commit) auto
  show "objects (commit_objects mi wr s3) i =
      (case map_of wr i of Some obj \<Rightarrow> Some obj | None \<Rightarrow> if i \<in> fst ` set mi then None else objects s2 i)"
    using D by (simp add: commit_objects_objects split: option.split)
  show "i \<notin> writes c \<Longrightarrow> map_of wr i = None \<and> i \<notin> fst ` set mi"
    using D by (auto simp: map_of_eq_None_iff)
qed

text \<open>The result of one execution depends on the read set and changes the write set only.\<close>

lemma execute_local:
  assumes C: "cache_contract S package_of cached" and E: "engine_contract A S E package_of cached reads writes"
    and own: "\<not> contains_shared_object A c"
    and ag: "agree (reads c) (objects s) (objects t)"
    and cs: "cache_agrees package_of cached s" and ct: "cache_agrees package_of cached t"
    and run: "execute_transaction_in_memory A S E v c s = Inr (eff, s1)"
  shows "\<exists>t1. execute_transaction_in_memory A S E v c t = Inr (eff, t1) \<and> cache_agrees package_of cached t1 \<and>
    (agree (writes c) (objects s) (objects t) \<longrightarrow> agree (writes c) (objects s1) (objects t1)) \<and>
    agree (- writes c) (objects t1) (objects t)"
proof -
  obtain kinds ios ci mi wr s2 s3 where kinds: "cert_input_objects E c = Inr kinds"
    and ios: "mapM (lookup_spec S package_of [] (objects s)) kinds = Inr ios" and ci: "check_certificate_input E c ios = Inr ci"
    and ready: "engine_ready S E package_of cached c ci s2" and s2: "objects s2 = objects s"
    and exec: "execute_transaction_to_effects E s2 ci c = ((mi, wr, eff), s3)"
    and ok: "status_is_ok A eff" and s1: "s1 = commit_objects mi wr s3"
    by (rule execute_commit [OF C E own cs run])
  note own' = engine_contractD(2) [OF E own kinds] and ids = engine_contractD(1) [OF E own kinds]
  have "mapM (lookup_spec S package_of [] (objects t)) kinds = Inr ios"
    unfolding ios [symmetric] using ag ids own' by (intro mapM_cong refl lookup_local) (auto simp: agree_def)
  from engine_ready_after_read [OF C ct kinds own' this ci, of "shared_locks E v" "cert_key E c"] obtain t2 where
    read': "read_objects_for_execution S (shared_locks E v) (cert_key E c) kinds t = Inr (Inr ios, t2)"
    and t2: "objects t2 = objects t" and ready': "engine_ready S E package_of cached c ci t2" by auto
  have "agree (reads c) (objects s2) (objects t2)" using ag by (simp add: s2 t2)
  from engine_contractD(3) [OF E own ready ready' this exec] obtain t3 where
    exec': "execute_transaction_to_effects E t2 ci c = ((mi, wr, eff), t3)" by blast
  have "execute_transaction_in_memory A S E v c t = Inr (eff, commit_objects mi wr t3)"
    unfolding execute_in_memory_iff using kinds read' ci exec' ok by blast
  then show ?thesis
    by (rule exI [of _ "commit_objects mi wr t3", OF conjI])
      (auto simp: agree_def s1 s2 t2 commit_ready(1,2) [OF E own ready' exec'] commit_ready(2) [OF E own ready exec]
        commit_ready(3) [OF E own ready exec] split: option.split)
qed

section \<open>A sequence of executions\<close>

text \<open>Independent certificates: none writes what another reads or writes.\<close>

definition independent where
  "independent reads writes txs \<longleftrightarrow> distinct txs \<and>
     (\<forall>c d. c \<in> set txs \<longrightarrow> d \<in> set txs \<longrightarrow> c \<noteq> d \<longrightarrow> writes c \<inter> (reads d \<union> writes d) = {})"

lemma independent_Cons:
  "independent reads writes (c # txs) \<Longrightarrow> independent reads writes txs \<and> c \<notin> set txs \<and>
     (\<forall>d. d \<in> set txs \<longrightarrow> writes c \<inter> (reads d \<union> writes d) = {} \<and> writes d \<inter> writes c = {})"
  by (auto simp: independent_def)

lemma agree_trans: "agree X m m' \<Longrightarrow> agree X m' m'' \<Longrightarrow> agree X m m''"
  by (simp add: agree_def)

lemma agree_sym: "agree X m m' \<Longrightarrow> agree X m' m"
  by (simp add: agree_def)

lemma agree_mono: "agree X m m' \<Longrightarrow> Y \<subseteq> X \<Longrightarrow> agree Y m m'"
  by (auto simp: agree_def)

text \<open>In any order, each execution of independent certificates is as if it ran alone.\<close>

lemma run_independent:
  assumes C: "cache_contract S package_of cached" and E: "engine_contract A S E package_of cached reads writes"
    and c0: "cache_agrees package_of cached s0"
  shows "independent reads writes txs \<Longrightarrow> cache_agrees package_of cached s \<Longrightarrow> \<forall>c \<in> set txs. \<not> contains_shared_object A c \<Longrightarrow>
    \<forall>c \<in> set txs. agree (reads c \<union> writes c) (objects s0) (objects s) \<Longrightarrow>
    \<forall>c \<in> set txs. execute_transaction_in_memory A S E v c s0 = Inr (e c, t c) \<Longrightarrow>
    \<exists>s'. run_tasks (execute_transaction_in_memory A S E v) txs s = Inr (map e txs, s') \<and>
      (\<forall>c \<in> set txs. agree (writes c) (objects (t c)) (objects s')) \<and>
      agree (- \<Union> (writes ` set txs)) (objects s') (objects s)"
proof (induction txs arbitrary: s)
  case (Cons c txs)
  note ind = independent_Cons [OF Cons.prems(1)]
  have ag: "agree (reads c) (objects s0) (objects s)" "agree (writes c) (objects s0) (objects s)"
    using Cons.prems(4) by (auto intro: agree_mono)
  have own: "\<not> contains_shared_object A c" and alone: "execute_transaction_in_memory A S E v c s0 = Inr (e c, t c)"
    using Cons.prems(3,5) by simp_all
  from execute_local [OF C E own ag(1) c0 Cons.prems(2) alone] ag(2) obtain s1 where
    c1: "cache_agrees package_of cached s1" and
    s1: "execute_transaction_in_memory A S E v c s = Inr (e c, s1)" "agree (writes c) (objects (t c)) (objects s1)"
    and off: "agree (- writes c) (objects s1) (objects s)" by blast
  have "\<forall>d \<in> set txs. agree (reads d \<union> writes d) (objects s0) (objects s1)"
  proof
    fix d assume d: "d \<in> set txs"
    with ind have "reads d \<union> writes d \<subseteq> - writes c" by blast
    from agree_mono [OF off this] agree_sym have "agree (reads d \<union> writes d) (objects s) (objects s1)" by blast
    moreover have "agree (reads d \<union> writes d) (objects s0) (objects s)" using Cons.prems(4) d by simp
    ultimately show "agree (reads d \<union> writes d) (objects s0) (objects s1)" using agree_trans by blast
  qed
  from Cons.IH [OF _ c1 _ this] ind Cons.prems(3,5) obtain s' where
    rest: "run_tasks (execute_transaction_in_memory A S E v) txs s1 = Inr (map e txs, s')"
    and each: "\<forall>d \<in> set txs. agree (writes d) (objects (t d)) (objects s')"
    and off': "agree (- \<Union> (writes ` set txs)) (objects s') (objects s1)" by auto
  have "writes c \<subseteq> - \<Union> (writes ` set txs)" using ind by blast
  from agree_mono [OF off' this] s1(2) have "agree (writes c) (objects (t c)) (objects s')"
    using agree_sym agree_trans by blast
  moreover have "agree (- \<Union> (writes ` set (c # txs))) (objects s') (objects s)"
    using off' off by (auto simp: agree_def)
  ultimately show ?case using s1(1) rest each by simp
qed (simp add: agree_def)

lemma run_alone:
  assumes C: "cache_contract S package_of cached" and E: "engine_contract A S E package_of cached reads writes"
    and c0: "cache_agrees package_of cached s0"
  shows "run_tasks (execute_transaction_in_memory A S E v) txs s = Inr r \<Longrightarrow> cache_agrees package_of cached s \<Longrightarrow>
    independent reads writes txs \<Longrightarrow> \<forall>c \<in> set txs. \<not> contains_shared_object A c \<Longrightarrow>
    \<forall>c \<in> set txs. agree (reads c) (objects s) (objects s0) \<Longrightarrow>
    \<forall>c \<in> set txs. \<exists>p. execute_transaction_in_memory A S E v c s0 = Inr p"
proof (induction txs arbitrary: s r)
  case (Cons c txs)
  from Cons.prems(1) obtain eff s1 r' where
    one: "execute_transaction_in_memory A S E v c s = Inr (eff, s1)"
    and rest: "run_tasks (execute_transaction_in_memory A S E v) txs s1 = Inr r'" by auto
  note ind = independent_Cons [OF Cons.prems(3)]
  have own: "\<not> contains_shared_object A c" and ag: "agree (reads c) (objects s) (objects s0)" using Cons.prems(4,5) by simp_all
  from execute_local [OF C E own _ Cons.prems(2) Cons.prems(2) one] one have
    c1: "cache_agrees package_of cached s1" and off: "agree (- writes c) (objects s1) (objects s)"
    by (auto simp: agree_def)
  have "\<forall>d \<in> set txs. agree (reads d) (objects s1) (objects s0)"
  proof
    fix d assume d: "d \<in> set txs"
    with ind have "reads d \<subseteq> - writes c" by blast
    from agree_mono [OF off this] Cons.prems(5) d show "agree (reads d) (objects s1) (objects s0)"
      using agree_trans by fastforce
  qed
  from Cons.IH [OF rest c1 _ _ this] ind Cons.prems(4) execute_local [OF C E own ag Cons.prems(2) c0 one] show ?case by auto
qed simp

text \<open>Two outcomes that agree: both panic, or the same effects up to order and the same objects.\<close>

definition same_outcome where
  "same_outcome x y \<longleftrightarrow>
     (case (x, y) of
        (Inr (effs, s), Inr (effs', s')) \<Rightarrow> mset effs = mset effs' \<and> objects s = objects s'
      | (Inl _, Inl _) \<Rightarrow> True
      | _ \<Rightarrow> False)"

lemma run_permuted_ok:
  assumes C: "cache_contract S package_of cached" and E: "engine_contract A S E package_of cached reads writes"
    and A: "cache_agrees package_of cached s" and ind: "independent reads writes txs" and own: "\<forall>c \<in> set txs. \<not> contains_shared_object A c"
    and perm: "mset txs' = mset txs"
    and run: "run_tasks (execute_transaction_in_memory A S E v) txs s = Inr r"
  shows "\<exists>effs' s'. run_tasks (execute_transaction_in_memory A S E v) txs' s = Inr (effs', s') \<and>
    mset effs' = mset (fst r) \<and> objects s' = objects (snd r)"
proof -
  have set: "set txs' = set txs" using perm by (rule mset_eq_setD)
  have ind': "independent reads writes txs'"
    using ind mset_eq_imp_distinct_iff [OF perm] by (simp add: independent_def set)
  have refl: "\<forall>c \<in> set txs. agree (X c) (objects s) (objects s)" for X by (simp add: agree_def)
  from run_alone [OF C E A run A ind own refl] obtain p where
    "\<forall>c \<in> set txs. execute_transaction_in_memory A S E v c s = Inr (p c)" by metis
  then have alone: "\<forall>c \<in> set txs. execute_transaction_in_memory A S E v c s = Inr ((fst \<circ> p) c, (snd \<circ> p) c)" by simp
  obtain s1 where s1: "run_tasks (execute_transaction_in_memory A S E v) txs s = Inr (map (fst \<circ> p) txs, s1)"
    "\<forall>c \<in> set txs. agree (writes c) (objects ((snd \<circ> p) c)) (objects s1)" "agree (- \<Union> (writes ` set txs)) (objects s1) (objects s)"
    using run_independent [OF C E A ind A own refl alone] by blast
  obtain s2 where s2: "run_tasks (execute_transaction_in_memory A S E v) txs' s = Inr (map (fst \<circ> p) txs', s2)"
    "\<forall>c \<in> set txs. agree (writes c) (objects ((snd \<circ> p) c)) (objects s2)" "agree (- \<Union> (writes ` set txs)) (objects s2) (objects s)"
    using run_independent [OF C E A ind' A, unfolded set, OF own refl alone] by blast
  have "objects s2 i = objects s1 i" for i
    using s1(2,3) s2(2,3) by (cases "\<exists>c \<in> set txs. i \<in> writes c") (auto simp: agree_def)
  then have "objects s2 = objects s1" by (rule ext)
  moreover have "r = (map (fst \<circ> p) txs, s1)" using s1(1) run by simp
  moreover have "mset (map (fst \<circ> p) txs') = mset (map (fst \<circ> p) txs)" unfolding mset_map perm ..
  ultimately show ?thesis using s2(1) by auto
qed

lemma execute_transactions_order:
  assumes C: "cache_contract S package_of cached" and E: "engine_contract A S E package_of cached reads writes"
    and A: "cache_agrees package_of cached s" and ind: "independent reads writes txs" and sched: "permutes sched" "permutes compl"
  shows "same_outcome (execute_transactions_in_memory A S E v sched compl txs s)
    (execute_transactions_in_memory A S E v id id txs s)"
proof (cases "list_ex (contains_shared_object A) txs")
  case False
  let ?run = "run_tasks (execute_transaction_in_memory A S E v)"
  have own: "\<forall>c \<in> set txs. \<not> contains_shared_object A c" using False by (simp add: list_ex_iff)
  have perm: "mset (sched txs) = mset txs" by (rule permutes_mset [OF sched(1)])
  then have set: "set (sched txs) = set txs" by (rule mset_eq_setD)
  have ind': "independent reads writes (sched txs)"
    using ind mset_eq_imp_distinct_iff [OF perm] by (simp add: independent_def set)
  have "same_outcome (rbind (?run (sched txs) s) (\<lambda>(ys, v'). Inr (compl ys, v'))) (?run txs s)"
  proof (cases "?run txs s")
    case (Inl e)
    have "\<nexists>r. ?run (sched txs) s = Inr r"
      using run_permuted_ok [OF C E A ind', unfolded set, OF own perm [symmetric]] Inl by fastforce
    then show ?thesis using Inl by (cases "?run (sched txs) s") (auto simp: same_outcome_def)
  next
    case (Inr r)
    from run_permuted_ok [OF C E A ind own perm Inr] Inr permutes_mset [OF sched(2)] show ?thesis
      by (auto simp: same_outcome_def split: prod.split)
  qed
  with False show ?thesis by (simp add: execute_transactions_in_memory_def spawn_all_def split_def)
qed (simp add: execute_transactions_in_memory_def same_outcome_def split: sum.split)

section \<open>A concrete engine\<close>

text \<open>
  A certificate is the ID of the object it owns, takes at version 4 and writes at version 5. Its
  other input is the package 1, which the engine loads through the cache when it executes.
\<close>

definition owned_engine :: "(string list, nat, unit, nat, nat \<times> nat, nat \<Rightarrow> (nat \<times> nat) option, unit, (nat \<times> nat) list,
    unit, nat, (nat, unit) InputObjectKind) Engine" where
  "owned_engine =
     \<lparr> cert_input_objects = \<lambda>c. Inr [MovePackage 1, ImmOrOwnedMoveObject (c, 4, ())], cert_key = \<lambda>c. (),
       shared_locks = \<lambda>v k. Inr [], check_certificate_input = \<lambda>c ios. Inr (map snd ios),
       execute_transaction_to_effects = \<lambda>s ci c.
         (let (r, s') = get_package_object pair_ops 1 s
          in (([(c, ())], [(c, (5, 0))], case r of Inr (Some _) \<Rightarrow> c | _ \<Rightarrow> 0), s')) \<rparr>"

lemma owned_engine_ready:
  assumes "engine_ready pair_ops owned_engine pair_package_of (\<lambda>pc. pc) c ci s"
  shows "\<exists>s'. execute_transaction_to_effects owned_engine s ci c = (([(c, ())], [(c, (5, 0))], c), s') \<and>
      objects s' = objects s \<and> cache_agrees pair_package_of (\<lambda>pc. pc) s'"
    and "package_at pair_package_of (objects s) c \<noteq> Inr (Some pkg)"
proof -
  from assms have A: "cache_agrees pair_package_of (\<lambda>pc. pc) s" by (simp add: engine_ready_def)
  from assms have r: "\<exists>x. objects s 1 = Some x \<and> pair_package_of 1 x = Inr x" "\<exists>y. objects s c = Some y \<and> fst y = 4"
    by (auto simp: engine_ready_def owned_engine_def lookup_spec_def pair_package_of_def object_at_def pair_ops_def
        split: option.splits if_splits)
  obtain q s' where g: "cache_get_package_object pair_ops 1 s = (q, s')" by fastforce
  note l = cache_lookup [OF pair_ops_contract A g]
  from r(1) l(1) have "\<exists>x. q = Inr (Some x)" by (auto simp: package_at_def)
  with g l(2,3) show "\<exists>s'. execute_transaction_to_effects owned_engine s ci c = (([(c, ())], [(c, (5, 0))], c), s') \<and>
      objects s' = objects s \<and> cache_agrees pair_package_of (\<lambda>pc. pc) s'"
    by (auto simp: owned_engine_def get_package_object_def)
  show "package_at pair_package_of (objects s) c \<noteq> Inr (Some pkg)"
    using r(2) by (auto simp: package_at_def pair_package_of_def)
qed

lemma owned_engine_contract:
  "engine_contract log_authority pair_ops owned_engine pair_package_of (\<lambda>pc. pc) (\<lambda>c. {1, c}) (\<lambda>c. {c})"
  unfolding engine_contract_def
proof (intro conjI allI impI)
  fix c kinds
  assume "cert_input_objects owned_engine c = Inr kinds"
  then show "kind_id ` set kinds \<subseteq> {1, c}" and "\<And>k. k \<in> set kinds \<Longrightarrow> shared_id k = None"
    by (auto simp: owned_engine_def kind_id_def)
next
  fix c ci and s s' :: "(nat, nat \<times> nat, nat \<Rightarrow> (nat \<times> nat) option) InMemoryObjectStore"
  assume "engine_ready pair_ops owned_engine pair_package_of (\<lambda>pc. pc) c ci s"
    "engine_ready pair_ops owned_engine pair_package_of (\<lambda>pc. pc) c ci s'"
  from this [THEN owned_engine_ready(1)]
  show "fst (execute_transaction_to_effects owned_engine s ci c) = fst (execute_transaction_to_effects owned_engine s' ci c)"
    by auto
next
  fix c ci mi wr eff and s s' :: "(nat, nat \<times> nat, nat \<Rightarrow> (nat \<times> nat) option) InMemoryObjectStore"
  assume ready: "engine_ready pair_ops owned_engine pair_package_of (\<lambda>pc. pc) c ci s"
    and exec: "execute_transaction_to_effects owned_engine s ci c = ((mi, wr, eff), s')"
  note o = owned_engine_ready(1) [OF ready] owned_engine_ready(2) [OF ready]
  show "objects s' = objects s" "cache_agrees pair_package_of (\<lambda>pc. pc) s'" "distinct (map fst wr)"
    "fst ` set mi \<union> fst ` set wr \<subseteq> {c}"
    using exec o(1) by auto
  show "pid \<notin> fst ` set mi \<union> fst ` set wr" if "package_at pair_package_of (objects s) pid = Inr (Some pkg)" for pid pkg
    using exec o(1) o(2) [of pkg] that by auto
qed

definition owned_store :: "(nat, nat \<times> nat, nat \<Rightarrow> (nat \<times> nat) option) InMemoryObjectStore" where
  "owned_store = InMemoryObjectStore_new pair_ops [1 \<mapsto> (1, 0), 2 \<mapsto> (4, 0), 4 \<mapsto> (4, 0)]"

lemma owned_store_agrees: "cache_agrees pair_package_of (\<lambda>pc. pc) owned_store"
  unfolding owned_store_def by (rule cache_agrees_new [OF pair_ops_contract])

section \<open>Properties\<close>

text \<open>
  C27. Executing in memory, from a store whose package cache agrees with its objects: for
  transactions none of which writes what another reads or writes, the outcome does not depend on
  the order in which the tasks run and finish, although the order decides which packages are in
  the cache when a task runs. Either every order panics, or every order gives the same effects,
  up to order, and the same objects in the store.
\<close>

theorem execute_transactions_in_memory_order:
  assumes "cache_contract S package_of cached" and "engine_contract A S E package_of cached reads writes"
    and "cache_agrees package_of cached s"
    and "independent reads writes txs" and "permutes sched" and "permutes compl"
  shows "same_outcome (execute_transactions_in_memory A S E v sched compl txs s)
    (execute_transactions_in_memory A S E v id id txs s)"
  using assms by (rule execute_transactions_order)

theorem execute_transactions_in_memory_order_witness:
  "same_outcome (execute_transactions_in_memory log_authority pair_ops owned_engine [] rev rev [2, 4] owned_store)
     (execute_transactions_in_memory log_authority pair_ops owned_engine [] id id [2, 4] owned_store) \<and>
   map_sum id fst (execute_transactions_in_memory log_authority pair_ops owned_engine [] rev id [2, 4] owned_store) =
     Inr [4, 2]"
proof
  show "same_outcome (execute_transactions_in_memory log_authority pair_ops owned_engine [] rev rev [2, 4] owned_store)
     (execute_transactions_in_memory log_authority pair_ops owned_engine [] id id [2, 4] owned_store)"
    by (rule execute_transactions_in_memory_order [OF pair_ops_contract owned_engine_contract
          owned_store_agrees _ permutes_rev permutes_rev])
      (auto simp: independent_def)
qed (simp add: execute_transactions_in_memory_def log_authority_def spawn_all_def execute_transaction_in_memory_def
    owned_engine_def read_objects_for_execution_def read_input_def get_object_by_key_def get_object_def pair_ops_def
    owned_store_def InMemoryObjectStore_new_def commit_objects_def assert_that_def get_package_object_def
    pair_get_package_def pair_package_of_def)

end
