(* ===== verification/Move_Language.thy ===== *)
theory Move_Language
  imports Rust_Prelude
begin

text \<open>
  What the Move contracts of both chains use: the aborts of the Move VM, the operations on global
  storage, vectors and tables that can abort, and the square root by Newton's method that the two
  kitty contracts share, with its correctness for every word length.
\<close>

section \<open>The Move language\<close>

datatype move_abort =
    Aborted nat
  | MissingData
  | ResourceAlreadyExists
  | VectorOperationError
  | ArithmeticError
  | TableAlreadyExists
  | TableNotFound

type_synonym 'a mres = "move_abort + 'a"

definition arith :: "'a res \<Rightarrow> 'a mres" where
  "arith r = (case r of Inl _ \<Rightarrow> Inl ArithmeticError | Inr x \<Rightarrow> Inr x)"

definition assert_code :: "bool \<Rightarrow> nat \<Rightarrow> unit mres" where
  "assert_code b c = (if b then Inr () else Inl (Aborted c))"

definition borrow_global :: "('k \<rightharpoonup> 'v) \<Rightarrow> 'k \<Rightarrow> 'v mres" where
  "borrow_global m a = (case m a of None \<Rightarrow> Inl MissingData | Some v \<Rightarrow> Inr v)"

definition move_to :: "('k \<rightharpoonup> 'v) \<Rightarrow> 'k \<Rightarrow> 'v \<Rightarrow> ('k \<rightharpoonup> 'v) mres" where
  "move_to m a v = (if m a = None then Inr (m(a \<mapsto> v)) else Inl ResourceAlreadyExists)"

definition vector_borrow :: "'a list \<Rightarrow> nat \<Rightarrow> 'a mres" where
  "vector_borrow xs i = (if i < length xs then Inr (xs ! i) else Inl VectorOperationError)"

definition table_add :: "('k \<rightharpoonup> 'v) \<Rightarrow> 'k \<Rightarrow> 'v \<Rightarrow> ('k \<rightharpoonup> 'v) mres" where
  "table_add t k v = (if t k = None then Inr (t(k \<mapsto> v)) else Inl TableAlreadyExists)"

definition table_borrow :: "('k \<rightharpoonup> 'v) \<Rightarrow> 'k \<Rightarrow> 'v mres" where
  "table_borrow t k = (case t k of None \<Rightarrow> Inl TableNotFound | Some v \<Rightarrow> Inr v)"

lemma arith_eq_Inr [simp]: "arith r = Inr x \<longleftrightarrow> r = Inr x"
  by (cases r) (auto simp: arith_def)

lemma arith_Inr [simp]: "arith (Inr x) = Inr x"
  by (simp add: arith_def)

lemma assert_code_eq_Inr [simp]: "assert_code b c = Inr u \<longleftrightarrow> b"
  by (simp add: assert_code_def)

lemma assert_code_True [simp]: "assert_code True c = Inr ()"
  by (simp add: assert_code_def)

lemma borrow_global_eq_Inr [simp]: "borrow_global m a = Inr v \<longleftrightarrow> m a = Some v"
  by (simp add: borrow_global_def split: option.splits)

lemma borrow_global_Some [simp]: "m a = Some v \<Longrightarrow> borrow_global m a = Inr v"
  by simp

lemma move_to_eq_Inr [simp]: "move_to m a v = Inr m' \<longleftrightarrow> m a = None \<and> m' = m(a \<mapsto> v)"
  by (auto simp: move_to_def)

lemma vector_borrow_eq_Inr [simp]: "vector_borrow xs i = Inr x \<longleftrightarrow> i < length xs \<and> x = xs ! i"
  by (auto simp: vector_borrow_def)

lemma vector_borrow_ok [simp]: "i < length xs \<Longrightarrow> vector_borrow xs i = Inr (xs ! i)"
  by simp

lemma table_add_eq_Inr [simp]: "table_add t k v = Inr t' \<longleftrightarrow> t k = None \<and> t' = t(k \<mapsto> v)"
  by (auto simp: table_add_def)

lemma table_borrow_eq_Inr [simp]: "table_borrow t k = Inr v \<longleftrightarrow> t k = Some v"
  by (simp add: table_borrow_def split: option.splits)

section \<open>The square root\<close>

text \<open>The square root by Newton's method. The loop ends because \<open>y\<close> decreases.\<close>

function sqrt_loop :: "'a::len word \<Rightarrow> 'a word \<Rightarrow> 'a word \<Rightarrow> 'a word mres" where
  "sqrt_loop x z y =
     (if z < y then
        rbind (arith (div_c x z)) (\<lambda>q.
        rbind (arith (add_c q z)) (\<lambda>t.
        sqrt_loop x (t div 2) z))
      else Inr y)"
  by pat_completeness auto
termination
  by (relation "measure (\<lambda>(x, z, y). unat y)") (auto simp: word_less_nat_alt)

declare sqrt_loop.simps [simp del]

definition move_sqrt :: "'a::len word \<Rightarrow> 'a word mres" where
  "move_sqrt x = rbind (arith (add_c x 1)) (\<lambda>t. sqrt_loop x (t div 2) x)"

definition genes_product :: "'a::len word \<Rightarrow> 'a word \<Rightarrow> 'a word mres" where
  "genes_product m_genes s_genes =
     rbind (move_sqrt m_genes) (\<lambda>a. rbind (move_sqrt s_genes) (\<lambda>b. arith (mul_c a b)))"

section \<open>Its correctness\<close>

text \<open>A Newton step never falls below the root, and a step that does not decrease starts at the root.\<close>

lemma four_mult_le:
  fixes a b :: nat
  shows "4 * (a * b) \<le> (a + b) ^ 2"
proof -
  have "0 \<le> (int a - int b) ^ 2" by simp
  then have "int (4 * (a * b)) \<le> int ((a + b) ^ 2)" by (simp add: power2_eq_square algebra_simps)
  then show ?thesis by (simp only: of_nat_le_iff)
qed

lemma div_add_le:
  fixes x z :: nat
  assumes "0 < z" and "z \<le> x"
  shows "x div z + z \<le> x + 1"
proof -
  from assms have "0 < x div z" by (simp add: div_greater_zero_iff)
  with assms(1) obtain a b where "x div z = Suc a" "z = Suc b" by (metis gr0_conv_Suc)
  then have "x div z + z \<le> x div z * z + 1" by simp
  also have "x div z * z \<le> x" by simp
  finally show ?thesis by simp
qed

lemma newton_above:
  fixes x y :: nat
  assumes "0 < y"
  shows "x < ((x div y + y) div 2 + 1) ^ 2"
proof -
  define q t where "q = x div y" and "t = (q + y) div 2"
  have x: "x < (q + 1) * y" using assms by (simp add: q_def dividend_less_times_div [of y x] mult.commute)
  have t: "q + 1 + y \<le> 2 * (t + 1)" by (simp add: t_def)
  have "4 * ((q + 1) * y) \<le> (q + 1 + y) ^ 2" by (rule four_mult_le)
  also have "\<dots> \<le> (2 * (t + 1)) ^ 2" using t by (rule power_mono) simp
  also have "\<dots> = 4 * (t + 1) ^ 2" by (simp add: power2_eq_square)
  finally have "4 * ((q + 1) * y) \<le> 4 * (t + 1) ^ 2" .
  with x show ?thesis by (simp add: q_def t_def)
qed

lemma newton_stops:
  fixes x y :: nat
  assumes "0 < y" and "y \<le> (x div y + y) div 2"
  shows "y ^ 2 \<le> x"
proof -
  have "y \<le> x div y" using assms(2) by simp
  then have "y * y \<le> x div y * y" by simp
  also have "\<dots> \<le> x" by simp
  finally show ?thesis by (simp add: power2_eq_square)
qed

lemma unat_two:
  assumes "2 \<le> LENGTH('a::len)"
  shows "unat (2 :: 'a word) = 2"
proof -
  have "(2 :: nat) ^ 2 \<le> 2 ^ LENGTH('a)" using assms by (intro power_increasing) simp_all
  then have "unat (word_of_nat 2 :: 'a word) = 2" by (simp add: unat_of_nat del: of_nat_numeral)
  then show ?thesis by simp
qed

definition is_isqrt :: "nat \<Rightarrow> nat \<Rightarrow> bool" where
  "is_isqrt x r \<longleftrightarrow> r ^ 2 \<le> x \<and> x < (r + 1) ^ 2"

lemma sqrt_loop_ok:
  fixes x z y :: "'a::len word"
  assumes "0 < unat y" and "0 < unat z" and "unat x + 1 < 2 ^ LENGTH('a)" and "2 \<le> LENGTH('a)"
    and "unat z = (unat x div unat y + unat y) div 2" and "unat x < (unat y + 1) ^ 2" and "unat y \<le> unat x"
  shows "\<exists>r. sqrt_loop x z y = Inr r \<and> is_isqrt (unat x) (unat r)"
  using assms
proof (induction x z y rule: sqrt_loop.induct)
  case (1 x z y)
  show ?case
  proof (cases "z < y")
    case False
    then have "unat y \<le> (unat x div unat y + unat y) div 2" using "1.prems"(5) by (simp add: word_less_nat_alt)
    from newton_stops [OF "1.prems"(1) this] False "1.prems"(6) show ?thesis by (simp add: is_isqrt_def sqrt_loop.simps [of x z y])
  next
    case True
    then have zx: "unat z \<le> unat x" using "1.prems"(7) by (simp add: word_less_nat_alt)
    have div: "div_c x z = Inr (x div z)" using "1.prems"(2) by (auto simp: div_c_def)
    have le: "unat x div unat z + unat z \<le> unat x + 1" by (rule div_add_le [OF "1.prems"(2) zx])
    with "1.prems"(3) obtain t where t: "add_c (x div z) z = Inr t" "unat t = unat x div unat z + unat z"
      by (auto simp: add_c_def unat_word_ariths unat_div)
    have two: "unat (2 :: 'a word) = 2" by (rule unat_two [OF "1.prems"(4)])
    have half: "unat (t div 2) = (unat x div unat z + unat z) div 2" using t(2) two by (simp add: unat_div)
    have "1 \<le> unat x div unat z" using zx "1.prems"(2) by (simp add: Suc_le_eq div_greater_zero_iff)
    then have pos: "0 < unat (t div 2)" using half "1.prems"(2) by simp
    have above: "unat x < (unat z + 1) ^ 2" using newton_above [OF "1.prems"(1), of "unat x"] "1.prems"(5) by simp
    have "arith (div_c x z) = Inr (x div z)" "arith (add_c (x div z) z) = Inr t" using div t(1) by simp_all
    from "1.IH" [OF True this "1.prems"(2) pos "1.prems"(3,4) half above zx] True div t(1) show ?thesis by (simp add: sqrt_loop.simps [of x z y])
  qed
qed


lemma is_isqrt_unique: "is_isqrt x r \<Longrightarrow> is_isqrt x q \<Longrightarrow> r = q"
proof -
  have "r \<le> q" if "is_isqrt x r" "is_isqrt x q" for r q
  proof -
    have "r ^ 2 < (q + 1) ^ 2" using that unfolding is_isqrt_def by linarith
    then have "r < q + 1" by (rule power_less_imp_less_base) simp
    then show ?thesis by simp
  qed
  then show "is_isqrt x r \<Longrightarrow> is_isqrt x q \<Longrightarrow> r = q" by (simp add: order_antisym)
qed

lemma move_sqrt_ok:
  fixes x :: "'a::len word"
  assumes "2 \<le> LENGTH('a)" and "unat x + 1 < 2 ^ LENGTH('a)"
  shows "\<exists>r. move_sqrt x = Inr r \<and> is_isqrt (unat x) (unat r)"
proof -
  obtain t where t: "add_c x 1 = Inr t" "unat t = unat x + 1" using assms(2) by (auto simp: add_c_def unat_word_ariths)
  have half: "unat (t div 2) = (unat x + 1) div 2" using t(2) unat_two [OF assms(1)] by (simp add: unat_div)
  show ?thesis
  proof (cases "unat x = 0")
    case True
    with half t(1) show ?thesis by (simp add: move_sqrt_def sqrt_loop.simps word_less_nat_alt is_isqrt_def)
  next
    case False
    have "unat x < (unat x + 1) ^ 2" by (simp add: power2_eq_square)
    with sqrt_loop_ok [of x "t div 2" x] assms half t(1) False show ?thesis by (simp add: move_sqrt_def)
  qed
qed

text \<open>The roots of two words of \<open>2n\<close> bits have \<open>n\<close> bits, so their product does not overflow.\<close>

lemma genes_product_ok:
  fixes a b :: "'a::len word"
  assumes "LENGTH('a) = 2 * n" and "a \<noteq> -1" and "b \<noteq> -1"
  shows "\<exists>r p q. genes_product a b = Inr r \<and> is_isqrt (unat a) p \<and> is_isqrt (unat b) q \<and> unat r = p * q"
proof -
  have len: "2 \<le> LENGTH('a)" using assms(1) len_gt_0 [where 'a = 'a] by (cases n) simp_all
  have small: "unat w + 1 < 2 ^ LENGTH('a)" if "w \<noteq> -1" for w :: "'a word"
  proof -
    have "unat w \<noteq> 2 ^ LENGTH('a) - 1" using that by (auto simp: word_unat_eq_iff unsigned_minus_1_eq_mask mask_eq_exp_minus_1)
    moreover have "unat w < 2 ^ LENGTH('a)" by (rule unsigned_less)
    ultimately show ?thesis by linarith
  qed
  from move_sqrt_ok [OF len small [OF assms(2)]] obtain p where p: "move_sqrt a = Inr p" "is_isqrt (unat a) (unat p)" by auto
  from move_sqrt_ok [OF len small [OF assms(3)]] obtain q where q: "move_sqrt b = Inr q" "is_isqrt (unat b) (unat q)" by auto
  have root: "unat r < 2 ^ n" if "is_isqrt (unat w) (unat r)" for w r :: "'a word"
  proof -
    have "unat w < 2 ^ LENGTH('a)" by (rule unsigned_less)
    with that have "unat r ^ 2 < 2 ^ LENGTH('a)" unfolding is_isqrt_def by linarith
    then have "unat r ^ 2 < (2 ^ n) ^ 2" by (simp add: assms(1) power_mult [symmetric] mult.commute)
    then show ?thesis by (rule power_less_imp_less_base) simp
  qed
  have "unat p * unat q < 2 ^ n * 2 ^ n" using root [OF p(2)] root [OF q(2)] by (intro mult_strict_mono) simp_all
  then have "unat p * unat q < 2 ^ LENGTH('a)" by (simp add: assms(1) mult_2 power_add)
  then have "mul_c p q = Inr (p * q)" "unat (p * q) = unat p * unat q" by (simp_all add: mul_c_def unat_word_ariths)
  with p q show ?thesis by (auto simp: genes_product_def)
qed

section \<open>Pixels\<close>

text \<open>The key of a pixel, computed by the million-pixel contracts of both chains: distinct pixels have
  distinct keys, and none overflows.\<close>

definition pixel_index :: "u16 \<Rightarrow> u16 \<Rightarrow> u32 mres" where
  "pixel_index x y = rbind (arith (mul_c (ucast x) 65536)) (\<lambda>a. arith (add_c a (ucast y)))"

lemma pixel_index_ok: "\<exists>i. pixel_index x y = Inr i \<and> unat i = unat x * 65536 + unat y"
proof -
  have x: "unat x < 65536" "unat y < 65536" using unsigned_less [of x, where 'a = nat] unsigned_less [of y, where 'a = nat] by simp_all
  have u: "unat (ucast x :: u32) = unat x" "unat (ucast y :: u32) = unat y" using x by (simp_all add: unsigned_ucast_eq take_bit_nat_def)
  have "mul_c (ucast x :: u32) 65536 = Inr (ucast x * 65536)" "unat ((ucast x :: u32) * 65536) = unat x * 65536"
    using x(1) u(1) by (simp_all add: mul_c_def unat_word_ariths)
  then show ?thesis using x u(2) by (simp add: pixel_index_def add_c_def unat_word_ariths)
qed

lemma pixel_index_inj:
  assumes "pixel_index x y = Inr i" and "pixel_index x' y' = Inr i"
  shows "x = x' \<and> y = y'"
proof -
  from pixel_index_ok [of x y] pixel_index_ok [of x' y'] assms
  have eq: "unat x * 65536 + unat y = unat x' * 65536 + unat y'" by auto
  have y: "unat y < 65536" "unat y' < 65536" using unsigned_less [of y, where 'a = nat] unsigned_less [of y', where 'a = nat] by simp_all
  from arg_cong [OF eq, of "\<lambda>n. n div 65536"] arg_cong [OF eq, of "\<lambda>n. n mod 65536"] y
  have "unat x = unat x'" "unat y = unat y'" by simp_all
  then show ?thesis by (simp add: word_unat_eq_iff)
qed

end
