(* ===== verification/Aptos_Contracts.thy ===== *)
theory Aptos_Contracts
  imports Peer_To_Peer Move_Language
begin

text \<open>
  The Move contracts of the Aptos workloads, \<^verbatim>\<open>aptos/modified/move-contracts/*.move\<close>.

  \<^item> Global storage is a record with one map from addresses per resource type. A table is a map.
  \<^item> An entry function returns the storage it leaves or the abort of the Move VM. \<open>Aborted c\<close> is a
    failed \<open>assert!\<close> with code \<open>c\<close>; the other aborts are those of the operations of the language and
    of \<open>vector\<close> and \<open>table\<close>.
  \<^item> \<open>execute_payload\<close> dispatches the payloads that \<^verbatim>\<open>common_transactions.rs\<close> builds.
\<close>

section \<open>Storage\<close>

record Proposal =
  proposal_name :: "u8 list"
  totalVotedWeight :: u64

record Kitty =
  kitty_id :: u64
  kitty_genes :: u64
  m_id :: u64
  s_id :: u64

record KittyInfo =
  info_gender :: bool
  info_owner :: AccountAddress

record Land =
  land_flag :: bool
  land_owner :: AccountAddress

record GlobalStorage =
  CoinStore :: "AccountAddress \<rightharpoonup> u64"
  Proposals :: "AccountAddress \<rightharpoonup> Proposal list"
  AllKitties :: "AccountAddress \<rightharpoonup> KittyInfo list"
  MyKitties :: "AccountAddress \<rightharpoonup> (u64 \<rightharpoonup> Kitty)"
  Newborns :: "AccountAddress \<rightharpoonup> u64"
  LandStore :: "AccountAddress \<rightharpoonup> (u32 \<rightharpoonup> Land)"

section \<open>xtl-airdrop\<close>

definition AIRDROP_AMOUNT :: u64 where "AIRDROP_AMOUNT = 100"
definition THE_ACCOUNT_IS_NOT_EXISTED :: nat where "THE_ACCOUNT_IS_NOT_EXISTED = 2"
definition INSUFFICIENT_BALANCE :: nat where "INSUFFICIENT_BALANCE = 3"

definition airdrop_initialize :: "AccountAddress \<Rightarrow> u64 \<Rightarrow> GlobalStorage \<Rightarrow> GlobalStorage mres" where
  "airdrop_initialize addr amt s =
     rbind (move_to (CoinStore s) addr amt) (\<lambda>m. Inr (s\<lparr>CoinStore := m\<rparr>))"

definition getBalance :: "AccountAddress \<Rightarrow> GlobalStorage \<Rightarrow> u64 mres" where
  "getBalance owner s =
     rbind (assert_code (CoinStore s owner \<noteq> None) THE_ACCOUNT_IS_NOT_EXISTED) (\<lambda>_.
     borrow_global (CoinStore s) owner)"

definition airdrop_deposit :: "AccountAddress \<Rightarrow> u64 \<Rightarrow> GlobalStorage \<Rightarrow> GlobalStorage mres" where
  "airdrop_deposit account_addr coin_value s =
     rbind (assert_code (CoinStore s account_addr \<noteq> None) THE_ACCOUNT_IS_NOT_EXISTED) (\<lambda>_.
     rbind (getBalance account_addr s) (\<lambda>bal.
     rbind (arith (add_c bal coin_value)) (\<lambda>b.
     Inr (s\<lparr>CoinStore := (CoinStore s)(account_addr \<mapsto> b)\<rparr>))))"

definition airdrop_withdraw :: "AccountAddress \<Rightarrow> u64 \<Rightarrow> GlobalStorage \<Rightarrow> (u64 \<times> GlobalStorage) mres" where
  "airdrop_withdraw account_addr amt s =
     rbind (assert_code (CoinStore s account_addr \<noteq> None) THE_ACCOUNT_IS_NOT_EXISTED) (\<lambda>_.
     rbind (getBalance account_addr s) (\<lambda>bal.
     rbind (assert_code (amt \<le> bal) INSUFFICIENT_BALANCE) (\<lambda>_.
     rbind (arith (sub_c bal amt)) (\<lambda>b.
     Inr (amt, s\<lparr>CoinStore := (CoinStore s)(account_addr \<mapsto> b)\<rparr>)))))"

definition transfer_one :: "AccountAddress \<Rightarrow> GlobalStorage \<Rightarrow> AccountAddress \<Rightarrow> GlobalStorage mres" where
  "transfer_one from_addr s to =
     rbind (airdrop_withdraw from_addr AIRDROP_AMOUNT s) (\<lambda>(coin_value, s'). airdrop_deposit to coin_value s')"

definition transfer_n :: "AccountAddress \<Rightarrow> AccountAddress list \<Rightarrow> GlobalStorage \<Rightarrow> GlobalStorage mres" where
  "transfer_n from_addr recipients s =
     rbind (getBalance from_addr s) (\<lambda>bal.
     rbind (arith (mul_c AIRDROP_AMOUNT (word_of_nat (length recipients)))) (\<lambda>needed.
     if needed \<le> bal then foldM (transfer_one from_addr) s recipients else Inr s))"

section \<open>xtl-ballot\<close>

definition FORUM_IS_NOT_EXISTED :: nat where "FORUM_IS_NOT_EXISTED = 1"

definition ballot_initialize :: "AccountAddress \<Rightarrow> u8 list list \<Rightarrow> GlobalStorage \<Rightarrow> GlobalStorage mres" where
  "ballot_initialize forum names s =
     rbind (move_to (Proposals s) forum []) (\<lambda>m.
     rbind (borrow_global m forum) (\<lambda>ps.
     Inr (s\<lparr>Proposals := m(forum \<mapsto>
       ps @ map (\<lambda>name. \<lparr> proposal_name = name, totalVotedWeight = 0 \<rparr>) names)\<rparr>)))"

definition ballot_vote :: "AccountAddress \<Rightarrow> u64 \<Rightarrow> GlobalStorage \<Rightarrow> GlobalStorage mres" where
  "ballot_vote forum proposal_index s =
     rbind (assert_code (Proposals s forum \<noteq> None) FORUM_IS_NOT_EXISTED) (\<lambda>_.
     rbind (borrow_global (Proposals s) forum) (\<lambda>ps.
     rbind (vector_borrow ps (unat proposal_index)) (\<lambda>p.
     rbind (arith (add_c (totalVotedWeight p) 1)) (\<lambda>w.
     Inr (s\<lparr>Proposals := (Proposals s)(forum \<mapsto> ps[unat proposal_index := p\<lparr>totalVotedWeight := w\<rparr>])\<rparr>)))))"

text \<open>
  The tally. The first loop adds the weights of a forum to the result, position by position; the
  second looks for the winner.
\<close>

fun add_weights :: "Proposal list \<Rightarrow> nat \<Rightarrow> u64 list \<Rightarrow> u64 list mres" where
  "add_weights [] j tally = Inr tally"
| "add_weights (p # ps) j tally =
     rbind (vector_borrow tally j) (\<lambda>v.
     rbind (arith (add_c (totalVotedWeight p) v)) (\<lambda>v'.
     add_weights ps (Suc j) (tally[j := v'])))"

definition add_forum :: "GlobalStorage \<Rightarrow> u64 list \<Rightarrow> AccountAddress \<Rightarrow> u64 list mres" where
  "add_forum s tally forum =
     rbind (borrow_global (Proposals s) forum) (\<lambda>ps. add_weights ps 0 tally)"

fun pick_winner :: "u64 list \<Rightarrow> nat \<Rightarrow> nat \<Rightarrow> u64 \<Rightarrow> nat" where
  "pick_winner [] i winer max_weight = winer"
| "pick_winner (v # vs) i winer max_weight =
     (if max_weight > v then pick_winner vs (Suc i) i v else pick_winner vs (Suc i) winer max_weight)"

definition ballot_finalize :: "AccountAddress list \<Rightarrow> GlobalStorage \<Rightarrow> nat mres" where
  "ballot_finalize forums s =
     rbind (vector_borrow forums 0) (\<lambda>tmp_forum.
     rbind (borrow_global (Proposals s) tmp_forum) (\<lambda>ps.
     rbind (foldM (add_forum s) (replicate (length ps) 0) forums) (\<lambda>tally.
     Inr (pick_winner tally 0 0 0))))"

section \<open>xtl-million-pixel\<close>

definition pixel_initialize :: "AccountAddress \<Rightarrow> GlobalStorage \<Rightarrow> GlobalStorage mres" where
  "pixel_initialize global_store s =
     rbind (move_to (LandStore s) global_store Map.empty) (\<lambda>m. Inr (s\<lparr>LandStore := m\<rparr>))"

definition pixel_occupy :: "AccountAddress \<Rightarrow> AccountAddress \<Rightarrow> u16 \<Rightarrow> u16 \<Rightarrow> GlobalStorage \<Rightarrow> GlobalStorage mres" where
  "pixel_occupy addr global_land x y s =
     rbind (pixel_index x y) (\<lambda>index.
     rbind (borrow_global (LandStore s) global_land) (\<lambda>land.
     if land index = None then
       rbind (table_add land index \<lparr> land_flag = True, land_owner = addr \<rparr>) (\<lambda>land'.
       Inr (s\<lparr>LandStore := (LandStore s)(global_land \<mapsto> land')\<rparr>))
     else Inr s))"

section \<open>xtl-kitty-breeding\<close>

text \<open>The contract computes the product seven times and returns the last one.\<close>

definition genes_mix :: "u64 \<Rightarrow> u64 \<Rightarrow> u64 mres" where
  "genes_mix m_genes s_genes =
     rbind (foldM (\<lambda>_ _. genes_product m_genes s_genes) 0 [0..<6]) (\<lambda>_. genes_product m_genes s_genes)"

definition kitty_initialize :: "AccountAddress \<Rightarrow> GlobalStorage \<Rightarrow> GlobalStorage mres" where
  "kitty_initialize global s =
     rbind (move_to (AllKitties s) global []) (\<lambda>m.
     rbind (move_to (Newborns s) global 0) (\<lambda>n.
     Inr (s\<lparr>AllKitties := m, Newborns := n\<rparr>)))"

definition kitty_create :: "AccountAddress \<Rightarrow> bool \<Rightarrow> AccountAddress \<Rightarrow> GlobalStorage \<Rightarrow> (u64 \<times> GlobalStorage) mres" where
  "kitty_create global gender owner s =
     rbind (borrow_global (AllKitties s) global) (\<lambda>ks.
     Inr (word_of_nat (length ks),
          s\<lparr>AllKitties := (AllKitties s)(global \<mapsto> ks @ [\<lparr> info_gender = gender, info_owner = owner \<rparr>])\<rparr>))"

definition add_new_kitty :: "AccountAddress \<Rightarrow> u64 \<Rightarrow> u64 \<Rightarrow> u64 \<Rightarrow> u64 \<Rightarrow> GlobalStorage \<Rightarrow> GlobalStorage mres" where
  "add_new_kitty owner genes id1 m s1 s =
     rbind (borrow_global (MyKitties s) owner) (\<lambda>t.
     rbind (table_add t id1 \<lparr> kitty_id = id1, kitty_genes = genes, m_id = m, s_id = s1 \<rparr>) (\<lambda>t'.
     Inr (s\<lparr>MyKitties := (MyKitties s)(owner \<mapsto> t')\<rparr>)))"

definition kitty_mint :: "AccountAddress \<Rightarrow> AccountAddress \<Rightarrow> u64 \<Rightarrow> bool \<Rightarrow> GlobalStorage \<Rightarrow> GlobalStorage mres" where
  "kitty_mint addr global genes gender s =
     rbind (if MyKitties s addr = None
            then rbind (move_to (MyKitties s) addr Map.empty) (\<lambda>m. Inr (s\<lparr>MyKitties := m\<rparr>))
            else Inr s) (\<lambda>s1.
     rbind (kitty_create global gender addr s1) (\<lambda>(id1, s2).
     add_new_kitty addr genes id1 (2 ^ 32 - 1) (2 ^ 32 - 1) s2))"

definition kitty_breed :: "AccountAddress \<Rightarrow> AccountAddress \<Rightarrow> u64 \<Rightarrow> u64 \<Rightarrow> bool \<Rightarrow> GlobalStorage \<Rightarrow> GlobalStorage mres" where
  "kitty_breed new_owner global m s1 gender s =
     rbind (borrow_global (AllKitties s) global) (\<lambda>ks.
     rbind (vector_borrow ks (unat m)) (\<lambda>km.
     rbind (vector_borrow ks (unat s1)) (\<lambda>ksire.
     rbind (borrow_global (MyKitties s) (info_owner km)) (\<lambda>tm.
     rbind (table_borrow tm m) (\<lambda>matron.
     rbind (borrow_global (MyKitties s) (info_owner ksire)) (\<lambda>ts.
     rbind (table_borrow ts s1) (\<lambda>sire.
     rbind (genes_mix (kitty_genes matron) (kitty_genes sire)) (\<lambda>new_genes.
     rbind (add_new_kitty new_owner new_genes new_genes m s1 s) (\<lambda>s'.
     rbind (borrow_global (Newborns s') global) (\<lambda>n.
     rbind (arith (add_c n 1)) (\<lambda>n'.
     Inr (s'\<lparr>Newborns := (Newborns s')(global \<mapsto> n')\<rparr>))))))))))))"

section \<open>Dispatch\<close>

definition empty_empty :: "GlobalStorage \<Rightarrow> GlobalStorage mres" where
  "empty_empty s = Inr s"

text \<open>
  The entry function of a payload. The other payloads run code of the Aptos framework, the
  parameter \<open>framework\<close>.
\<close>

definition execute_payload where
  "execute_payload framework addr p s =
     (case p of
        xtl_airdrop_initialize amt \<Rightarrow> airdrop_initialize addr amt s
      | xtl_airdrop_transfer_n recipients \<Rightarrow> transfer_n addr recipients s
      | xtl_ballot_initialize names \<Rightarrow> ballot_initialize addr names s
      | xtl_ballot_vote forum i \<Rightarrow> ballot_vote forum i s
      | xtl_million_pixel_initialize \<Rightarrow> pixel_initialize addr s
      | xtl_million_pixel_occupy global x y \<Rightarrow> pixel_occupy addr global x y s
      | xtl_kitty_breeding_initialize \<Rightarrow> kitty_initialize addr s
      | xtl_kitty_breeding_mint global genes gender \<Rightarrow> kitty_mint addr global genes gender s
      | xtl_kitty_breeding_breed global m s1 gender \<Rightarrow> kitty_breed addr global m s1 gender s
      | xtl_empty_empty \<Rightarrow> empty_empty s
      | _ \<Rightarrow> framework addr p s)"

text \<open>A block in which every transaction has to succeed, as the simulator requires.\<close>

definition execute_signed where
  "execute_signed framework s txn = execute_payload framework (address (txn_sender txn)) (txn_payload txn) s"

definition run_contracts where
  "run_contracts framework txns s = foldM (execute_signed framework) s txns"

section \<open>Airdrop: conservation\<close>

definition coin_total :: "GlobalStorage \<Rightarrow> nat" where
  "coin_total s = (\<Sum>a \<in> dom (CoinStore s). unat (the (CoinStore s a)))"

lemma coin_total_upd:
  assumes "finite (dom (CoinStore s))" and "CoinStore s a = Some b"
  shows "coin_total (s\<lparr>CoinStore := (CoinStore s)(a \<mapsto> c)\<rparr>) + unat b = coin_total s + unat c"
proof -
  let ?D = "dom (CoinStore s)" and ?r = "\<Sum>x \<in> dom (CoinStore s) - {a}. unat (the (CoinStore s x))"
  have a: "a \<in> ?D" using assms(2) by blast
  have "coin_total s = unat b + ?r"
    using sum.remove [OF assms(1) a, of "\<lambda>x. unat (the (CoinStore s x))"] assms(2) by (simp add: coin_total_def)
  moreover have "coin_total (s\<lparr>CoinStore := (CoinStore s)(a \<mapsto> c)\<rparr>) = unat c + ?r"
    using sum.remove [OF assms(1) a, of "\<lambda>x. unat (the (((CoinStore s)(a \<mapsto> c)) x))"] a
    by (simp add: coin_total_def insert_absorb)
  ultimately show ?thesis by simp
qed

lemma coin_le_total:
  assumes "finite (dom (CoinStore s))" and "CoinStore s a = Some b"
  shows "unat b \<le> coin_total s"
  using coin_total_upd [OF assms, of 0] by simp

text \<open>One transfer: the accounts stay, the total stays, and the sender loses at most the amount.\<close>

lemma transfer_one_ok:
  assumes "finite (dom (CoinStore s))" and "coin_total s < 2 ^ 64"
    and "CoinStore s from_addr = Some b" and "100 \<le> unat b" and "CoinStore s to \<noteq> None"
  shows "\<exists>m b'. transfer_one from_addr s to = Inr (s\<lparr>CoinStore := m\<rparr>) \<and> dom m = dom (CoinStore s) \<and>
    coin_total (s\<lparr>CoinStore := m\<rparr>) = coin_total s \<and> m from_addr = Some b' \<and> unat b \<le> unat b' + 100"
proof -
  have amount: "AIRDROP_AMOUNT \<le> b" "unat AIRDROP_AMOUNT = 100"
    using assms(4) by (simp_all add: AIRDROP_AMOUNT_def word_le_nat_alt)
  then obtain b1 where b1: "sub_c b AIRDROP_AMOUNT = Inr b1" "unat b1 + 100 = unat b"
    by (auto simp: sub_c_def word_le_nat_alt unat_sub)
  define s1 where "s1 = s\<lparr>CoinStore := (CoinStore s)(from_addr \<mapsto> b1)\<rparr>"
  have dom1: "dom (CoinStore s1) = dom (CoinStore s)" using assms(3) by (auto simp: s1_def)
  with assms(1) have fin1: "finite (dom (CoinStore s1))" by simp
  have total1: "coin_total s1 + 100 = coin_total s"
    using coin_total_upd [OF assms(1,3), of b1] b1(2) by (simp add: s1_def)
  obtain c where c: "CoinStore s1 to = Some c" using assms(5) by (cases "to = from_addr") (auto simp: s1_def)
  have "unat c + unat AIRDROP_AMOUNT < 2 ^ 64"
    using coin_le_total [OF fin1 c] total1 assms(2) amount(2) by linarith
  then obtain c1 where c1: "add_c c AIRDROP_AMOUNT = Inr c1" "unat c1 = unat c + 100"
    using amount(2) by (auto simp: add_c_def unat_word_ariths)
  let ?m = "(CoinStore s1)(to \<mapsto> c1)"
  have "transfer_one from_addr s to = Inr (s\<lparr>CoinStore := ?m\<rparr>)"
    using assms(3) amount b1(1) c c1(1)
    by (simp add: transfer_one_def airdrop_withdraw_def airdrop_deposit_def getBalance_def s1_def del: fun_upd_apply)
  moreover have "coin_total (s\<lparr>CoinStore := ?m\<rparr>) = coin_total s"
    using coin_total_upd [OF fin1 c, of c1] c1(2) total1 by (simp add: s1_def)
  moreover have "dom ?m = dom (CoinStore s)" using c dom1 by auto
  moreover have "\<exists>b'. ?m from_addr = Some b' \<and> unat b \<le> unat b' + 100"
    using b1(2) c c1(2) by (auto simp: s1_def split: if_splits)
  ultimately show ?thesis by blast
qed

text \<open>
  The loop needs the balance that \<open>transfer_n\<close> checks before it: every round lowers the sender's
  balance by at most the amount.
\<close>

lemma transfer_loop_ok:
  assumes "finite (dom (CoinStore s))" and "coin_total s < 2 ^ 64"
    and "CoinStore s from_addr = Some b" and "100 * length recipients \<le> unat b"
    and "set recipients \<subseteq> dom (CoinStore s)"
  shows "\<exists>m. foldM (transfer_one from_addr) s recipients = Inr (s\<lparr>CoinStore := m\<rparr>) \<and>
    dom m = dom (CoinStore s) \<and> coin_total (s\<lparr>CoinStore := m\<rparr>) = coin_total s"
  using assms
proof (induction recipients arbitrary: s b)
  case Nil
  show ?case by (rule exI [of _ "CoinStore s"]) simp
next
  case (Cons r rs)
  have "100 \<le> unat b" and "CoinStore s r \<noteq> None" using Cons.prems by auto
  from transfer_one_ok [OF Cons.prems(1-3) this] obtain m b' where
    one: "transfer_one from_addr s r = Inr (s\<lparr>CoinStore := m\<rparr>)" "dom m = dom (CoinStore s)"
      "coin_total (s\<lparr>CoinStore := m\<rparr>) = coin_total s" "m from_addr = Some b'" "unat b \<le> unat b' + 100" by blast
  have "100 * length rs \<le> unat b'" using Cons.prems(4) one(5) by simp
  with Cons.IH [of "s\<lparr>CoinStore := m\<rparr>" b'] Cons.prems one show ?case by auto
qed

lemma transfer_n_ok:
  assumes "finite (dom (CoinStore s))" and "coin_total s < 2 ^ 64"
    and "CoinStore s from_addr \<noteq> None" and "set recipients \<subseteq> dom (CoinStore s)" and "length recipients < 2 ^ 56"
  shows "\<exists>m. transfer_n from_addr recipients s = Inr (s\<lparr>CoinStore := m\<rparr>) \<and>
    dom m = dom (CoinStore s) \<and> coin_total (s\<lparr>CoinStore := m\<rparr>) = coin_total s"
proof -
  from assms(3) obtain b where b: "CoinStore s from_addr = Some b" by blast
  have len: "unat (word_of_nat (length recipients) :: u64) = length recipients"
    using assms(5) by (simp add: unat_of_nat)
  obtain w where w: "mul_c AIRDROP_AMOUNT (word_of_nat (length recipients)) = Inr w" "unat w = 100 * length recipients"
    using assms(5) len by (auto simp: mul_c_def AIRDROP_AMOUNT_def unat_word_ariths)
  show ?thesis
  proof (cases "w \<le> b")
    case True
    with w(2) have "100 * length recipients \<le> unat b" by (simp add: word_le_nat_alt)
    from transfer_loop_ok [OF assms(1,2) b this assms(4)] True b w(1) show ?thesis
      by (simp add: transfer_n_def getBalance_def)
  next
    case False
    with b w(1) have "transfer_n from_addr recipients s = Inr (s\<lparr>CoinStore := CoinStore s\<rparr>)"
      by (simp add: transfer_n_def getBalance_def)
    then show ?thesis by (intro exI [of _ "CoinStore s"]) simp
  qed
qed

section \<open>Mixing genes\<close>

lemma foldM_const: "f = Inr r \<Longrightarrow> \<exists>s'. foldM (\<lambda>_ _. f) s xs = Inr s'"
  by (induction xs arbitrary: s) auto

lemma genes_mix_product: "genes_mix a b = genes_product a b"
proof (cases "genes_product a b")
  case (Inl e)
  then show ?thesis by (simp add: genes_mix_def upt_rec)
next
  case (Inr r)
  with foldM_const [OF Inr, of 0 "[0..<6]"] show ?thesis by (auto simp: genes_mix_def simp del: upt_Suc)
qed

section \<open>Pixels\<close>

text \<open>The index of a pixel always fits, and two pixels never share one.\<close>

text \<open>The owner of a pixel, and what an occupation does to all of them.\<close>

definition pixel_owner :: "GlobalStorage \<Rightarrow> AccountAddress \<Rightarrow> u16 \<Rightarrow> u16 \<Rightarrow> AccountAddress option" where
  "pixel_owner s global x y =
     (case (LandStore s global, pixel_index x y) of
        (Some land, Inr i) \<Rightarrow> map_option land_owner (land i)
      | _ \<Rightarrow> None)"

lemma pixel_occupy_ok:
  assumes "LandStore s global \<noteq> None"
  shows "\<exists>s'. pixel_occupy addr global x y s = Inr s' \<and> LandStore s' global \<noteq> None \<and>
    (\<forall>x' y'. pixel_owner s' global x' y' =
      (if pixel_owner s global x' y' = None \<and> x' = x \<and> y' = y then Some addr else pixel_owner s global x' y'))"
proof -
  from assms obtain land where land: "LandStore s global = Some land" by blast
  obtain j where j: "pixel_index x y = Inr j" using pixel_index_ok by blast
  have owner: "pixel_owner s global x' y' = map_option land_owner (land i)" if "pixel_index x' y' = Inr i" for x' y' i
    using that land by (simp add: pixel_owner_def)
  show ?thesis
  proof (cases "land j")
    case None
    let ?s = "s\<lparr>LandStore := (LandStore s)(global \<mapsto> land(j \<mapsto> \<lparr> land_flag = True, land_owner = addr \<rparr>))\<rparr>"
    have "pixel_owner ?s global x' y' =
      (if pixel_owner s global x' y' = None \<and> x' = x \<and> y' = y then Some addr else pixel_owner s global x' y')" for x' y'
    proof -
      obtain i where i: "pixel_index x' y' = Inr i" using pixel_index_ok by blast
      show ?thesis
      proof (cases "i = j")
        case True
        with pixel_index_inj [OF i] j have "x' = x" "y' = y" by simp_all
        with True None i owner [OF i] show ?thesis by (simp add: pixel_owner_def)
      next
        case False
        with i j have "\<not> (x' = x \<and> y' = y)" by auto
        with False i owner [OF i] show ?thesis by (simp add: pixel_owner_def)
      qed
    qed
    moreover have "pixel_occupy addr global x y s = Inr ?s" using j land None by (simp add: pixel_occupy_def table_add_def)
    ultimately show ?thesis by simp
  next
    case (Some l)
    with j land have "pixel_occupy addr global x y s = Inr s" by (simp add: pixel_occupy_def)
    moreover have "pixel_owner s global x y \<noteq> None" using Some owner [OF j] by simp
    ultimately show ?thesis using assms by auto
  qed
qed

section \<open>Ballots\<close>

text \<open>\<open>max_weight\<close> starts at zero and no weight is below zero: the first proposal always wins.\<close>

lemma pick_winner_zero: "pick_winner vs i w 0 = w"
  by (induction vs arbitrary: i) simp_all

text \<open>The weights of a forum as numbers, and the effect of a vote on them.\<close>

definition weights :: "GlobalStorage \<Rightarrow> AccountAddress \<Rightarrow> nat list" where
  "weights s forum = (case Proposals s forum of None \<Rightarrow> [] | Some ps \<Rightarrow> map (\<lambda>p. unat (totalVotedWeight p)) ps)"

lemma ballot_vote_ok:
  assumes "unat i < length (weights s forum)" and "weights s forum ! unat i + 1 < 2 ^ 64"
  shows "\<exists>s'. ballot_vote forum i s = Inr s' \<and>
    weights s' = (weights s)(forum := (weights s forum)[unat i := weights s forum ! unat i + 1])"
proof -
  from assms(1) obtain ps where ps: "Proposals s forum = Some ps" "unat i < length ps"
    by (cases "Proposals s forum") (auto simp: weights_def)
  with assms(2) obtain w where w: "add_c (totalVotedWeight (ps ! unat i)) 1 = Inr w"
    "unat w = unat (totalVotedWeight (ps ! unat i)) + 1" by (auto simp: weights_def add_c_def unat_word_ariths)
  with ps show ?thesis by (auto simp: ballot_vote_def weights_def map_update fun_eq_iff)
qed

section \<open>Kitties\<close>

text \<open>
  The registry of a global account: every listed kitty has an owner whose table has it, with genes
  that the square root accepts.
\<close>

definition registry_ok :: "AccountAddress \<Rightarrow> GlobalStorage \<Rightarrow> bool" where
  "registry_ok global s \<longleftrightarrow>
     (\<exists>ks. AllKitties s global = Some ks \<and> Newborns s global \<noteq> None \<and>
       (\<forall>i < length ks. \<exists>t k. MyKitties s (info_owner (ks ! i)) = Some t \<and> t (word_of_nat i) = Some k \<and> kitty_genes k \<noteq> -1))"

definition registry_size :: "AccountAddress \<Rightarrow> GlobalStorage \<Rightarrow> nat" where
  "registry_size global s = (case AllKitties s global of None \<Rightarrow> 0 | Some ks \<Rightarrow> length ks)"

text \<open>The newborn of a breed gets its genes as its id.\<close>

lemma kitty_breed_eq_Inr:
  assumes "kitty_breed owner global m s1 gender s = Inr s'"
  obtains ks tm ts matron sire genes t n where
    "AllKitties s global = Some ks" "unat m < length ks" "unat s1 < length ks"
    "MyKitties s (info_owner (ks ! unat m)) = Some tm" "tm m = Some matron"
    "MyKitties s (info_owner (ks ! unat s1)) = Some ts" "ts s1 = Some sire"
    "genes_mix (kitty_genes matron) (kitty_genes sire) = Inr genes"
    "MyKitties s owner = Some t" "t genes = None"
    "MyKitties s' = (MyKitties s)(owner \<mapsto> t(genes \<mapsto> \<lparr> kitty_id = genes, kitty_genes = genes, m_id = m, s_id = s1 \<rparr>))"
    "AllKitties s' = AllKitties s" "Newborns s' = (Newborns s)(global \<mapsto> n)"
  using assms by (auto simp: kitty_breed_def add_new_kitty_def)

text \<open>A second breed of the same parents by the same account finds the id taken.\<close>

lemma kitty_breed_again:
  assumes "kitty_breed owner global m s1 gender s = Inr s'"
  shows "kitty_breed owner global m s1 gender' s' = Inl TableAlreadyExists"
proof -
  from assms obtain ks tm ts matron sire genes t n where
    k: "AllKitties s global = Some ks" "unat m < length ks" "unat s1 < length ks"
      "MyKitties s (info_owner (ks ! unat m)) = Some tm" "tm m = Some matron"
      "MyKitties s (info_owner (ks ! unat s1)) = Some ts" "ts s1 = Some sire"
      "genes_mix (kitty_genes matron) (kitty_genes sire) = Inr genes"
      "MyKitties s owner = Some t" "t genes = None"
      "MyKitties s' = (MyKitties s)(owner \<mapsto> t(genes \<mapsto> \<lparr> kitty_id = genes, kitty_genes = genes, m_id = m, s_id = s1 \<rparr>))"
      "AllKitties s' = AllKitties s" "Newborns s' = (Newborns s)(global \<mapsto> n)" by (rule kitty_breed_eq_Inr)
  have same: "\<exists>t'. MyKitties s' (info_owner (ks ! unat i)) = Some t' \<and> t' i = Some kt"
    if "MyKitties s (info_owner (ks ! unat i)) = Some u" "u i = Some kt" for i u kt
    using that k(9,10,11) by (cases "info_owner (ks ! unat i) = owner") auto
  from same [OF k(4,5)] same [OF k(6,7)] obtain tm' ts' where
    p: "MyKitties s' (info_owner (ks ! unat m)) = Some tm'" "tm' m = Some matron"
      "MyKitties s' (info_owner (ks ! unat s1)) = Some ts'" "ts' s1 = Some sire" by blast
  have "MyKitties s' owner = Some (t(genes \<mapsto> \<lparr> kitty_id = genes, kitty_genes = genes, m_id = m, s_id = s1 \<rparr>))" using k(11) by simp
  then have "add_new_kitty owner genes genes m s1 s' = Inl TableAlreadyExists"
    by (simp add: add_new_kitty_def table_add_def)
  with k(1,2,3,8,12) p show ?thesis by (simp add: kitty_breed_def table_borrow_def)
qed


text \<open>
  A breed of two listed kitties by an account with a table: it succeeds and keeps the registry, or
  it finds the id taken. No other abort is possible.
\<close>

definition newborn_count :: "AccountAddress \<Rightarrow> GlobalStorage \<Rightarrow> nat" where
  "newborn_count global s = (case Newborns s global of None \<Rightarrow> 0 | Some n \<Rightarrow> unat n)"

lemma kitty_breed_cases:
  assumes "registry_ok global s" and "unat m < registry_size global s" and "unat s1 < registry_size global s"
    and "MyKitties s owner \<noteq> None" and "newborn_count global s + 1 < 2 ^ 64"
  shows "kitty_breed owner global m s1 gender s = Inl TableAlreadyExists \<or>
    (\<exists>s'. kitty_breed owner global m s1 gender s = Inr s' \<and> registry_ok global s' \<and>
      registry_size global s' = registry_size global s \<and> dom (MyKitties s') = dom (MyKitties s) \<and>
      newborn_count global s' = newborn_count global s + 1)"
proof -
  from assms(1) obtain ks where ks: "AllKitties s global = Some ks"
    and held: "\<And>i. i < length ks \<Longrightarrow> \<exists>t k. MyKitties s (info_owner (ks ! i)) = Some t \<and> t (word_of_nat i) = Some k \<and> kitty_genes k \<noteq> -1"
    unfolding registry_ok_def by blast
  from assms(1) obtain n where n: "Newborns s global = Some n" unfolding registry_ok_def by blast
  have ids: "unat m < length ks" "unat s1 < length ks" using assms(2,3) ks by (simp_all add: registry_size_def)
  from held [OF ids(1)] held [OF ids(2)] obtain tm matron ts sire where
    p: "MyKitties s (info_owner (ks ! unat m)) = Some tm" "tm m = Some matron" "kitty_genes matron \<noteq> -1"
      "MyKitties s (info_owner (ks ! unat s1)) = Some ts" "ts s1 = Some sire" "kitty_genes sire \<noteq> -1" by auto
  obtain genes where genes: "genes_mix (kitty_genes matron) (kitty_genes sire) = Inr genes"
    using genes_product_ok [of 32, OF _ p(3,6)] by (auto simp: genes_mix_product)
  from assms(4) obtain t where t: "MyKitties s owner = Some t" by blast
  have breed: "kitty_breed owner global m s1 gender s =
      rbind (add_new_kitty owner genes genes m s1 s) (\<lambda>s'.
      rbind (borrow_global (Newborns s') global) (\<lambda>n.
      rbind (arith (add_c n 1)) (\<lambda>n'. Inr (s'\<lparr>Newborns := (Newborns s')(global \<mapsto> n')\<rparr>))))"
    using ks ids p genes by (simp add: kitty_breed_def table_borrow_def)
  show ?thesis
  proof (cases "t genes")
    case (Some k)
    with t breed show ?thesis by (simp add: add_new_kitty_def table_add_def)
  next
    case None
    let ?t = "t(genes \<mapsto> \<lparr> kitty_id = genes, kitty_genes = genes, m_id = m, s_id = s1 \<rparr>)"
    obtain n' where n': "add_c n 1 = Inr n'" "unat n' = unat n + 1"
      using assms(5) n by (auto simp: newborn_count_def add_c_def unat_word_ariths)
    let ?s = "s\<lparr>MyKitties := (MyKitties s)(owner \<mapsto> ?t), Newborns := (Newborns s)(global \<mapsto> n')\<rparr>"
    have "kitty_breed owner global m s1 gender s = Inr ?s"
      unfolding breed using t None n n'(1) by (simp add: add_new_kitty_def table_add_def)
    moreover have "\<exists>t' k. MyKitties ?s (info_owner (ks ! i)) = Some t' \<and> t' (word_of_nat i) = Some k \<and> kitty_genes k \<noteq> -1"
      if "i < length ks" for i
      using held [OF that] t None by (cases "info_owner (ks ! i) = owner") auto
    then have "registry_ok global ?s" using ks by (simp add: registry_ok_def)
    moreover have "dom (MyKitties ?s) = dom (MyKitties s)" using t by auto
    ultimately show ?thesis using n n'(2) by (simp add: registry_size_def newborn_count_def)
  qed
qed

text \<open>While kitties are only minted, the tables have no id beyond the registry.\<close>

definition minted_only :: "AccountAddress \<Rightarrow> GlobalStorage \<Rightarrow> bool" where
  "minted_only global s \<longleftrightarrow> registry_ok global s \<and>
     (\<forall>a t k. MyKitties s a = Some t \<longrightarrow> t k \<noteq> None \<longrightarrow> unat k < registry_size global s)"

lemma kitty_mint_ok:
  assumes "minted_only global s" and "registry_size global s < 2 ^ 64" and "genes \<noteq> -1"
  shows "\<exists>s'. kitty_mint addr global genes gender s = Inr s' \<and> minted_only global s' \<and>
    registry_size global s' = registry_size global s + 1 \<and> dom (MyKitties s') = insert addr (dom (MyKitties s)) \<and>
    newborn_count global s' = newborn_count global s"
proof -
  from assms(1) obtain ks where ks: "AllKitties s global = Some ks"
    and held: "\<And>i. i < length ks \<Longrightarrow> \<exists>t k. MyKitties s (info_owner (ks ! i)) = Some t \<and> t (word_of_nat i) = Some k \<and> kitty_genes k \<noteq> -1"
    unfolding registry_ok_def minted_only_def by blast
  from assms(1) obtain n where n: "Newborns s global = Some n" unfolding registry_ok_def minted_only_def by blast
  have below: "\<And>a t k. MyKitties s a = Some t \<Longrightarrow> t k \<noteq> None \<Longrightarrow> unat k < length ks"
    using assms(1) ks unfolding minted_only_def registry_size_def by simp
  let ?id = "word_of_nat (length ks) :: u64" and ?no = "2 ^ 32 - 1 :: u64"
  have id: "unat ?id = length ks" using assms(2) ks by (simp add: registry_size_def unat_of_nat)
  define t where "t = (case MyKitties s addr of None \<Rightarrow> Map.empty | Some t \<Rightarrow> t)"
  have fresh: "t k \<noteq> None \<Longrightarrow> unat k < length ks" for k
    using below [of addr t k] by (cases "MyKitties s addr") (auto simp: t_def)
  then have none: "t ?id = None" using id by (metis less_irrefl)
  let ?t = "t(?id \<mapsto> \<lparr> kitty_id = ?id, kitty_genes = genes, m_id = ?no, s_id = ?no \<rparr>)"
    and ?ks = "ks @ [\<lparr> info_gender = gender, info_owner = addr \<rparr>]"
  let ?s = "s\<lparr>AllKitties := (AllKitties s)(global \<mapsto> ?ks), MyKitties := (MyKitties s)(addr \<mapsto> ?t)\<rparr>"
  have mint: "kitty_mint addr global genes gender s = Inr ?s"
    using ks none by (cases "MyKitties s addr")
      (simp_all add: kitty_mint_def kitty_create_def add_new_kitty_def move_to_def table_add_def t_def borrow_global_def)
  have "\<exists>t' k. MyKitties ?s (info_owner (?ks ! i)) = Some t' \<and> t' (word_of_nat i) = Some k \<and> kitty_genes k \<noteq> -1"
    if "i < length ?ks" for i
  proof (cases "i = length ks")
    case True
    with assms(3) show ?thesis by simp
  next
    case False
    with that have i: "i < length ks" by simp
    from held [OF i] obtain t' k where k: "MyKitties s (info_owner (ks ! i)) = Some t'" "t' (word_of_nat i) = Some k" "kitty_genes k \<noteq> -1" by blast
    have "(word_of_nat i :: u64) \<noteq> ?id"
      using i id assms(2) ks by (metis below k(1,2) nat_less_le option.simps(3))
    with i k show ?thesis by (cases "info_owner (ks ! i) = addr") (auto simp: nth_append t_def)
  qed
  then have "registry_ok global ?s" using n by (simp add: registry_ok_def)
  moreover have "\<forall>a t' k. MyKitties ?s a = Some t' \<longrightarrow> t' k \<noteq> None \<longrightarrow> unat k < Suc (length ks)"
    using below fresh id by (auto simp: less_Suc_eq split: if_splits)
  ultimately show ?thesis using mint ks n by (auto simp: minted_only_def registry_size_def newborn_count_def)
qed

lemma kitty_initialize_ok:
  assumes "AllKitties s global = None" and "Newborns s global = None" and "MyKitties s = Map.empty"
  shows "\<exists>s'. kitty_initialize global s = Inr s' \<and> minted_only global s' \<and> registry_size global s' = 0 \<and>
    dom (MyKitties s') = {} \<and> newborn_count global s' = 0"
  using assms by (simp add: kitty_initialize_def move_to_def minted_only_def registry_ok_def registry_size_def newborn_count_def)


end
