(* ===== verification/Contract_Results.thy ===== *)
theory Contract_Results
  imports Simulator_Results Aptos_Contracts
begin

text \<open>
  The workloads of the simulator on the Move contracts: what the transactions that
  \<^verbatim>\<open>simulator.rs\<close> builds do when the entry functions of \<^verbatim>\<open>move-contracts\<close> execute them one after the
  other. Random numbers are only assumed to be in the range that was asked for.
\<close>

section \<open>What the workloads send\<close>

definition draw_ok :: "(nat \<Rightarrow> nat \<Rightarrow> 'g \<Rightarrow> nat \<times> 'g) \<Rightarrow> bool" where
  "draw_ok draw \<longleftrightarrow> (\<forall>lo hi g. lo < hi \<longrightarrow> lo \<le> fst (draw lo hi g) \<and> fst (draw lo hi g) < hi)"

lemma gen_range_in:
  assumes "draw_ok draw" and "gen_range draw lo hi g = Inr (r, g')"
  shows "lo \<le> r \<and> r < hi"
proof (cases "lo < hi")
  case True
  then have "lo \<le> fst (draw lo hi g) \<and> fst (draw lo hi g) < hi" using assms(1) unfolding draw_ok_def by blast
  with True assms(2) show ?thesis by (simp add: gen_range_def)
qed (use assms(2) in \<open>simp add: gen_range_def\<close>)

abbreviation addresses :: "AccountUniverse \<Rightarrow> AccountAddress list" where
  "addresses u \<equiv> map (\<lambda>a. address (account a)) (accounts u)"

lemma send_from_eq:
  assumes "send_from i mk u = Inr (txn, u')"
  shows "i < length (accounts u) \<and> txn = mk (accounts u ! i) \<and> map account (accounts u') = map account (accounts u)"
  using assms by (auto simp: send_from_def increase_account_sequence_number_def map_update account_def list_update_same_conv)

lemma addresses_eq: "map account (accounts u') = map account (accounts u) \<Longrightarrow> addresses u' = addresses u"
  by (drule arg_cong [where f = "map address"]) (simp add: comp_def)

lemma send_from_addresses: "send_from i mk u = Inr (txn, u') \<Longrightarrow> addresses u' = addresses u"
  by (rule addresses_eq) (simp add: send_from_eq)

text \<open>A loop over accounts gives the transactions of the accounts it started with.\<close>

lemma send_each_eq:
  assumes "\<And>i a n. call (mk i (a\<lparr>sequence_number := n\<rparr>)) = call (mk i a)"
    and "send_each mk is u = Inr (txns, u')"
  shows "map call txns = map (\<lambda>i. call (mk i (accounts u ! i))) is \<and> (\<forall>i \<in> set is. i < length (accounts u)) \<and> addresses u' = addresses u"
  using assms(2)
proof (induction "is" arbitrary: u txns)
  case (Cons i "is")
  from Cons.prems obtain txn u1 txns' where one: "send_from i (mk i) u = Inr (txn, u1)"
    and rest: "send_each mk is u1 = Inr (txns', u')" and txns: "txns = txn # txns'" by auto
  from one obtain n where u1: "i < length (accounts u)" "txn = mk i (accounts u ! i)"
    "u1 = u\<lparr>accounts := (accounts u)[i := (accounts u ! i)\<lparr>sequence_number := n\<rparr>]\<rparr>"
    by (auto simp: send_from_def increase_account_sequence_number_def)
  have "call (mk j (accounts u1 ! j)) = call (mk j (accounts u ! j))" for j
    using assms(1) u1(1) by (cases "j = i") (simp_all add: u1(3))
  with Cons.IH [OF rest] u1 send_from_addresses [OF one] show ?case by (simp add: txns)
qed simp

text \<open>A repeated step: what holds of every single transaction holds of all.\<close>

lemma send_times_all:
  assumes "\<And>u g txn u' g'. addresses u = as \<Longrightarrow> step u g = Inr (txn, u', g') \<Longrightarrow> P txn \<and> addresses u' = as"
    and "addresses u = as" and "send_times step m u g = Inr (txns, u', g')"
  shows "(\<forall>txn \<in> set txns. P txn) \<and> length txns = m \<and> addresses u' = as"
  using assms(2,3)
proof (induction m arbitrary: u g txns)
  case (Suc m)
  from Suc.prems(2) obtain txn u1 g1 txns' where one: "step u g = Inr (txn, u1, g1)"
    and rest: "send_times step m u1 g1 = Inr (txns', u', g')" and txns: "txns = txn # txns'" by auto
  from assms(1) [OF Suc.prems(1) one] Suc.IH [OF _ rest] show ?case by (simp add: txns)
qed simp

abbreviation call_of :: "SignedTransaction \<Rightarrow> AccountAddress \<times> payload" where
  "call_of txn \<equiv> (address (txn_sender txn), txn_payload txn)"

lemma run_contracts_Cons:
  "run_contracts framework (txn # txns) s = rbind (execute_signed framework s txn) (run_contracts framework txns)"
  by (cases "execute_signed framework s txn") (simp_all add: run_contracts_def)

lemma run_contracts_append:
  "run_contracts framework (xs @ ys) s = rbind (run_contracts framework xs s) (run_contracts framework ys)"
  by (cases "run_contracts framework xs s") (simp_all add: run_contracts_def foldM_append)

text \<open>A run of transactions that all keep an invariant and succeed under it.\<close>

lemma run_contracts_total:
  assumes "\<And>s txn. I s \<Longrightarrow> txn \<in> set txns \<Longrightarrow> \<exists>s'. execute_signed framework s txn = Inr s' \<and> I s'" and "I s"
  shows "\<exists>s'. run_contracts framework txns s = Inr s' \<and> I s'"
  unfolding run_contracts_def by (rule foldM_total) (use assms in auto)

section \<open>Airdrop\<close>

definition airdrop_call :: "AccountAddress list \<Rightarrow> SignedTransaction \<Rightarrow> bool" where
  "airdrop_call as txn \<longleftrightarrow> (\<exists>rs. txn_payload txn = xtl_airdrop_transfer_n rs \<and> length rs = 5 \<and> set rs \<subseteq> set as \<and>
     address (txn_sender txn) \<in> set as)"

lemma draw_receivers_in:
  "draw_receivers draw n u k g = Inr (rs, g') \<Longrightarrow> length rs = k \<and> set rs \<subseteq> set (addresses u)"
  by (induction draw n u k g arbitrary: rs rule: draw_receivers.induct) (auto, force)

lemma airdrop_step_call:
  assumes "addresses u = as" and "airdrop_step draw n u g = Inr (txn, u', g')"
  shows "airdrop_call as txn \<and> addresses u' = as"
proof -
  from assms(2) obtain i rs g1 g2 where rs: "draw_receivers draw n u 5 g1 = Inr (rs, g2)"
    and send: "send_from i (\<lambda>sender. airdrop_transfer_txn (account sender) rs (sequence_number sender) 100) u = Inr (txn, u')"
    by (auto simp: airdrop_step_def)
  from send_from_eq [OF send] draw_receivers_in [OF rs] send_from_addresses [OF send] show ?thesis
    unfolding assms(1) [symmetric] by (simp add: airdrop_call_def airdrop_transfer_txn_def signed_def)
qed

lemma airdrop_initialize_run:
  assumes "distinct as" and "set as \<inter> dom (CoinStore s) = {}" and "finite (dom (CoinStore s))"
    and "map call_of txns = map (\<lambda>a. (a, xtl_airdrop_initialize amt)) as"
  shows "\<exists>m. run_contracts framework txns s = Inr (s\<lparr>CoinStore := m\<rparr>) \<and> dom m = dom (CoinStore s) \<union> set as \<and>
    coin_total (s\<lparr>CoinStore := m\<rparr>) = coin_total s + length as * unat amt"
  using assms
proof (induction as arbitrary: txns s)
  case Nil
  then show ?case by (intro exI [of _ "CoinStore s"]) (simp add: run_contracts_def)
next
  case (Cons a as)
  from Cons.prems(4) obtain txn txns' where txns: "txns = txn # txns'" "call_of txn = (a, xtl_airdrop_initialize amt)"
    "map call_of txns' = map (\<lambda>a. (a, xtl_airdrop_initialize amt)) as" by (cases txns) auto
  let ?s = "s\<lparr>CoinStore := (CoinStore s)(a \<mapsto> amt)\<rparr>"
  have a: "CoinStore s a = None" using Cons.prems(2) by auto
  have step: "execute_signed framework s txn = Inr ?s"
    using txns(2) a by (simp add: execute_signed_def execute_payload_def airdrop_initialize_def move_to_def)
  have "coin_total ?s = coin_total s + unat amt"
    using a Cons.prems(3) by (simp add: coin_total_def domIff sum.insert) (rule sum.cong, auto)
  moreover have dom: "dom (CoinStore ?s) = insert a (dom (CoinStore s))" by simp
  have "distinct as" "set as \<inter> dom (CoinStore ?s) = {}" "finite (dom (CoinStore ?s))" using Cons.prems unfolding dom by auto
  from Cons.IH [OF this txns(3)] obtain m where
    "run_contracts framework txns' ?s = Inr (?s\<lparr>CoinStore := m\<rparr>)" "dom m = dom (CoinStore ?s) \<union> set as"
    "coin_total (?s\<lparr>CoinStore := m\<rparr>) = coin_total ?s + length as * unat amt" by blast
  ultimately show ?case using step unfolding dom by (intro exI [of _ m]) (simp add: txns(1) run_contracts_Cons)
qed

lemma transfer_calls_run:
  assumes "\<forall>txn \<in> set txns. airdrop_call as txn" and "finite (dom (CoinStore s))" and "coin_total s < 2 ^ 64"
    and "set as \<subseteq> dom (CoinStore s)"
  shows "\<exists>s'. run_contracts framework txns s = Inr s' \<and> dom (CoinStore s') = dom (CoinStore s) \<and> coin_total s' = coin_total s"
proof (rule run_contracts_total [where I = "\<lambda>s'. dom (CoinStore s') = dom (CoinStore s) \<and> coin_total s' = coin_total s"])
  fix s' txn
  assume inv: "dom (CoinStore s') = dom (CoinStore s) \<and> coin_total s' = coin_total s" and "txn \<in> set txns"
  with assms(1) obtain rs where rs: "txn_payload txn = xtl_airdrop_transfer_n rs" "length rs = 5" "set rs \<subseteq> set as"
    "address (txn_sender txn) \<in> set as" by (auto simp: airdrop_call_def)
  have "CoinStore s' (address (txn_sender txn)) \<noteq> None" "set rs \<subseteq> dom (CoinStore s')"
    using inv assms(4) rs(3,4) by (auto simp: domIff)
  from transfer_n_ok [OF _ _ this] inv assms(2,3) rs(2) obtain m where
    "transfer_n (address (txn_sender txn)) rs s' = Inr (s'\<lparr>CoinStore := m\<rparr>)" "dom m = dom (CoinStore s')"
    "coin_total (s'\<lparr>CoinStore := m\<rparr>) = coin_total s'" by auto
  with inv rs(1) show "\<exists>s''. execute_signed framework s' txn = Inr s'' \<and> dom (CoinStore s'') = dom (CoinStore s) \<and> coin_total s'' = coin_total s"
    by (simp add: execute_signed_def execute_payload_def)
qed simp

text \<open>What \<open>run_airdrop\<close> sends: first the initialisations, then the transfers.\<close>

definition airdrop_initial where
  "airdrop_initial u = send_each (\<lambda>i sender. airdrop_initialize_txn (account sender) 1000000000 (sequence_number sender) 100)
     [0..<num_accounts u] u"

lemma airdrop_initial_calls:
  assumes "airdrop_initial u = Inr (txns, u')"
  shows "map call_of txns = map (\<lambda>a. (a, xtl_airdrop_initialize 1000000000)) (addresses u) \<and> addresses u' = addresses u"
proof -
  have "map call_of txns = map (\<lambda>i. (address (account (accounts u ! i)), xtl_airdrop_initialize 1000000000)) [0..<num_accounts u] \<and>
      addresses u' = addresses u"
    using send_each_eq [OF _ assms [unfolded airdrop_initial_def], of call_of]
    by (simp add: airdrop_initialize_txn_def signed_def account_def)
  moreover have "map (\<lambda>i. (address (account (accounts u ! i)), xtl_airdrop_initialize 1000000000)) [0..<num_accounts u] =
      map (\<lambda>a. (a, xtl_airdrop_initialize 1000000000)) (addresses u)"
    by (rule nth_equalityI) (simp_all add: num_accounts_def)
  ultimately show ?thesis by simp
qed

text \<open>
  C16. The airdrop workload on its contract: if the accounts have different addresses and the coins
  of all of them fit in 64 bits, every transaction of the workload succeeds, whatever receivers are
  drawn and even if a sender draws itself, and at the end there are exactly the coins that the
  initialisations made.
\<close>

theorem airdrop_workload_conserves:
  assumes "distinct (addresses u)" and "CoinStore s = Map.empty" and "num_accounts u * 1000000000 < 2 ^ 64"
    and "airdrop_initial u = Inr (init_txns, u1)"
    and "send_times (airdrop_step draw (num_accounts u1)) m u1 g = Inr (txns, u2, g')"
  shows "\<exists>s'. run_contracts framework (init_txns @ txns) s = Inr s' \<and> length txns = m \<and>
    dom (CoinStore s') = set (addresses u) \<and> coin_total s' = num_accounts u * 1000000000"
proof -
  note init = airdrop_initial_calls [OF assms(4)]
  have "coin_total s = 0" using assms(2) by (simp add: coin_total_def)
  with airdrop_initialize_run [OF assms(1), of s init_txns 1000000000 framework] init assms(2) obtain coins where
    run: "run_contracts framework init_txns s = Inr (s\<lparr>CoinStore := coins\<rparr>)" "dom coins = set (addresses u)"
      "coin_total (s\<lparr>CoinStore := coins\<rparr>) = num_accounts u * 1000000000" by (auto simp: num_accounts_def)
  have calls: "(\<forall>txn \<in> set txns. airdrop_call (addresses u) txn) \<and> length txns = m \<and> addresses u2 = addresses u"
    by (rule send_times_all [OF airdrop_step_call conjunct2 [OF init] assms(5)])
  with transfer_calls_run [of txns "addresses u" "s\<lparr>CoinStore := coins\<rparr>" framework] run assms(3) show ?thesis
    by (simp add: run_contracts_append)
qed

section \<open>Ballot\<close>

definition vote_call :: "AccountAddress \<Rightarrow> SignedTransaction \<Rightarrow> bool" where
  "vote_call forum txn \<longleftrightarrow> (\<exists>i. txn_payload txn = xtl_ballot_vote forum i \<and> unat i < 3)"

definition votes_for :: "nat \<Rightarrow> SignedTransaction list \<Rightarrow> nat" where
  "votes_for k txns = length (filter (\<lambda>txn. \<exists>forum i. txn_payload txn = xtl_ballot_vote forum i \<and> unat i = k) txns)"

lemma votes_for_le: "votes_for k txns \<le> length txns"
  by (simp add: votes_for_def)

lemma vote_calls_run:
  assumes "\<forall>txn \<in> set txns. vote_call forum txn" and "weights s forum = [a, b, c]"
    and "a + length txns < 2 ^ 64" and "b + length txns < 2 ^ 64" and "c + length txns < 2 ^ 64"
  shows "\<exists>s'. run_contracts framework txns s = Inr s' \<and>
    weights s' forum = [a + votes_for 0 txns, b + votes_for 1 txns, c + votes_for 2 txns]"
  using assms
proof (induction txns arbitrary: s a b c)
  case Nil
  then show ?case by (simp add: run_contracts_def votes_for_def)
next
  case (Cons txn txns)
  from Cons.prems(1) obtain i where i: "txn_payload txn = xtl_ballot_vote forum i" "unat i < 3" by (auto simp: vote_call_def)
  from i(2) consider "unat i = 0" | "unat i = 1" | "unat i = 2" by linarith
  then have bound: "weights s forum ! unat i + 1 < 2 ^ 64" using Cons.prems(2-5) by cases simp_all
  from ballot_vote_ok [of i s forum, OF _ bound] i(2) Cons.prems(2) obtain s1 where
    s1: "ballot_vote forum i s = Inr s1" "weights s1 forum = [a, b, c][unat i := [a, b, c] ! unat i + 1]" by auto
  then have step: "execute_signed framework s txn = Inr s1" using i(1) by (simp add: execute_signed_def execute_payload_def)
  have count: "votes_for k (txn # txns) = (if unat i = k then 1 else 0) + votes_for k txns" for k
    using i(1) by (simp add: votes_for_def)
  from \<open>unat i < 3\<close> consider "unat i = 0" | "unat i = 1" | "unat i = 2" by linarith
  then show ?case
  proof cases
    case 1
    then show ?thesis using Cons.IH [of s1 "a + 1" b c] Cons.prems s1(2) step count by (simp add: run_contracts_Cons)
  next
    case 2
    then show ?thesis using Cons.IH [of s1 a "b + 1" c] Cons.prems s1(2) step count by (simp add: run_contracts_Cons)
  next
    case 3
    then show ?thesis using Cons.IH [of s1 a b "c + 1"] Cons.prems s1(2) step count by (simp add: run_contracts_Cons)
  qed
qed

lemma ballot_step_call:
  assumes "draw_ok draw" and "addresses u = as" and "ballot_step draw n u g = Inr (txn, u', g')"
  shows "vote_call (as ! 0) txn \<and> addresses u' = as"
proof -
  from assms(3) obtain p i g1 g2 where p: "gen_range draw 0 3 g = Inr (p, g1)" and u: "accounts u \<noteq> []"
    and send: "send_from (1 + i) (\<lambda>sender. ballot_vote_txn (account sender) (address (account (accounts u ! 0)))
              (word_of_nat p) (sequence_number sender) 100) u = Inr (txn, u')"
    by (auto simp: ballot_step_def)
  have "p < 3" using gen_range_in [OF assms(1) p] by simp
  then have "unat (word_of_nat p :: u64) < 3" by (simp add: unat_of_nat)
  with send_from_eq [OF send] send_from_addresses [OF send] u show ?thesis
    unfolding assms(2) [symmetric] by (simp add: vote_call_def ballot_vote_txn_def signed_def)
qed


lemma votes_for_sum: "\<forall>txn \<in> set txns. vote_call forum txn \<Longrightarrow> votes_for 0 txns + votes_for 1 txns + votes_for 2 txns = length txns"
proof (induction txns)
  case (Cons txn txns)
  then obtain i where i: "txn_payload txn = xtl_ballot_vote forum i" "unat i < 3" by (auto simp: vote_call_def)
  from i(2) consider "unat i = 0" | "unat i = 1" | "unat i = 2" by linarith
  then show ?case using Cons i(1) by cases (simp_all add: votes_for_def)
qed (simp add: votes_for_def)

text \<open>
  C19. The ballot workload on its contract: the first account opens a forum with three proposals,
  every vote succeeds, and at the end the weight of each proposal is the number of votes sent for
  it, so that no vote is lost or counted twice.
\<close>

theorem ballot_workload_counts:
  assumes "draw_ok draw" and "Proposals s (addresses u ! 0) = None" and "m < 2 ^ 64"
    and "send_from 0 ballot_init u = Inr (init_txn, u1)"
    and "send_times (ballot_step draw (num_accounts u)) m u1 g = Inr (txns, u2, g')"
  shows "\<exists>s'. run_contracts framework (init_txn # txns) s = Inr s' \<and>
    weights s' (addresses u ! 0) = [votes_for 0 txns, votes_for 1 txns, votes_for 2 txns] \<and>
    sum_list (weights s' (addresses u ! 0)) = m"
proof -
  let ?forum = "addresses u ! 0"
  note init = send_from_eq [OF assms(4)]
  let ?s = "s\<lparr>Proposals := (Proposals s)(?forum \<mapsto> map (\<lambda>name. \<lparr> proposal_name = name, totalVotedWeight = 0 \<rparr>) proposals)\<rparr>"
  have step: "execute_signed framework s init_txn = Inr ?s"
    using init assms(2)
    by (simp add: execute_signed_def execute_payload_def ballot_init_def ballot_initialize_txn_def signed_def
        ballot_initialize_def move_to_def)
  have zero: "weights ?s ?forum = [0, 0, 0]" by (simp add: weights_def proposals_def)
  have calls: "(\<forall>txn \<in> set txns. vote_call ?forum txn) \<and> length txns = m \<and> addresses u2 = addresses u"
    by (rule send_times_all [OF ballot_step_call [OF assms(1)] send_from_addresses [OF assms(4)] assms(5)])
  with vote_calls_run [OF _ zero, of txns framework] assms(3) obtain s' where
    "run_contracts framework txns ?s = Inr s'" "weights s' ?forum = [votes_for 0 txns, votes_for 1 txns, votes_for 2 txns]" by auto
  with step votes_for_sum [of txns ?forum] calls show ?thesis by (simp add: run_contracts_Cons)
qed

text \<open>The tally of a single forum is its list of weights.\<close>

lemma add_weights_zero:
  "add_weights ps (length xs) (xs @ replicate (length ps) 0) = Inr (xs @ map totalVotedWeight ps)"
proof (induction ps arbitrary: xs)
  case (Cons p ps)
  have "add_c (totalVotedWeight p) 0 = Inr (totalVotedWeight p)" using unsigned_less [of "totalVotedWeight p", where 'a = nat] by (simp add: add_c_def)
  with Cons [of "xs @ [totalVotedWeight p]"] show ?case by (simp add: vector_borrow_def)
qed simp

lemma ballot_finalize_single:
  assumes "Proposals s forum = Some ps"
  shows "ballot_finalize [forum] s = Inr 0"
  using assms add_weights_zero [of ps "[]"] by (simp add: ballot_finalize_def vector_borrow_def borrow_global_def add_forum_def pick_winner_zero)

text \<open>
  C40. The tally of a ballot never elects anyone but the first proposal: \<open>finalize\<close> on one open forum
  returns index 0, and whenever it returns on any forums it returns index 0, whatever the weights are.
\<close>

theorem ballot_finalize_first:
  assumes "Proposals s forum = Some ps"
  shows "ballot_finalize [forum] s = Inr 0 \<and> (\<forall>forums winer. ballot_finalize forums s = Inr winer \<longrightarrow> winer = 0)"
  using ballot_finalize_single [OF assms] by (auto simp: ballot_finalize_def pick_winner_zero)

definition empty_storage :: GlobalStorage where
  "empty_storage = \<lparr> CoinStore = Map.empty, Proposals = Map.empty, AllKitties = Map.empty, MyKitties = Map.empty,
     Newborns = Map.empty, LandStore = Map.empty \<rparr>"

definition decided_ballot :: GlobalStorage where
  "decided_ballot = empty_storage\<lparr>Proposals := [[7] \<mapsto>
     [\<lparr> proposal_name = [97], totalVotedWeight = 0 \<rparr>, \<lparr> proposal_name = [98], totalVotedWeight = 5 \<rparr>]]\<rparr>"

theorem ballot_finalize_first_witness:
  "weights decided_ballot [7] = [0, 5] \<and> ballot_finalize [[7]] decided_ballot = Inr 0"
  using ballot_finalize_first [of decided_ballot "[7]"] by (simp add: weights_def decided_ballot_def)

section \<open>Million pixel\<close>

definition first_occupant :: "AccountAddress \<Rightarrow> u16 \<Rightarrow> u16 \<Rightarrow> SignedTransaction list \<Rightarrow> AccountAddress option" where
  "first_occupant global x y txns =
     map_option (\<lambda>txn. address (txn_sender txn)) (find (\<lambda>txn. txn_payload txn = xtl_million_pixel_occupy global x y) txns)"

definition occupy_call :: "AccountAddress \<Rightarrow> SignedTransaction \<Rightarrow> bool" where
  "occupy_call global txn \<longleftrightarrow> (\<exists>x y. txn_payload txn = xtl_million_pixel_occupy global x y)"

lemma occupy_calls_run:
  assumes "\<forall>txn \<in> set txns. occupy_call global txn" and "LandStore s global \<noteq> None"
  shows "\<exists>s'. run_contracts framework txns s = Inr s' \<and>
    (\<forall>x y. pixel_owner s' global x y =
      (case pixel_owner s global x y of None \<Rightarrow> first_occupant global x y txns | Some a \<Rightarrow> Some a))"
  using assms
proof (induction txns arbitrary: s)
  case Nil
  then show ?case by (auto simp: run_contracts_def first_occupant_def split: option.splits)
next
  case (Cons txn txns)
  from Cons.prems(1) obtain x y where p: "txn_payload txn = xtl_million_pixel_occupy global x y" by (auto simp: occupy_call_def)
  from pixel_occupy_ok [OF Cons.prems(2), of "address (txn_sender txn)" x y] obtain s1 where
    s1: "pixel_occupy (address (txn_sender txn)) global x y s = Inr s1" "LandStore s1 global \<noteq> None"
      "\<And>x' y'. pixel_owner s1 global x' y' = (if pixel_owner s global x' y' = None \<and> x' = x \<and> y' = y
        then Some (address (txn_sender txn)) else pixel_owner s global x' y')" by blast
  have step: "execute_signed framework s txn = Inr s1" using p s1(1) by (simp add: execute_signed_def execute_payload_def)
  from Cons.IH [OF _ s1(2)] Cons.prems(1) obtain s' where
    s': "run_contracts framework txns s1 = Inr s'" "\<And>x y. pixel_owner s' global x y =
      (case pixel_owner s1 global x y of None \<Rightarrow> first_occupant global x y txns | Some a \<Rightarrow> Some a)" by auto
  have "pixel_owner s' global x' y' =
      (case pixel_owner s global x' y' of None \<Rightarrow> first_occupant global x' y' (txn # txns) | Some a \<Rightarrow> Some a)" for x' y'
  proof (cases "x' = x \<and> y' = y")
    case True
    then show ?thesis using p by (simp add: s'(2) s1(3) first_occupant_def split: option.split)
  next
    case False
    then have "txn_payload txn \<noteq> xtl_million_pixel_occupy global x' y'" using p by auto
    moreover have "pixel_owner s1 global x' y' = pixel_owner s global x' y'" using False s1(3) [of x' y'] by auto
    ultimately show ?thesis by (simp add: s'(2) first_occupant_def split: option.split)
  qed
  with step s'(1) show ?case by (simp add: run_contracts_Cons)
qed

lemma occupy_step_call:
  assumes "addresses u = as" and "occupy_step draw n u g = Inr (txn, u', g')"
  shows "occupy_call (as ! 0) txn \<and> addresses u' = as"
proof -
  from assms(2) obtain x y i where u: "accounts u \<noteq> []"
    and send: "send_from (1 + i) (\<lambda>sender. million_pixel_occupy_txn (account sender) (address (account (accounts u ! 0)))
              (word_of_nat x) (word_of_nat y) (sequence_number sender) 100) u = Inr (txn, u')"
    by (auto simp: occupy_step_def)
  from send_from_eq [OF send] send_from_addresses [OF send] u show ?thesis
    unfolding assms(1) [symmetric] by (simp add: occupy_call_def million_pixel_occupy_txn_def signed_def)
qed

text \<open>
  C20. The million-pixel workload on its contract: every transaction succeeds, and every pixel
  belongs to the account that sent the first transaction for it; later ones do not change the owner
  and different pixels never interfere.
\<close>

theorem pixel_workload_owners:
  assumes "LandStore s (addresses u ! 0) = None"
    and "send_from 0 (\<lambda>a. million_pixel_initialize_txn (account a) (sequence_number a) 100) u = Inr (init_txn, u1)"
    and "send_times (occupy_step draw n) m u1 g = Inr (txns, u2, g')"
  shows "\<exists>s'. run_contracts framework (init_txn # txns) s = Inr s' \<and> length txns = m \<and>
    (\<forall>x y. pixel_owner s' (addresses u ! 0) x y = first_occupant (addresses u ! 0) x y txns)"
proof -
  let ?global = "addresses u ! 0"
  let ?s = "s\<lparr>LandStore := (LandStore s)(?global \<mapsto> Map.empty)\<rparr>"
  have step: "execute_signed framework s init_txn = Inr ?s"
    using send_from_eq [OF assms(2)] assms(1)
    by (simp add: execute_signed_def execute_payload_def million_pixel_initialize_txn_def signed_def pixel_initialize_def move_to_def)
  have free: "pixel_owner ?s ?global x y = None" for x y by (simp add: pixel_owner_def split: sum.split)
  have calls: "(\<forall>txn \<in> set txns. occupy_call ?global txn) \<and> length txns = m \<and> addresses u2 = addresses u"
    by (rule send_times_all [OF occupy_step_call send_from_addresses [OF assms(2)] assms(3)])
  with occupy_calls_run [of txns ?global ?s framework] obtain s' where
    "run_contracts framework txns ?s = Inr s'" "\<forall>x y. pixel_owner s' ?global x y =
      (case pixel_owner ?s ?global x y of None \<Rightarrow> first_occupant ?global x y txns | Some a \<Rightarrow> Some a)" by auto
  with step calls show ?thesis by (simp add: run_contracts_Cons free)
qed


section \<open>Kitties\<close>

text \<open>
  The square root of the contracts: Newton's loop ends for every argument, and the result is the
  largest number whose square is at most the argument. Only the largest word aborts, because
  \<open>x + 1\<close> overflows.
\<close>

theorem move_sqrt_spec:
  fixes x :: u64
  shows "case move_sqrt x of Inl e \<Rightarrow> x = -1 \<and> e = ArithmeticError | Inr r \<Rightarrow> unat r ^ 2 \<le> unat x \<and> unat x < (unat r + 1) ^ 2"
proof (cases "unat x + 1 < 2 ^ 64")
  case True
  with move_sqrt_ok [of x] show ?thesis by (auto simp: is_isqrt_def)
next
  case False
  then have "unat x = 2 ^ 64 - 1" using unsigned_less [of x, where 'a = nat] by simp
  then have "x = -1" by (simp add: word_unat_eq_iff unsigned_minus_1_eq_mask mask_eq_exp_minus_1)
  with False show ?thesis by (simp add: move_sqrt_def add_c_def arith_def)
qed

definition mint_call :: "AccountAddress \<Rightarrow> bool \<Rightarrow> SignedTransaction \<Rightarrow> bool" where
  "mint_call global gender txn \<longleftrightarrow> (\<exists>genes. txn_payload txn = xtl_kitty_breeding_mint global genes gender \<and> genes \<noteq> -1)"

definition breed_call :: "AccountAddress \<Rightarrow> AccountAddress set \<Rightarrow> nat \<Rightarrow> SignedTransaction \<Rightarrow> bool" where
  "breed_call global senders n txn \<longleftrightarrow> (\<exists>m s. txn_payload txn = xtl_kitty_breeding_breed global m s False \<and>
     unat m < n \<and> unat s < n \<and> address (txn_sender txn) \<in> senders)"

lemma mint_each_calls:
  assumes "draw_ok draw" and "addresses u = as" and "mint_each draw gender is u g = Inr (txns, u', g')"
  shows "(\<forall>txn \<in> set txns. mint_call (as ! 0) gender txn) \<and> map (\<lambda>t. address (txn_sender t)) txns = map (\<lambda>i. as ! i) is \<and>
    addresses u' = as"
  using assms(2,3)
proof (induction "is" arbitrary: u g txns)
  case (Cons i "is")
  from Cons.prems(2) obtain genes g1 txn u1 txns' where r: "gen_range draw 0 (2 ^ 32 - 1) g = Inr (genes, g1)" and u: "accounts u \<noteq> []"
    and send: "send_from i (\<lambda>sender. kitty_mint_txn (account sender) (address (account (accounts u ! 0))) (word_of_nat genes) gender
              (sequence_number sender) 100) u = Inr (txn, u1)"
    and rest: "mint_each draw gender is u1 g1 = Inr (txns', u', g')" and txns: "txns = txn # txns'" by auto
  have "genes < 2 ^ 32 - 1" using gen_range_in [OF assms(1) r] by simp
  then have "unat (word_of_nat genes :: u64) < 2 ^ 32" by (simp add: unat_of_nat)
  then have genes: "(word_of_nat genes :: u64) \<noteq> -1" by (auto simp: unsigned_minus_1_eq_mask mask_eq_exp_minus_1)
  have as: "addresses u1 = as" using send_from_addresses [OF send] Cons.prems(1) by simp
  have "mint_call (as ! 0) gender txn \<and> address (txn_sender txn) = as ! i"
    using send_from_eq [OF send] u genes unfolding Cons.prems(1) [symmetric] by (simp add: mint_call_def kitty_mint_txn_def signed_def)
  with Cons.IH [OF as rest] show ?case by (simp add: txns)
qed simp

lemma mint_calls_run:
  assumes "\<forall>txn \<in> set txns. mint_call global gender txn" and "minted_only global s"
    and "registry_size global s + length txns < 2 ^ 64"
  shows "\<exists>s'. run_contracts framework txns s = Inr s' \<and> minted_only global s' \<and>
    registry_size global s' = registry_size global s + length txns \<and>
    dom (MyKitties s') = dom (MyKitties s) \<union> (\<lambda>t. address (txn_sender t)) ` set txns \<and> newborn_count global s' = newborn_count global s"
  using assms
proof (induction txns arbitrary: s)
  case (Cons txn txns)
  from Cons.prems(1) obtain genes where p: "txn_payload txn = xtl_kitty_breeding_mint global genes gender" "genes \<noteq> -1"
    by (auto simp: mint_call_def)
  from kitty_mint_ok [OF Cons.prems(2) _ p(2), of "address (txn_sender txn)" gender] Cons.prems(3) obtain s1 where
    s1: "kitty_mint (address (txn_sender txn)) global genes gender s = Inr s1" "minted_only global s1"
      "registry_size global s1 = registry_size global s + 1"
      "dom (MyKitties s1) = insert (address (txn_sender txn)) (dom (MyKitties s))"
      "newborn_count global s1 = newborn_count global s" by auto
  have "execute_signed framework s txn = Inr s1" using p(1) s1(1) by (simp add: execute_signed_def execute_payload_def)
  moreover from Cons.IH [OF _ s1(2)] Cons.prems(1,3) s1(3) obtain s' where "run_contracts framework txns s1 = Inr s'" "minted_only global s'"
    "registry_size global s' = registry_size global s1 + length txns"
    "dom (MyKitties s') = dom (MyKitties s1) \<union> (\<lambda>t. address (txn_sender t)) ` set txns" "newborn_count global s' = newborn_count global s1" by auto
  ultimately show ?case using s1(3-5) by (simp add: run_contracts_Cons)
qed (simp add: run_contracts_def)

lemma breed_calls_run:
  assumes "\<forall>txn \<in> set txns. breed_call global senders n txn" and "registry_ok global s" and "registry_size global s = n"
    and "senders \<subseteq> dom (MyKitties s)" and "newborn_count global s + length txns < 2 ^ 64"
  shows "run_contracts framework txns s = Inl TableAlreadyExists \<or>
    (\<exists>s'. run_contracts framework txns s = Inr s' \<and> newborn_count global s' = newborn_count global s + length txns)"
  using assms
proof (induction txns arbitrary: s)
  case (Cons txn txns)
  from Cons.prems(1) obtain m k where p: "txn_payload txn = xtl_kitty_breeding_breed global m k False" "unat m < n" "unat k < n"
    "address (txn_sender txn) \<in> senders" by (auto simp: breed_call_def)
  have exec: "execute_signed framework s txn = kitty_breed (address (txn_sender txn)) global m k False s"
    using p(1) by (simp add: execute_signed_def execute_payload_def)
  have "MyKitties s (address (txn_sender txn)) \<noteq> None" using p(4) Cons.prems(4) by (auto simp: domIff)
  from kitty_breed_cases [OF Cons.prems(2) _ _ this, of m k False] p(2,3) Cons.prems(3,5)
  consider "kitty_breed (address (txn_sender txn)) global m k False s = Inl TableAlreadyExists"
    | s1 where "kitty_breed (address (txn_sender txn)) global m k False s = Inr s1" "registry_ok global s1"
      "registry_size global s1 = n" "dom (MyKitties s1) = dom (MyKitties s)" "newborn_count global s1 = newborn_count global s + 1" by auto
  then show ?case
  proof cases
    case 2
    with Cons.IH [of s1] Cons.prems show ?thesis by (simp add: run_contracts_Cons exec)
  qed (simp add: run_contracts_Cons exec)
qed (simp add: run_contracts_def)

lemma breed_step_call:
  assumes "draw_ok draw" and "2 * n < 2 ^ 64" and "addresses u = as" and "breed_step draw n u g = Inr (txn, u', g')"
  shows "breed_call (as ! 0) (set (tl as)) (2 * n) txn \<and> addresses u' = as"
proof -
  from assms(4) obtain m k i g1 g2 where m: "gen_range draw 0 n g = Inr (m, g1)" and k: "gen_range draw n (n * 2) g1 = Inr (k, g2)"
    and u: "accounts u \<noteq> []"
    and send: "send_from (1 + i) (\<lambda>sender. kitty_breed_txn (account sender) (address (account (accounts u ! 0)))
              (word_of_nat m) (word_of_nat k) False (sequence_number sender) 100) u = Inr (txn, u')"
    by (auto simp: breed_step_def)
  have "unat (word_of_nat m :: u64) < 2 * n" "unat (word_of_nat k :: u64) < 2 * n"
    using gen_range_in [OF assms(1) m] gen_range_in [OF assms(1) k] assms(2) by (simp_all add: unat_of_nat)
  moreover have "addresses u ! Suc i \<in> set (tl (addresses u))"
    using send_from_eq [OF send] by (cases "accounts u") auto
  ultimately show ?thesis using send_from_eq [OF send] send_from_addresses [OF send] u
    unfolding assms(3) [symmetric] by (simp add: breed_call_def kitty_breed_txn_def signed_def)
qed


lemma tl_nth_upt: "map (\<lambda>i. xs ! i) [1..<length xs] = tl xs"
  by (rule nth_equalityI) (simp_all add: nth_tl)

text \<open>
  C18. The kitty workload on its contract: the initialisation and all mints succeed and register two
  kitties per account. The measured breeds only name registered parents, so that a breed can fail
  for one reason only: the id of the newborn, which is its genes, is already taken in the sender's
  table, by an earlier newborn or by a minted kitty, whose id is its number in the registry.
  Otherwise every breed is counted.
\<close>

theorem kitty_workload_outcome:
  assumes "draw_ok draw" and "AllKitties s (addresses u ! 0) = None" and "Newborns s (addresses u ! 0) = None"
    and "MyKitties s = Map.empty" and "2 * num_accounts u < 2 ^ 64" and "m < 2 ^ 64"
    and "send_from 0 (\<lambda>a. kitty_initialize_txn (account a) (sequence_number a) 100) u = Inr (init_txn, u1)"
    and "mint_each draw True [1..<num_accounts u] u1 g = Inr (mint1, u2, g1)"
    and "mint_each draw False [1..<num_accounts u] u2 g1 = Inr (mint2, u3, g2)"
    and "send_times (breed_step draw (num_accounts u - 1)) m u3 g2 = Inr (txns, u4, g3)"
  shows "\<exists>s1. run_contracts framework (init_txn # mint1 @ mint2) s = Inr s1 \<and>
    registry_size (addresses u ! 0) s1 = 2 * (num_accounts u - 1) \<and>
    (run_contracts framework txns s1 = Inl TableAlreadyExists \<or>
     (\<exists>s'. run_contracts framework txns s1 = Inr s' \<and> newborn_count (addresses u ! 0) s' = m))"
proof -
  let ?global = "addresses u ! 0" and ?n = "num_accounts u - 1"
  note init = send_from_eq [OF assms(7)] and as1 = send_from_addresses [OF assms(7)]
  note m1 = mint_each_calls [OF assms(1) as1 assms(8)]
  note m2 = mint_each_calls [OF assms(1) conjunct2 [OF conjunct2 [OF m1]] assms(9)]
  from kitty_initialize_ok [OF assms(2-4)] obtain s0 where s0: "kitty_initialize ?global s = Inr s0" "minted_only ?global s0"
    "registry_size ?global s0 = 0" "dom (MyKitties s0) = {}" "newborn_count ?global s0 = 0" by blast
  have exec: "execute_signed framework s init_txn = Inr s0"
    using init s0(1) by (simp add: execute_signed_def execute_payload_def kitty_initialize_txn_def signed_def)
  have senders: "map (\<lambda>t. address (txn_sender t)) txns' = tl (addresses u)"
    if "map (\<lambda>t. address (txn_sender t)) txns' = map (\<lambda>i. addresses u ! i) [1..<num_accounts u]" for txns'
    using that tl_nth_upt [of "addresses u"] by (simp add: num_accounts_def)
  have len: "length mint1 = ?n" "length mint2 = ?n"
    using map_eq_imp_length_eq [OF conjunct1 [OF conjunct2 [OF m1]]] map_eq_imp_length_eq [OF conjunct1 [OF conjunct2 [OF m2]]]
    by simp_all
  have fits: "registry_size ?global s0 + length mint1 < 2 ^ 64" "?n + length mint2 < 2 ^ 64"
    using s0(3) len assms(5) by linarith+
  from mint_calls_run [OF conjunct1 [OF m1] s0(2) fits(1), of framework] s0 len(1) obtain s1 where
    s1: "run_contracts framework mint1 s0 = Inr s1" "minted_only ?global s1" "registry_size ?global s1 = ?n"
      "dom (MyKitties s1) = (\<lambda>t. address (txn_sender t)) ` set mint1" "newborn_count ?global s1 = 0" by auto
  from mint_calls_run [OF conjunct1 [OF m2] s1(2) fits(2) [folded s1(3)], of framework] s1 len(2) obtain s2 where
    s2: "run_contracts framework mint2 s1 = Inr s2" "minted_only ?global s2" "registry_size ?global s2 = 2 * ?n"
      "dom (MyKitties s2) = dom (MyKitties s1) \<union> (\<lambda>t. address (txn_sender t)) ` set mint2" "newborn_count ?global s2 = 0" by auto
  have "set (tl (addresses u)) \<subseteq> dom (MyKitties s2)"
    using senders [of mint1] m1 s1(4) s2(4) by (metis Un_upper1 image_set)
  moreover have "(\<forall>txn \<in> set txns. breed_call ?global (set (tl (addresses u))) (2 * ?n) txn) \<and> length txns = m \<and> addresses u4 = addresses u"
    by (rule send_times_all [OF breed_step_call [OF assms(1)] conjunct2 [OF conjunct2 [OF m2]] assms(10)]) (use assms(5) in simp_all)
  ultimately show ?thesis
    using breed_calls_run [of txns ?global "set (tl (addresses u))" "2 * ?n" s2 framework] s2 s1(1) exec assms(6)
    by (auto simp: run_contracts_Cons run_contracts_append minted_only_def)
qed

text \<open>
  C39. Breeding the same two kitties twice: after a successful breed, a transaction of the same
  account for the same parents always aborts, because the newborn's id is computed from the parents'
  genes alone and is taken.
\<close>

theorem breed_twice_aborts:
  assumes "txn_payload txn = xtl_kitty_breeding_breed global m k gender" and "call_of txn' = call_of txn"
    and "execute_signed framework s txn = Inr s'"
  shows "execute_signed framework s' txn' = Inl TableAlreadyExists"
  using assms by (auto simp: execute_signed_def execute_payload_def intro: kitty_breed_again)

section \<open>Small runs\<close>

definition room :: "nat \<Rightarrow> AccountUniverse \<Rightarrow> bool" where
  "room k u \<longleftrightarrow> length (accounts u) = 2 \<and> (\<forall>a \<in> set (accounts u). unat (sequence_number a) + k < 2 ^ 64)"

lemma send_from_room:
  assumes "room (Suc k) u" and "i < 2"
  shows "\<exists>txn u'. send_from i mk u = Inr (txn, u') \<and> room k u'"
proof -
  have i: "i < length (accounts u)" and small: "unat (sequence_number (accounts u ! i)) + Suc k < 2 ^ 64"
    using assms by (auto simp: room_def)
  then obtain n where n: "add_c (sequence_number (accounts u ! i)) 1 = Inr n" "unat n = unat (sequence_number (accounts u ! i)) + 1"
    using add_c_ok [of "sequence_number (accounts u ! i)" 1] by (auto simp: add_c_eq_Inr)
  let ?u = "u\<lparr>accounts := (accounts u)[i := (accounts u ! i)\<lparr>sequence_number := n\<rparr>]\<rparr>"
  have "send_from i mk u = Inr (mk (accounts u ! i), ?u)"
    using i n(1) by (simp add: send_from_def increase_account_sequence_number_def)
  moreover have "set (accounts ?u) \<subseteq> insert ((accounts u ! i)\<lparr>sequence_number := n\<rparr>) (set (accounts u))"
    by (simp add: set_update_subset_insert)
  then have "room k ?u" using assms(1) small n(2) unfolding room_def by (fastforce simp: dest: subsetD)
  ultimately show ?thesis by blast
qed

lemma send_times_room:
  assumes "\<And>k u. room (Suc k) u \<Longrightarrow> \<exists>txn u'. step u () = Inr (txn, u', ()) \<and> room k u'"
  shows "room (m + k) u \<Longrightarrow> \<exists>txns u'. send_times step m u () = Inr (txns, u', ()) \<and> room k u'"
proof (induction m arbitrary: u)
  case (Suc m)
  then obtain txn u1 where one: "step u () = Inr (txn, u1, ())" "room (m + k) u1" using assms [of "m + k" u] by auto
  from Suc.IH [OF one(2)] one(1) show ?case by auto
qed simp

lemma sample_room: "room 1000 sample_funded"
  by (simp add: room_def sample_funded_def AccountUniverse_new_def AccountCurrent_new_def sample_data_def)

lemma sample_addresses: "addresses sample_funded = [replicate 31 0 @ [1], replicate 31 0 @ [2]]"
  by (simp add: sample_funded_def AccountUniverse_new_def AccountCurrent_new_def sample_data_def account_def)

lemma first_draw_ok: "draw_ok first_draw"
  by (simp add: draw_ok_def first_draw_def)


abbreviation no_framework :: "AccountAddress \<Rightarrow> payload \<Rightarrow> GlobalStorage \<Rightarrow> GlobalStorage mres" where
  "no_framework \<equiv> \<lambda>addr p s. Inr s"

lemma gen_first [simp]: "lo < hi \<Longrightarrow> gen_range first_draw lo hi g = Inr (lo, g)"
  by (simp add: gen_range_def first_draw_def)

lemma room_nonempty: "room k u \<Longrightarrow> accounts u \<noteq> [] \<and> num_accounts u = 2"
  by (auto simp: room_def num_accounts_def)

lemma draw_receivers_first: "room k u \<Longrightarrow> \<exists>rs. draw_receivers first_draw 2 u j () = Inr (rs, ())"
  by (induction j) (auto simp: room_def)

lemma airdrop_step_room: "room (Suc k) u \<Longrightarrow> \<exists>txn u'. airdrop_step first_draw 2 u () = Inr (txn, u', ()) \<and> room k u'"
proof -
  assume room: "room (Suc k) u"
  obtain rs where "draw_receivers first_draw 2 u 5 () = Inr (rs, ())" using draw_receivers_first [OF room] by blast
  moreover obtain txn u' where "send_from 0 (\<lambda>sender. airdrop_transfer_txn (account sender) rs (sequence_number sender) 100) u = Inr (txn, u')"
    "room k u'" using send_from_room [OF room, of 0 "\<lambda>sender. airdrop_transfer_txn (account sender) rs (sequence_number sender) 100"] by auto
  ultimately show ?thesis by (simp add: airdrop_step_def)
qed

lemma ballot_step_room: "room (Suc k) u \<Longrightarrow> \<exists>txn u'. ballot_step first_draw 2 u () = Inr (txn, u', ()) \<and> room k u'"
  using send_from_room [of k u 1 "\<lambda>sender. ballot_vote_txn (account sender) (address (account (accounts u ! 0))) (word_of_nat 0) (sequence_number sender) 100"]
    room_nonempty [of "Suc k" u] by (auto simp: ballot_step_def index_at_def)

lemma occupy_step_room: "room (Suc k) u \<Longrightarrow> \<exists>txn u'. occupy_step first_draw 1 u () = Inr (txn, u', ()) \<and> room k u'"
  using send_from_room [of k u 1 "\<lambda>sender. million_pixel_occupy_txn (account sender) (address (account (accounts u ! 0))) (word_of_nat 0) (word_of_nat 0) (sequence_number sender) 100"]
    room_nonempty [of "Suc k" u] by (auto simp: occupy_step_def index_at_def)

lemma breed_step_room: "room (Suc k) u \<Longrightarrow> \<exists>txn u'. breed_step first_draw 1 u () = Inr (txn, u', ()) \<and> room k u'"
  using send_from_room [of k u 1 "\<lambda>sender. kitty_breed_txn (account sender) (address (account (accounts u ! 0))) (word_of_nat 0) (word_of_nat 1) False (sequence_number sender) 100"]
    room_nonempty [of "Suc k" u] by (auto simp: breed_step_def index_at_def)

theorem airdrop_workload_conserves_witness:
  "\<exists>init_txns u1 txns u2 s'. airdrop_initial sample_funded = Inr (init_txns, u1) \<and>
     send_times (airdrop_step first_draw 2) 3 u1 () = Inr (txns, u2, ()) \<and>
     run_contracts no_framework (init_txns @ txns) empty_storage = Inr s' \<and> length txns = 3 \<and> coin_total s' = 2000000000"
proof -
  let ?mk = "\<lambda>i sender. airdrop_initialize_txn (account sender) 1000000000 (sequence_number sender) 100"
  have room: "room (Suc (Suc 998)) sample_funded" using sample_room by (simp add: numeral_eq_Suc)
  obtain t0 v0 where 0: "send_from 0 (?mk 0) sample_funded = Inr (t0, v0)" "room (Suc 998) v0"
    using send_from_room [OF room, of 0 "?mk 0"] by auto
  obtain t1 u1 where 1: "send_from 1 (?mk 1) v0 = Inr (t1, u1)" "room 998 u1" using send_from_room [OF 0(2), of 1 "?mk 1"] by auto
  have num: "num_accounts sample_funded = 2" using room_nonempty [OF room] by simp
  have init: "airdrop_initial sample_funded = Inr ([t0, t1], u1)"
    using 0(1) 1(1) by (simp add: airdrop_initial_def num numeral_2_eq_2)
  have "room (3 + 995) u1" using 1(2) by simp
  from send_times_room [where step = "airdrop_step first_draw 2", OF airdrop_step_room this] obtain txns u2 where
    txns: "send_times (airdrop_step first_draw 2) 3 u1 () = Inr (txns, u2, ())" by blast
  have d: "distinct (addresses sample_funded)" by (simp add: sample_addresses)
  have s: "CoinStore empty_storage = Map.empty" by (simp add: empty_storage_def)
  have "num_accounts u1 = 2" using room_nonempty [OF 1(2)] by simp
  from airdrop_workload_conserves [OF d s _ init txns [folded this], of no_framework] num init txns show ?thesis by auto
qed

theorem ballot_workload_counts_witness:
  "\<exists>init_txn u1 txns u2 s'. send_from 0 ballot_init sample_funded = Inr (init_txn, u1) \<and>
     send_times (ballot_step first_draw 2) 3 u1 () = Inr (txns, u2, ()) \<and>
     run_contracts no_framework (init_txn # txns) empty_storage = Inr s' \<and>
     sum_list (weights s' (addresses sample_funded ! 0)) = 3"
proof -
  have room: "room (Suc (3 + 996)) sample_funded" using sample_room by simp
  obtain t u1 where init: "send_from 0 ballot_init sample_funded = Inr (t, u1)" "room (3 + 996) u1"
    using send_from_room [OF room, of 0 ballot_init] by auto
  from send_times_room [where step = "ballot_step first_draw 2", OF ballot_step_room init(2)] obtain txns u2 where
    txns: "send_times (ballot_step first_draw 2) 3 u1 () = Inr (txns, u2, ())" by blast
  have num: "num_accounts sample_funded = 2" using room_nonempty [OF room] by simp
  have s: "Proposals empty_storage (addresses sample_funded ! 0) = None" by (simp add: empty_storage_def)
  from ballot_workload_counts [OF first_draw_ok s _ init(1) txns [folded num], of no_framework] init(1) txns show ?thesis by auto
qed

theorem pixel_workload_owners_witness:
  "\<exists>init_txn u1 txns u2 s'.
     send_from 0 (\<lambda>a. million_pixel_initialize_txn (account a) (sequence_number a) 100) sample_funded = Inr (init_txn, u1) \<and>
     send_times (occupy_step first_draw 1) 2 u1 () = Inr (txns, u2, ()) \<and>
     run_contracts no_framework (init_txn # txns) empty_storage = Inr s' \<and> length txns = 2"
proof -
  let ?mk = "\<lambda>a. million_pixel_initialize_txn (account a) (sequence_number a) 100"
  have room: "room (Suc (2 + 997)) sample_funded" using sample_room by simp
  obtain t u1 where init: "send_from 0 ?mk sample_funded = Inr (t, u1)" "room (2 + 997) u1"
    using send_from_room [OF room, of 0 ?mk] by auto
  from send_times_room [where step = "occupy_step first_draw 1", OF occupy_step_room init(2)] obtain txns u2 where
    txns: "send_times (occupy_step first_draw 1) 2 u1 () = Inr (txns, u2, ())" by blast
  have s: "LandStore empty_storage (addresses sample_funded ! 0) = None" by (simp add: empty_storage_def)
  from pixel_workload_owners [OF s init(1) txns, of no_framework] init(1) txns show ?thesis by blast
qed

text \<open>Two kitties of one account with genes 4 and 9, and their offspring with genes 6.\<close>

definition kitty_storage :: GlobalStorage where
  "kitty_storage = empty_storage\<lparr>
     AllKitties := [[7] \<mapsto> [\<lparr> info_gender = True, info_owner = [8] \<rparr>, \<lparr> info_gender = False, info_owner = [8] \<rparr>]],
     MyKitties := [[8] \<mapsto> [0 \<mapsto> \<lparr> kitty_id = 0, kitty_genes = 4, m_id = 0, s_id = 0 \<rparr>,
                          1 \<mapsto> \<lparr> kitty_id = 1, kitty_genes = 9, m_id = 0, s_id = 0 \<rparr>]],
     Newborns := [[7] \<mapsto> 0]\<rparr>"

lemma genes_4_9: "genes_mix 4 9 = Inr 6"
proof -
  have roots: "is_isqrt 4 2" "is_isqrt 9 3" by (simp_all add: is_isqrt_def)
  from genes_product_ok [of 32 "4 :: u64" 9] obtain r :: u64 and p q where
    r: "genes_product 4 9 = Inr r" "is_isqrt 4 p" "is_isqrt 9 q" "unat r = p * q" by auto
  have "p = 2" "q = 3" using is_isqrt_unique [OF r(2) roots(1)] is_isqrt_unique [OF r(3) roots(2)] by simp_all
  with r(4) have "r = 6" by (simp add: word_unat_eq_iff)
  with r(1) show ?thesis by (simp add: genes_mix_product)
qed

definition breed_sample :: SignedTransaction where
  "breed_sample = signed \<lparr> address = [8], auth_key = [] \<rparr> (xtl_kitty_breeding_breed [7] 0 1 False) 0 None None"

theorem breed_twice_aborts_witness:
  "\<exists>s'. execute_signed no_framework kitty_storage breed_sample = Inr s' \<and>
     execute_signed no_framework s' breed_sample = Inl TableAlreadyExists"
proof -
  have p: "txn_payload breed_sample = xtl_kitty_breeding_breed [7] 0 1 False" by (simp add: breed_sample_def signed_def)
  have "\<exists>s'. execute_signed no_framework kitty_storage breed_sample = Inr s'"
    by (simp add: execute_signed_def execute_payload_def breed_sample_def signed_def kitty_breed_def kitty_storage_def genes_4_9
        borrow_global_def table_borrow_def table_add_def add_new_kitty_def add_c_def)
  with breed_twice_aborts [OF p refl] show ?thesis by blast
qed


lemma mint_each_room:
  assumes "room (length is + k) u" and "\<forall>i \<in> set is. i < 2"
  shows "\<exists>txns u'. mint_each first_draw gender is u () = Inr (txns, u', ()) \<and> room k u'"
  using assms
proof (induction "is" arbitrary: u)
  case (Cons i "is")
  let ?mk = "\<lambda>sender. kitty_mint_txn (account sender) (address (account (accounts u ! 0))) (word_of_nat 0) gender (sequence_number sender) 100"
  have room: "room (Suc (length is + k)) u" and i: "i < 2" using Cons.prems by simp_all
  from send_from_room [OF room i, of ?mk] obtain txn u1 where one: "send_from i ?mk u = Inr (txn, u1)" "room (length is + k) u1" by blast
  from Cons.IH [OF one(2)] Cons.prems(2) one(1) room_nonempty [OF room] show ?case by (auto simp: index_at_def)
qed simp

theorem kitty_workload_outcome_witness:
  "\<exists>init_txn u1 mint1 u2 mint2 u3 txns u4 s1.
     send_from 0 (\<lambda>a. kitty_initialize_txn (account a) (sequence_number a) 100) sample_funded = Inr (init_txn, u1) \<and>
     mint_each first_draw True [1..<2] u1 () = Inr (mint1, u2, ()) \<and> mint_each first_draw False [1..<2] u2 () = Inr (mint2, u3, ()) \<and>
     send_times (breed_step first_draw 1) 2 u3 () = Inr (txns, u4, ()) \<and>
     run_contracts no_framework (init_txn # mint1 @ mint2) empty_storage = Inr s1 \<and>
     registry_size (addresses sample_funded ! 0) s1 = 2"
proof -
  let ?mk = "\<lambda>a. kitty_initialize_txn (account a) (sequence_number a) 100"
  have room: "room (Suc 999) sample_funded" using sample_room by simp
  have num: "num_accounts sample_funded = 2" using room_nonempty [OF room] by simp
  obtain t u1 where init: "send_from 0 ?mk sample_funded = Inr (t, u1)" "room 999 u1" using send_from_room [OF room, of 0 ?mk] by auto
  have "room (length [1..<2 :: nat] + 998) u1" using init(2) by simp
  from mint_each_room [OF this, of True] obtain mint1 u2 where m1: "mint_each first_draw True [1..<2] u1 () = Inr (mint1, u2, ())" "room 998 u2" by auto
  have "room (length [1..<2 :: nat] + 997) u2" using m1(2) by simp
  from mint_each_room [OF this, of False] obtain mint2 u3 where m2: "mint_each first_draw False [1..<2] u2 () = Inr (mint2, u3, ())" "room 997 u3" by auto
  have "room (2 + 995) u3" using m2(2) by simp
  from send_times_room [where step = "breed_step first_draw 1", OF breed_step_room this] obtain txns u4 where
    txns: "send_times (breed_step first_draw 1) 2 u3 () = Inr (txns, u4, ())" by blast
  have s: "AllKitties empty_storage (addresses sample_funded ! 0) = None" "Newborns empty_storage (addresses sample_funded ! 0) = None"
    "MyKitties empty_storage = Map.empty" by (simp_all add: empty_storage_def)
  have txns': "send_times (breed_step first_draw (num_accounts sample_funded - 1)) 2 u3 () = Inr (txns, u4, ())"
    using txns num by simp
  from kitty_workload_outcome [OF first_draw_ok s _ _ init(1) m1(1) [folded num] m2(1) [folded num] txns', of no_framework]
    num init(1) m1(1) m2(1) txns show ?thesis by auto
qed


end
