(* ===== verification/Sui_Original.thy ===== *)
theory Sui_Original
  imports Sui_Properties
begin

text \<open>
  The unmodified Sui benchmark, \<^verbatim>\<open>sui/original/sui-single-node-benchmark\<close>, and the relation of the
  modified one to it. What differs is defined here: the options, the context, the preparation of
  objects, the generation of transactions and the measured execution. \<^verbatim>\<open>mock_storage.rs\<close>,
  \<^verbatim>\<open>mock_consensus.rs\<close> and \<^verbatim>\<open>single_node.rs\<close> are the same in both versions up to comments, as are
  \<open>batch_create_account_and_gas\<close>, the certification, the execution in memory, the signing and the
  checkpoint executor; their definitions are shared.
\<close>

section \<open>Options\<close>

record OriginalPTBOptions =
  oopt_num_transfers :: u64
  oopt_use_native_transfer :: bool
  oopt_num_dynamic_fields :: u64
  oopt_computation :: u8
  oopt_num_shared_objects :: nat

datatype OriginalWorkloadKind = OriginalPTB OriginalPTBOptions | OriginalPublish string

record OriginalCommand =
  ocmd_tx_count :: u64
  ocmd_checkpoint_size :: nat
  ocmd_print_sample_tx :: bool
  ocmd_skip_signing :: bool
  ocmd_component :: Component
  ocmd_workload :: OriginalWorkloadKind

fun original_gas_object_num_per_account :: "OriginalWorkloadKind \<Rightarrow> u64 res" where
  "original_gas_object_num_per_account (OriginalPTB opts) = add_c (oopt_num_transfers opts) 1"
| "original_gas_object_num_per_account (OriginalPublish _) = Inr 1"

record OriginalWorkload =
  orig_tx_count :: u64
  orig_workload_kind :: OriginalWorkloadKind

definition original_num_accounts :: "OriginalWorkload \<Rightarrow> u64" where
  "original_num_accounts w = orig_tx_count w"

section \<open>The context\<close>

record ('v, 'id, 'addr, 'dg, 'kp) OriginalContext =
  orig_validator :: "'v SingleValidator"
  orig_user_accounts :: "('addr \<times> ('id, 'addr, 'dg, 'kp) Account) list"
  orig_admin_account :: "('id, 'addr, 'dg, 'kp) Account"
  orig_component :: Component

definition original_new where
  "original_new A T keys order workload component print_sample_tx =
     rbind (add_c (original_num_accounts workload) 1) (\<lambda>num0.
     rbind (if print_sample_tx then add_c num0 1 else Inr num0) (\<lambda>num_accounts.
     rbind (original_gas_object_num_per_account (orig_workload_kind workload)) (\<lambda>per.
     rbind (mul_c num_accounts per) (\<lambda>total.
     rbind (batch_create_account_and_gas T keys order num_accounts per) (\<lambda>(accounts, genesis).
     rbind (assert_that (word_of_nat (length genesis) = total)) (\<lambda>_.
     rbind (unwrap (btree_pop_last accounts)) (\<lambda>((_, admin), users).
     Inr \<lparr> orig_validator = SingleValidator_new A genesis component, orig_user_accounts = users,
           orig_admin_account = admin, orig_component = component \<rparr>)))))))"

definition original_with_authority where
  "original_with_authority ctx v = ctx\<lparr>orig_validator := (orig_validator ctx)\<lparr>authority := v\<rparr>\<rparr>"

definition original_publish_package where
  "original_publish_package A P publish_data ctx =
     (let admin = orig_admin_account ctx
      in rbind (index_at (gas_objects admin) 0) (\<lambda>gas.
         rbind (publish_package A P publish_data (sender admin) (keypair admin) gas (authority (orig_validator ctx)))
           (\<lambda>(package, updated_gas, v').
         Inr (package, (original_with_authority ctx v')
           \<lparr>orig_admin_account := admin\<lparr>gas_objects := (gas_objects admin)[0 := updated_gas]\<rparr>\<rparr>))))"

definition original_refresh_gas_objects where
  "original_refresh_gas_objects new_gas_objects ctx =
     ctx\<lparr>orig_user_accounts := refresh_accounts (orig_user_accounts ctx) new_gas_objects\<rparr>"

section \<open>Generators\<close>

definition original_root_create where
  "original_root_create P package child_per_root (account :: ('id, 'addr, 'dg, 'kp) Account) =
     rbind (index_at (gas_objects account) 0) (\<lambda>gas.
     rbind (unwrap_ok (bcs_u64 P child_per_root)) (\<lambda>bytes.
     Inr (sign_move_call P (sender account) gas (DEFAULT_VALIDATOR_GAS_PRICE P) package
            ''benchmark'' ''generate_dynamic_fields'' [Pure bytes] (keypair account))))"

definition original_shared_create where
  "original_shared_create P package (account :: ('id, 'addr, 'dg, 'kp) Account) =
     rbind (index_at (gas_objects account) 0) (\<lambda>gas.
     Inr (sign_move_call P (sender account) gas (DEFAULT_VALIDATOR_GAS_PRICE P) package
            ''benchmark'' ''create_shared_counter'' [] (keypair account)))"

definition original_package_publish where
  "original_package_publish P compiled_package (account :: ('id, 'addr, 'dg, 'kp) Account) =
     rbind (index_at (gas_objects account) 0) (\<lambda>gas.
     Inr (sign_publish P (sender account) gas (DEFAULT_VALIDATOR_GAS_PRICE P)
            (CompiledPackage compiled_package) (keypair account)))"

definition original_generate_transactions where
  "original_generate_transactions generate_tx compl ctx =
     rbind (mapM (\<lambda>(addr, account). generate_tx account) (orig_user_accounts ctx)) (\<lambda>txs. Inr (compl txs))"

fun original_publish_dependencies where
  "original_publish_dependencies A P D dir [] dep_map ctx = Inr (dep_map, ctx)"
| "original_publish_dependencies A P D dir (p # ps) dep_map ctx =
     rbind (dependency_bytes D dir p) (\<lambda>module_bytes.
     rbind (original_publish_package A P (ModuleBytes module_bytes) ctx) (\<lambda>(package, ctx').
     original_publish_dependencies A P D dir ps (AList.update (pkg_name p) (fst package) dep_map) ctx'))"

definition original_package_publish_new where
  "original_package_publish_new A P D manifest_path ctx =
     rbind (load_manifest_json D manifest_path) (\<lambda>manifest.
     rbind (unwrap (path_parent D manifest_path)) (\<lambda>dir.
     rbind (original_publish_dependencies A P D dir (dependencies manifest) [] ctx) (\<lambda>(dep_map, ctx').
     let root = root_package manifest
     in rbind (assert_that (is_source_code root)) (\<lambda>_.
        rbind (unwrap_ok (build_replacing D (AList.update (pkg_name root) (ZERO D) dep_map)
                 (path_join D dir (pkg_path root)))) (\<lambda>compiled_package.
        Inr (compiled_package, ctx'))))))"

section \<open>Preparing objects\<close>

definition original_preparing_dynamic_fields where
  "original_preparing_dynamic_fields A P F sched compl compl' package num_dynamic_fields ctx =
     (if num_dynamic_fields = 0 then Inr ([], ctx)
      else rbind (original_generate_transactions (original_root_create P package num_dynamic_fields) compl' ctx) (\<lambda>txs.
           rbind (execute_raw_transactions A sched compl txs (authority (orig_validator ctx))) (\<lambda>(results, v).
           rbind (root_loop A F results [] [] v) (\<lambda>(roots, new_gas, v').
           Inr (roots, original_refresh_gas_objects new_gas (original_with_authority ctx v'))))))"

definition original_prepare_shared_objects where
  "original_prepare_shared_objects A P F sched compl package num_shared_objects ctx =
     (if num_shared_objects = 0 then Inr ([], ctx)
      else rbind (assert_that (num_shared_objects \<le> length (orig_user_accounts ctx))) (\<lambda>_.
           rbind (mapM (\<lambda>(addr, account). original_shared_create P package account)
                    (take num_shared_objects (orig_user_accounts ctx))) (\<lambda>txs.
           rbind (execute_raw_transactions A sched compl txs (authority (orig_validator ctx))) (\<lambda>(results, v).
           rbind (shared_loop A F (current_epoch F v) results [] [] v) (\<lambda>(shared, new_gas, v').
           Inr (shared, original_refresh_gas_objects new_gas (original_with_authority ctx v')))))))"

datatype ('id, 'addr, 'dg, 'cp) original_generator =
    OriginalMoveGenerator "('id, 'addr, 'dg) OriginalGenerator"
  | OriginalPublishGenerator 'cp

definition original_generate_with where
  "original_generate_with P gen =
     (case gen of
        OriginalMoveGenerator G \<Rightarrow> original_generate_tx P G
      | OriginalPublishGenerator cp \<Rightarrow> original_package_publish P cp)"

definition original_create_tx_generator where
  "original_create_tx_generator A P F D R move_package_data workload ctx =
     (case orig_workload_kind workload of
        OriginalPTB opts \<Rightarrow>
          rbind (original_publish_package A P move_package_data ctx) (\<lambda>(package, ctx1).
          rbind (original_preparing_dynamic_fields A P F (tx_order R) (eff_compl R) (tx_compl R)
                   (fst package) (oopt_num_dynamic_fields opts) ctx1) (\<lambda>(roots, ctx2).
          rbind (original_prepare_shared_objects A P F (tx_order R) (eff_compl R)
                   (fst package) (oopt_num_shared_objects opts) ctx2) (\<lambda>(shared, ctx3).
          Inr (OriginalMoveGenerator \<lparr> orig_move_package = fst package, orig_num_transfers = oopt_num_transfers opts,
                 orig_use_native_transfer = oopt_use_native_transfer opts, orig_computation = oopt_computation opts,
                 orig_root_objects = roots, orig_shared_objects = shared \<rparr>, ctx3))))
      | OriginalPublish manifest_path \<Rightarrow>
          rbind (original_package_publish_new A P D manifest_path ctx) (\<lambda>(cp, ctx'). Inr (OriginalPublishGenerator cp, ctx')))"

section \<open>Measured runs\<close>

text \<open>With shared objects the unmodified benchmark executes the certificates one after the other.\<close>

definition original_transaction_execution where
  "original_transaction_execution A C component sched compl transactions print_sample_tx v =
     rbind (take_sample A C print_sample_tx transactions v) (\<lambda>(measured, v1).
     rbind (if list_ex (contains_shared_object A) measured
            then run_tasks (\<lambda>tx. execute_certificate A tx component) measured v1
            else spawn_all sched compl (\<lambda>tx. execute_certificate A tx component) measured v1) (\<lambda>(results, v2).
     Inr (length measured, v2)))"

definition original_run_benchmark where
  "original_run_benchmark A P S E C F D K W R T keys order cert_digest move_package_data
       workload component checkpoint_size print_sample_tx skip_signing =
     rbind (original_new A T keys order workload component print_sample_tx) (\<lambda>ctx0.
     rbind (original_create_tx_generator A P F D R move_package_data workload ctx0) (\<lambda>(gen, ctx).
     rbind (original_generate_transactions (original_generate_with P gen) (tx_compl R) ctx) (\<lambda>transactions.
     let v = authority (orig_validator ctx)
     in if component = TxnSigning
        then benchmark_transaction_signing A (tx_order R) (resp_compl R) transactions print_sample_tx v
        else
          rbind (certify_transactions C (tx_order R) (cert_compl R) transactions skip_signing v) (\<lambda>(certs, v1).
          rbind (assigned_shared_object_versions A certs v1) (\<lambda>v2.
          case component of
            CheckpointExecutor \<Rightarrow>
              benchmark_checkpoint_executor A S E C F K W cert_digest (cert_order R) (eff_compl R) certs checkpoint_size v2
          | ExecutionOnly \<Rightarrow>
              rbind (benchmark_transaction_execution_in_memory A S E C (cert_order R) (eff_compl R) certs
                       print_sample_tx v2) (\<lambda>(n, reads, v3). Inr (n, v3))
          | _ \<Rightarrow>
              original_transaction_execution A C component (cert_order R) (eff_compl R) certs print_sample_tx v2)))))"

definition original_main where
  "original_main A P S E C F D K W R T keys order cert_digest move_package_data args =
     original_run_benchmark A P S E C F D K W R T keys order cert_digest move_package_data
       \<lparr> orig_tx_count = ocmd_tx_count args, orig_workload_kind = ocmd_workload args \<rparr>
       (ocmd_component args) (ocmd_checkpoint_size args) (ocmd_print_sample_tx args) (ocmd_skip_signing args)"

section \<open>Refinement\<close>

text \<open>The modified context without what was added, and the old options with the new ones switched off.\<close>

definition original_ctx where
  "original_ctx ctx = \<lparr> orig_validator = validator ctx, orig_user_accounts = user_accounts ctx,
     orig_admin_account = admin_account ctx, orig_component = benchmark_component ctx \<rparr>"

fun embed_kind :: "OriginalWorkloadKind \<Rightarrow> WorkloadKind" where
  "embed_kind (OriginalPTB opts) = PTB \<lparr> opt_num_transfers = oopt_num_transfers opts,
     opt_use_native_transfer = oopt_use_native_transfer opts, opt_num_dynamic_fields = oopt_num_dynamic_fields opts,
     opt_computation = oopt_computation opts, opt_num_shared_objects = oopt_num_shared_objects opts,
     opt_erc20_transfer = False, opt_test_kitty = False, opt_num_land_objects = 0 \<rparr>"
| "embed_kind (OriginalPublish path) = Publish path"

definition embed_workload :: "OriginalWorkload \<Rightarrow> Workload" where
  "embed_workload w = \<lparr> tx_count = orig_tx_count w, workload_kind = embed_kind (orig_workload_kind w) \<rparr>"

definition original_of where
  "original_of gen = (case gen of MoveGenerator G \<Rightarrow> OriginalMoveGenerator (to_original G) | PublishGenerator cp \<Rightarrow> OriginalPublishGenerator cp)"

text \<open>Mapping the result of a step to the unmodified context.\<close>

definition map_ctx where
  "map_ctx f r = rbind r (\<lambda>(x, ctx). Inr (f x, original_ctx ctx))"

named_theorems original_simps \<open>how the context projections commute\<close>

lemma original_ctx_sel [original_simps]:
  "orig_validator (original_ctx ctx) = validator ctx" "orig_user_accounts (original_ctx ctx) = user_accounts ctx"
  "orig_admin_account (original_ctx ctx) = admin_account ctx"
  by (simp_all add: original_ctx_def)

lemma original_ctx_upd [original_simps]:
  "original_ctx (with_authority ctx v) = original_with_authority (original_ctx ctx) v"
  "original_ctx (refresh_gas_objects g ctx) = original_refresh_gas_objects g (original_ctx ctx)"
  "original_ctx (ctx\<lparr>admin_account := a\<rparr>) = (original_ctx ctx)\<lparr>orig_admin_account := a\<rparr>"
  by (simp_all add: original_ctx_def with_authority_def original_with_authority_def refresh_gas_objects_def original_refresh_gas_objects_def)

lemma mapM_enumerate: "mapM (\<lambda>(i, x). f x) (enumerate k xs) = mapM f xs"
  by (induction xs arbitrary: k) simp_all

lemma mapM_enumerate_pair:
  assumes "\<And>i addr acc. (addr, acc) \<in> set xs \<Longrightarrow> f i addr acc = h acc"
  shows "mapM (\<lambda>(i, addr, acc). f i addr acc) (enumerate k xs) = mapM (\<lambda>(addr, acc). h acc) xs"
  using assms by (induction xs arbitrary: k) (auto split: prod.splits)

lemma original_new_eq:
  "map_ctx id (rbind (BenchmarkContext_new A T keys admin_key order order' open_csv (embed_workload w) component b []) (\<lambda>ctx. Inr ((), ctx))) =
   rbind (original_new A T keys order w component b) (\<lambda>ctx. Inr ((), ctx))"
proof -
  have per: "gas_object_num_per_account (workload_kind (embed_workload w)) = original_gas_object_num_per_account (orig_workload_kind w)"
    by (cases "orig_workload_kind w") (simp_all add: embed_workload_def)
  have num: "num_accounts_of (embed_workload w) = original_num_accounts w"
    by (simp add: embed_workload_def num_accounts_of_def original_num_accounts_def)
  show ?thesis unfolding BenchmarkContext_new_def original_new_def map_ctx_def per num
    by (simp add: rbind_assoc original_ctx_def split_def)
qed

lemma publish_eq:
  "map_ctx id (ctx_publish_package A P d ctx) = original_publish_package A P d (original_ctx ctx)"
  by (simp add: map_ctx_def ctx_publish_package_def original_publish_package_def Let_def rbind_assoc original_simps split_def)

lemma generate_eq:
  assumes "\<And>i acc. generate_tx acc (sender acc) (shared_index_args k (Suc i)) [] (rngs i) = h acc"
  shows "generate_transactions generate_tx k compl rngs ctx = original_generate_transactions h compl (original_ctx ctx)"
proof -
  have "mapM (\<lambda>(i, addr, account). generate_tx account (sender account) (shared_index_args k (Suc i)) [] (rngs i))
      (enumerate 0 (user_accounts ctx)) = mapM (\<lambda>(addr, account). h account) (user_accounts ctx)"
    by (rule mapM_enumerate_pair) (rule assms)
  then show ?thesis by (simp add: generate_transactions_def original_generate_transactions_def original_simps)
qed

lemma dynamic_fields_eq:
  "map_ctx id (preparing_dynamic_fields A P F sched compl compl' rngs package n ctx) =
   original_preparing_dynamic_fields A P F sched compl compl' package n (original_ctx ctx)"
proof -
  have "generate_transactions (RootObjectCreate_generate_tx P package n) 0 compl' rngs ctx =
      original_generate_transactions (original_root_create P package n) compl' (original_ctx ctx)"
    by (rule generate_eq) (simp add: RootObjectCreate_generate_tx_def original_root_create_def)
  then show ?thesis
    by (simp add: map_ctx_def preparing_dynamic_fields_def original_preparing_dynamic_fields_def rbind_assoc split_def original_simps)
qed

lemma shared_objects_eq:
  "map_ctx id (prepare_shared_objects A P F sched compl rngs package n ctx) =
   original_prepare_shared_objects A P F sched compl package n (original_ctx ctx)"
proof -
  have "mapM (\<lambda>(i, addr, account). SharedObjectCreate_generate_tx P package account (sender account) [] [] (rngs i))
      (enumerate 0 (take n (user_accounts ctx))) =
    mapM (\<lambda>(addr, account). original_shared_create P package account) (take n (user_accounts ctx))"
    by (rule mapM_enumerate_pair) (simp add: SharedObjectCreate_generate_tx_def original_shared_create_def)
  then show ?thesis
    by (simp add: map_ctx_def prepare_shared_objects_def original_prepare_shared_objects_def rbind_assoc split_def original_simps)
qed

lemma map_ctx_rbind: "rbind (map_ctx f r) g = rbind r (\<lambda>(x, ctx). g (f x, original_ctx ctx))"
  by (simp add: map_ctx_def rbind_assoc split_def)

lemma map_ctx_of_rbind: "map_ctx f (rbind r g) = rbind r (\<lambda>x. map_ctx f (g x))"
  by (simp add: map_ctx_def rbind_assoc)

lemma dependencies_eq:
  "map_ctx id (publish_dependencies A P D dir ps dep_map ctx) = original_publish_dependencies A P D dir ps dep_map (original_ctx ctx)"
proof (induction ps arbitrary: dep_map ctx)
  case (Cons p ps)
  then show ?case
    by (simp add: map_ctx_of_rbind publish_eq [symmetric] map_ctx_rbind split_def)
qed (simp add: map_ctx_def)

lemma package_publish_new_eq:
  "map_ctx id (PackagePublishTxGenerator_new A P D path ctx) = original_package_publish_new A P D path (original_ctx ctx)"
  unfolding PackagePublishTxGenerator_new_def original_package_publish_new_def dependencies_eq [symmetric] map_ctx_of_rbind map_ctx_rbind
  by (simp add: split_def Let_def map_ctx_of_rbind) (simp add: map_ctx_def)

lemma create_tx_generator_eq:
  "map_ctx original_of (create_tx_generator A P F D R d (embed_workload w) ctx) =
   original_create_tx_generator A P F D R d w (original_ctx ctx)"
proof (cases "orig_workload_kind w")
  case (OriginalPTB opts)
  have move: "map_ctx original_of (Inr (MoveGenerator G, c)) = Inr (OriginalMoveGenerator (to_original G), original_ctx c)" for G c
    by (simp add: map_ctx_def original_of_def)
  show ?thesis
    by (simp add: create_tx_generator_def original_create_tx_generator_def embed_workload_def OriginalPTB
        prepare_kitty_objects_def prepare_land_objects_def publish_eq [symmetric] dynamic_fields_eq [where rngs = "random_values R", symmetric]
        shared_objects_eq [where rngs = "random_values R", symmetric]
        map_ctx_of_rbind map_ctx_rbind split_def move to_original_def)
next
  case (OriginalPublish path)
  have publish: "map_ctx original_of (Inr (PublishGenerator cp, c)) = Inr (OriginalPublishGenerator cp, original_ctx c)" for cp c
    by (simp add: map_ctx_def original_of_def)
  show ?thesis
    by (simp add: create_tx_generator_def original_create_tx_generator_def embed_workload_def OriginalPublish
        package_publish_new_eq [symmetric] map_ctx_of_rbind map_ctx_rbind split_def publish)
qed


text \<open>What the generator of an embedded workload is like.\<close>

lemma shared_loop_length: "shared_loop A F ep rs sh g v = Inr (sh', g', v') \<Longrightarrow> length sh' = length sh + length rs"
  by (induction rs arbitrary: sh g v) (auto simp: Let_def split: prod.splits)

lemma prepare_shared_objects_length:
  assumes "permutes sched" and "permutes compl" and "prepare_shared_objects A P F sched compl rngs package n ctx = Inr (shared, ctx')"
  shows "length shared \<le> n"
proof (cases "n = 0")
  case False
  with assms(3) obtain txs results v g v' where
    gen: "mapM (\<lambda>(i, addr, account). SharedObjectCreate_generate_tx P package account (sender account) [] [] (rngs i))
      (enumerate 0 (take n (user_accounts ctx))) = Inr txs"
    and exec: "execute_raw_transactions A sched compl txs (authority (validator ctx)) = Inr (results, v)"
    and shared: "shared_loop A F (current_epoch F v) results [] [] v = Inr (shared, g, v')"
    by (auto simp: prepare_shared_objects_def)
  show ?thesis
    using spawn_all_length [OF assms(1,2) exec [unfolded execute_raw_transactions_def]] mapM_take_length [OF gen] shared_loop_length [OF shared] by simp
qed (use assms(3) in \<open>simp add: prepare_shared_objects_def\<close>)

definition few_shared :: "OriginalWorkload \<Rightarrow> bool" where
  "few_shared w \<longleftrightarrow> (case orig_workload_kind w of OriginalPTB opts \<Rightarrow> oopt_num_shared_objects opts \<le> 1 | OriginalPublish _ \<Rightarrow> True)"

lemma embedded_generator:
  assumes "orders_ok R" and "few_shared w" and "create_tx_generator A P F D R d (embed_workload w) ctx = Inr (gen, ctx')"
  shows "generate_transactions (generate_with P gen) (shared_num_of gen) compl rngs c =
    original_generate_transactions (original_generate_with P (original_of gen)) compl (original_ctx c)"
proof (cases gen)
  case (MoveGenerator G)
  from assms(3) obtain opts where kind: "orig_workload_kind w = OriginalPTB opts"
    by (cases "orig_workload_kind w") (auto simp: create_tx_generator_def embed_workload_def MoveGenerator)
  with assms(3) obtain pkg ctx1 roots ctx2 ctx3 where "ctx_publish_package A P d ctx = Inr (pkg, ctx1)"
    and "preparing_dynamic_fields A P F (tx_order R) (eff_compl R) (tx_compl R) (random_values R) (fst pkg) (oopt_num_dynamic_fields opts) ctx1 = Inr (roots, ctx2)"
    and shared: "prepare_shared_objects A P F (tx_order R) (eff_compl R) (random_values R) (fst pkg) (oopt_num_shared_objects opts) ctx2 =
      Inr (shared_objects G, ctx3)" and off: "\<not> erc20_transfer G" "kitty_objects G = []" "land_objects G = []"
    by (auto simp: create_tx_generator_def embed_workload_def MoveGenerator prepare_kitty_objects_def prepare_land_objects_def)
  have "length (shared_objects G) \<le> 1"
    using prepare_shared_objects_length [OF _ _ shared] assms(1,2) kind by (simp add: orders_ok_def few_shared_def)
  then have args: "get_arg (shared_index_args (shared_obj_num G) (Suc i)) ''shared_obj_index'' = 0"
      "get_arg (shared_index_args (shared_obj_num G) (Suc i)) ''obj_index'' = 0" for i
    by (cases "shared_objects G") (auto simp: get_arg_def shared_index_args_def shared_obj_num_def)
  show ?thesis
    by (rule generate_eq) (use off args \<open>length (shared_objects G) \<le> 1\<close> in
      \<open>simp add: MoveGenerator generate_with_def shared_num_of_def original_generate_with_def original_of_def shared_step_single
        MoveTx_generate_tx_def original_generate_tx_def to_original_def erc20_step_def kitty_step_def land_step_def\<close>)
next
  case (PublishGenerator cp)
  show ?thesis
    by (rule generate_eq) (simp add: PublishGenerator generate_with_def shared_num_of_def original_generate_with_def original_of_def
        PackagePublish_generate_tx_def original_package_publish_def)
qed

lemma generated_eq:
  assumes "orders_ok R" and "few_shared w"
  shows "rbind (create_tx_generator A P F D R d (embed_workload w) ctx0) (\<lambda>(gen, ctx).
      rbind (generate_transactions (generate_with P gen) (shared_num_of gen) (tx_compl R) (random_values R) ctx) (\<lambda>txs.
      h txs (validator ctx))) =
    rbind (original_create_tx_generator A P F D R d w (original_ctx ctx0)) (\<lambda>(gen, ctx).
      rbind (original_generate_transactions (original_generate_with P gen) (tx_compl R) ctx) (\<lambda>txs.
      h txs (orig_validator ctx)))"
proof (cases "create_tx_generator A P F D R d (embed_workload w) ctx0")
  case (Inl e)
  then show ?thesis unfolding create_tx_generator_eq [symmetric] by (simp add: map_ctx_def)
next
  case (Inr p)
  then obtain gen ctx where p: "create_tx_generator A P F D R d (embed_workload w) ctx0 = Inr (gen, ctx)" by (cases p) simp
  show ?thesis unfolding create_tx_generator_eq [symmetric] p
    by (simp add: map_ctx_def embedded_generator [OF assms p] original_simps)
qed

text \<open>Execution: the same when the schedule keeps the order, or when nothing is shared.\<close>

definition in_order_or_owned where
  "in_order_or_owned A R \<longleftrightarrow> (\<forall>certs. cert_order R certs = certs) \<or> (\<forall>cert. \<not> contains_shared_object A cert)"

lemma transaction_execution_eq:
  assumes "in_order_or_owned A R"
  shows "benchmark_transaction_execution A C component (cert_order R) compl certs b v =
    original_transaction_execution A C component (cert_order R) compl certs b v"
proof (cases "\<forall>cert. \<not> contains_shared_object A cert")
  case True
  then have "\<not> list_ex (contains_shared_object A) xs" for xs by (simp add: list_ex_iff)
  then show ?thesis by (simp add: benchmark_transaction_execution_def original_transaction_execution_def execute_all_def)
next
  case False
  with assms have "cert_order R xs = xs" for xs by (auto simp: in_order_or_owned_def)
  then show ?thesis unfolding benchmark_transaction_execution_def original_transaction_execution_def execute_all_def spawn_all_def
    by (intro rbind_cong refl) (simp add: rbind_assoc split_def)
qed

text \<open>
  C17. The modified benchmark refines the unmodified one: with the options of the old command line,
  no files and at most one shared object, a run measures the same number of transactions and leaves
  the validator in the same state as a run of the unmodified program, panics included, provided that
  certificates execute in their order or have no shared objects. The proviso is needed because the
  modified program no longer executes certificates with shared objects in order; the bound on the
  shared objects because a transaction of the unmodified program uses all of them and one of the
  modified program a single one.
\<close>

theorem run_benchmark_refines_original:
  assumes "orders_ok R" and "few_shared w" and "in_order_or_owned A R"
  shows "run_benchmark A P S E C F D K W R T keys admin_key order order' open_csv dg d (embed_workload w) component csize b skip [] [] =
    original_run_benchmark A P S E C F D K W R T keys order dg d w component csize b skip"
proof -
  let ?rest = "\<lambda>transactions v.
    if component = TxnSigning then benchmark_transaction_signing A (tx_order R) (resp_compl R) transactions b v
    else rbind (certify_transactions C (tx_order R) (cert_compl R) transactions skip v) (\<lambda>(certs, v1).
      rbind (assigned_shared_object_versions A certs v1) (\<lambda>v2.
      case component of
        CheckpointExecutor \<Rightarrow> benchmark_checkpoint_executor A S E C F K W dg (cert_order R) (eff_compl R) certs csize v2
      | ExecutionOnly \<Rightarrow> rbind (benchmark_transaction_execution_in_memory A S E C (cert_order R) (eff_compl R) certs b v2)
          (\<lambda>(n, reads, v3). Inr (n, v3))
      | _ \<Rightarrow> original_transaction_execution A C component (cert_order R) (eff_compl R) certs b v2))"
  have comp: "run_component A P S E C F K W R dg gen component csize b skip transactions ctx = ?rest transactions (authority (validator ctx))"
    for gen transactions ctx
    by (cases component) (simp_all add: run_component_def Let_def transaction_execution_eq [OF assms(3)])
  have new: "rbind (original_new A T keys order w component b) h =
      rbind (BenchmarkContext_new A T keys admin_key order order' open_csv (embed_workload w) component b []) (\<lambda>ctx. h (original_ctx ctx))" for h
    using arg_cong [OF original_new_eq [of A T keys admin_key order order' open_csv w component b], of "\<lambda>r. rbind r (\<lambda>(u, ctx). h ctx)"]
    by (simp add: map_ctx_rbind rbind_assoc split_def)
  show ?thesis
    unfolding run_benchmark_def original_run_benchmark_def new Let_def comp
    by (rule rbind_cong [OF refl]) (simp add: generated_eq [OF assms(1,2), where h = "\<lambda>txs v. ?rest txs (authority v)"])
qed


definition old_workload :: OriginalWorkload where
  "old_workload = \<lparr> orig_tx_count = 3, orig_workload_kind = OriginalPTB \<lparr> oopt_num_transfers = 0, oopt_use_native_transfer = False,
     oopt_num_dynamic_fields = 0, oopt_computation = 0, oopt_num_shared_objects = 0 \<rparr> \<rparr>"

theorem run_benchmark_refines_original_witness:
  "\<forall>S E D K W dg d. \<exists>n v. original_run_benchmark mini_authority mini_tx_ops S E mini_certify mini_effects D K W mini_orders byte_types
     (\<lambda>i. (i, ())) rev dg d old_workload Baseline 1 False False = Inr (n, v)"
proof (intro allI, goal_cases)
  case (1 S E D K W dg d)
  have w: "embed_workload old_workload = plain_workload 3"
    by (simp add: embed_workload_def old_workload_def plain_workload_def plain_options_def)
  have few: "few_shared old_workload" by (simp add: few_shared_def old_workload_def)
  have ord: "in_order_or_owned mini_authority mini_orders" by (simp add: in_order_or_owned_def mini_authority_def)
  obtain n v where "run_benchmark mini_authority mini_tx_ops S E mini_certify mini_effects D K W mini_orders byte_types
     (\<lambda>i. (i, ())) (9, ()) rev id no_csv dg d (plain_workload 3) Baseline 1 False False [] [] = Inr (n, v)"
    using mini_run by blast
  then show ?case
    by (simp add: run_benchmark_refines_original [OF mini_orders_ok few ord, unfolded w])
qed


end
