(* ===== verification/Sui_Contracts.thy ===== *)
theory Sui_Contracts
  imports Move_Language
begin

text \<open>
  The Move package of the Sui workloads, \<^verbatim>\<open>move_package/sources/{benchmark,kitty,million_pixel}.move\<close>.

  \<^item> \<open>derive\<close> is the parameter for the IDs of \<open>object::new\<close>: the n-th ID of a transaction.
  \<^item> Objects are maps from IDs, with an owner for each; a dynamic field is found by the ID of its
    parent and its name.
  \<^item> An entry function returns the objects it leaves, with the transaction context, or an abort.
    Transfers and sharing set the owner. A function that takes an object by value or by reference
    is given its ID, and aborts with that of a missing resource when there is no such object.
  \<^item> Coins belong to the framework: their type is a parameter, and so is \<open>coin_split\<close>, which returns
    the coin left, the ID and the value of the coin split off, and the context.
\<close>

section \<open>Objects\<close>

datatype 'addr SuiOwner = OwnedBy 'addr | SharedBy

record ('h, 'addr) TxContext =
  ctx_sender :: 'addr
  tx_hash :: 'h
  ids_created :: nat

definition object_new :: "('h \<Rightarrow> nat \<Rightarrow> 'id) \<Rightarrow> ('h, 'addr) TxContext \<Rightarrow> 'id \<times> ('h, 'addr) TxContext" where
  "object_new derive ctx = (derive (tx_hash ctx) (ids_created ctx), ctx\<lparr>ids_created := Suc (ids_created ctx)\<rparr>)"

record Child =
  field1 :: u64
  field2 :: string

record 'id SuiKitty =
  gene_object :: 'id
  kitty_gene :: "128 word"
  matronId :: 'id
  sireId :: 'id

record 'addr SuiLand =
  sui_land_owner :: 'addr
  sui_land_x :: u16
  sui_land_y :: u16

record ('id, 'addr, 'coin) SuiObjects =
  coins_of :: "'id \<rightharpoonup> 'coin"
  object_owner :: "'id \<rightharpoonup> 'addr SuiOwner"
  child_counts :: "'id \<rightharpoonup> u64"
  dynamic_fields :: "'id \<times> u64 \<rightharpoonup> Child"
  shared_counters :: "'id \<rightharpoonup> u64"
  gene_objects_of :: "'id \<rightharpoonup> 128 word"
  kitty_objects_of :: "'id \<rightharpoonup> 'id SuiKitty"
  land_objects_of :: "'id \<rightharpoonup> 'addr SuiLand"
  land_records :: "'id \<rightharpoonup> (u32 \<rightharpoonup> 'id)"

section \<open>benchmark.move\<close>

definition transfer_coin where
  "transfer_coin coin_id ctx s =
     rbind (borrow_global (coins_of s) coin_id) (\<lambda>_.
     Inr (s\<lparr>object_owner := (object_owner s)(coin_id \<mapsto> OwnedBy (ctx_sender ctx))\<rparr>))"

text \<open>The loop of \<open>run_computation\<close>, with \<open>num\<close> rounds left.\<close>

definition COMPUTATION_LIMIT :: u64 where "COMPUTATION_LIMIT = 1000000000000000000"

fun computation_loop :: "nat \<Rightarrow> u64 list \<Rightarrow> u64 list mres" where
  "computation_loop 0 results = Inr results"
| "computation_loop (Suc num) results =
     (if length results < 2 then Inl ArithmeticError
      else
        rbind (vector_borrow results (length results - 1)) (\<lambda>last1.
        rbind (vector_borrow results (length results - 2)) (\<lambda>second_last.
        rbind (arith (add_c last1 second_last)) (\<lambda>total.
        computation_loop num (results @ [if COMPUTATION_LIMIT \<le> total then total mod COMPUTATION_LIMIT else total])))))"

definition run_computation :: "u64 \<Rightarrow> u64 list mres" where
  "run_computation num = computation_loop (unat num) [1, 1]"

text \<open>A dynamic field is added and borrowed like the entry of a table.\<close>

definition add_child where
  "add_child root fs i =
     table_add fs (root, word_of_nat i) \<lparr> field1 = word_of_nat i, field2 = ''a string'' \<rparr>"

definition generate_dynamic_fields where
  "generate_dynamic_fields derive num ctx s =
     (let (root, ctx') = object_new derive ctx
      in rbind (foldM (add_child root) (dynamic_fields s) [0..<unat num]) (\<lambda>fs.
         Inr (root, s\<lparr>dynamic_fields := fs, child_counts := (child_counts s)(root \<mapsto> num),
                     object_owner := (object_owner s)(root \<mapsto> OwnedBy (ctx_sender ctx))\<rparr>, ctx')))"

definition read_child where
  "read_child root fs i =
     rbind (table_borrow fs (root, word_of_nat i)) (\<lambda>child. assert_code (field1 child = word_of_nat i) 0)"

definition read_dynamic_fields where
  "read_dynamic_fields root s =
     rbind (borrow_global (child_counts s) root) (\<lambda>child_count.
     foldM (\<lambda>_ i. read_child root (dynamic_fields s) i) () [0..<unat child_count])"

definition create_shared_counter where
  "create_shared_counter derive ctx s =
     (let (counter, ctx') = object_new derive ctx
      in (s\<lparr>shared_counters := (shared_counters s)(counter \<mapsto> 0), object_owner := (object_owner s)(counter \<mapsto> SharedBy)\<rparr>, ctx'))"

definition increment_shared_counter where
  "increment_shared_counter counter s =
     rbind (borrow_global (shared_counters s) counter) (\<lambda>c.
     rbind (arith (add_c c 1)) (\<lambda>c'.
     Inr (s\<lparr>shared_counters := (shared_counters s)(counter \<mapsto> c')\<rparr>)))"

definition split_and_transfer_coin where
  "split_and_transfer_coin coin_split coin_id to amount ctx s =
     rbind (borrow_global (coins_of s) coin_id) (\<lambda>coin.
     rbind (coin_split coin (amount :: u64) ctx) (\<lambda>(coin', new_id, new_coin, ctx').
     Inr (s\<lparr>coins_of := (coins_of s)(coin_id \<mapsto> coin', new_id \<mapsto> new_coin),
            object_owner := (object_owner s)(new_id \<mapsto> OwnedBy to)\<rparr>, ctx')))"

section \<open>kitty.move\<close>

definition sui_sqrt :: "128 word \<Rightarrow> 128 word mres" where
  "sui_sqrt x = move_sqrt x"

text \<open>The product is computed five times; the last one is returned.\<close>

definition generate_gene :: "128 word \<Rightarrow> 128 word \<Rightarrow> 128 word mres" where
  "generate_gene g0 g1 =
     (let product = rbind (sui_sqrt g0) (\<lambda>a. rbind (sui_sqrt g1) (\<lambda>b. arith (mul_c a b)))
      in rbind (foldM (\<lambda>_ _. product) 0 [0..<4]) (\<lambda>_. product))"

definition sui_mint where
  "sui_mint derive zero_id gene ctx s =
     (let (gene_id1, ctx1) = object_new derive ctx; (kitty_id1, ctx2) = object_new derive ctx1
      in (s\<lparr>kitty_objects_of := (kitty_objects_of s)(kitty_id1 \<mapsto>
              \<lparr> gene_object = gene_id1, kitty_gene = gene, matronId = zero_id, sireId = zero_id \<rparr>),
            object_owner := (object_owner s)(kitty_id1 \<mapsto> OwnedBy (ctx_sender ctx))\<rparr>, ctx2))"

definition provide_gene where
  "provide_gene derive kitty_id1 to ctx s =
     (let (gene_id1, ctx') = object_new derive ctx
      in rbind (borrow_global (kitty_objects_of s) kitty_id1) (\<lambda>kitty.
         Inr (s\<lparr>gene_objects_of := (gene_objects_of s)(gene_id1 \<mapsto> kitty_gene kitty),
               object_owner := (object_owner s)(gene_id1 \<mapsto> OwnedBy to)\<rparr>, ctx')))"

text \<open>\<open>breed\<close> takes the gene by value and deletes it; the sire of the new kitty is the gene's ID.\<close>

definition sui_breed where
  "sui_breed derive gene_id1 kitty_id1 ctx s =
     rbind (borrow_global (gene_objects_of s) gene_id1) (\<lambda>gene.
     rbind (borrow_global (kitty_objects_of s) kitty_id1) (\<lambda>kitty.
     rbind (generate_gene (kitty_gene kitty) gene) (\<lambda>new_gene.
     let (new_gene_id, ctx1) = object_new derive ctx; (new_kitty_id, ctx2) = object_new derive ctx1
     in Inr (s\<lparr>gene_objects_of := (gene_objects_of s)(gene_id1 := None),
               kitty_objects_of := (kitty_objects_of s)(new_kitty_id \<mapsto>
                 \<lparr> gene_object = new_gene_id, kitty_gene = new_gene, matronId = kitty_id1, sireId = gene_id1 \<rparr>),
               object_owner := (object_owner s)(gene_id1 := None, new_kitty_id \<mapsto> OwnedBy (ctx_sender ctx))\<rparr>, ctx2))))"

section \<open>million-pixel.move\<close>

definition create_land_records where
  "create_land_records derive ctx s =
     (let (record_id, ctx1) = object_new derive ctx; (table_id, ctx') = object_new derive ctx1
      in (s\<lparr>land_records := (land_records s)(record_id \<mapsto> Map.empty), object_owner := (object_owner s)(record_id \<mapsto> SharedBy)\<rparr>, ctx'))"

definition sui_occupy where
  "sui_occupy derive record_id x y ctx s =
     rbind (pixel_index x y) (\<lambda>key.
     rbind (borrow_global (land_records s) record_id) (\<lambda>lands.
     if lands key = None then
       let (land, ctx') = object_new derive ctx
       in rbind (table_add lands key land) (\<lambda>lands'.
          Inr (s\<lparr>land_records := (land_records s)(record_id \<mapsto> lands'),
                 land_objects_of := (land_objects_of s)(land \<mapsto> \<lparr> sui_land_owner = ctx_sender ctx, sui_land_x = x, sui_land_y = y \<rparr>),
                 object_owner := (object_owner s)(land \<mapsto> OwnedBy (ctx_sender ctx))\<rparr>, ctx'))
     else Inr (s, ctx)))"

section \<open>The computation\<close>

text \<open>The Fibonacci numbers, without a limit.\<close>

fun fibonacci :: "nat \<Rightarrow> nat" where
  "fibonacci 0 = 1"
| "fibonacci (Suc 0) = 1"
| "fibonacci (Suc (Suc n)) = fibonacci (Suc n) + fibonacci n"

definition fibonacci_prefix :: "nat \<Rightarrow> nat list" where
  "fibonacci_prefix n = map (\<lambda>i. fibonacci i mod 10 ^ 18) [0..<n]"

lemma unat_COMPUTATION_LIMIT: "unat COMPUTATION_LIMIT = 10 ^ 18"
  by (simp add: COMPUTATION_LIMIT_def)

text \<open>One round neither overflows nor leaves the residues.\<close>

lemma computation_round:
  fixes a b :: u64
  assumes "unat a < 10 ^ 18" and "unat b < 10 ^ 18"
  shows "\<exists>t. add_c a b = Inr t \<and>
           unat (if COMPUTATION_LIMIT \<le> t then t mod COMPUTATION_LIMIT else t) = (unat a + unat b) mod 10 ^ 18"
proof -
  have small: "unat a + unat b < 2 ^ LENGTH(64)" using assms by simp
  then have "add_c a b = Inr (a + b)" "unat (a + b) = unat a + unat b"
    by (simp_all add: add_c_def unat_word_ariths)
  moreover have "unat (if COMPUTATION_LIMIT \<le> t then t mod COMPUTATION_LIMIT else t) = unat t mod 10 ^ 18" for t
    by (simp add: word_le_nat_alt unat_COMPUTATION_LIMIT unat_mod)
  ultimately show ?thesis by metis
qed

lemma fibonacci_prefix_nth:
  assumes "map unat results = fibonacci_prefix n" and "i < n"
  shows "unat (results ! i) = fibonacci i mod 10 ^ 18" and "length results = n"
proof -
  show len: "length results = n" using arg_cong [OF assms(1), of length] by (simp add: fibonacci_prefix_def)
  have "unat (results ! i) = map unat results ! i" using len assms(2) by simp
  then show "unat (results ! i) = fibonacci i mod 10 ^ 18"
    using assms by (simp add: fibonacci_prefix_def)
qed

lemma computation_loop_ok:
  assumes "map unat results = fibonacci_prefix (Suc (Suc n))"
  shows "\<exists>rs. computation_loop num results = Inr rs \<and> map unat rs = fibonacci_prefix (num + Suc (Suc n))"
  using assms
proof (induction num arbitrary: n results)
  case 0
  then show ?case by simp
next
  case (Suc num)
  note at = fibonacci_prefix_nth [OF Suc.prems]
  have len: "length results = Suc (Suc n)" by (rule at(2) [of 0]) simp
  have a: "unat (results ! Suc n) = fibonacci (Suc n) mod 10 ^ 18" by (rule at(1)) simp
  have b: "unat (results ! n) = fibonacci n mod 10 ^ 18" by (rule at(1)) simp
  have "unat (results ! Suc n) < 10 ^ 18" "unat (results ! n) < 10 ^ 18" by (simp_all only: a b) simp_all
  from computation_round [OF this] obtain t where t: "add_c (results ! Suc n) (results ! n) = Inr t"
    and v: "unat (if COMPUTATION_LIMIT \<le> t then t mod COMPUTATION_LIMIT else t) =
      (unat (results ! Suc n) + unat (results ! n)) mod 10 ^ 18" by blast
  let ?v = "if COMPUTATION_LIMIT \<le> t then t mod COMPUTATION_LIMIT else t"
  have "unat ?v = fibonacci (Suc (Suc n)) mod 10 ^ 18" by (simp only: v a b mod_add_eq fibonacci.simps)
  with Suc.prems have "map unat (results @ [?v]) = fibonacci_prefix (Suc (Suc (Suc n)))"
    by (simp add: fibonacci_prefix_def del: fibonacci.simps)
  from Suc.IH [OF this] len t show ?case by (simp add: vector_borrow_def)
qed

text \<open>C36. \<open>run_computation\<close> never aborts: its vector ends up holding \<open>num + 2\<close> entries, which are the
  Fibonacci numbers modulo \<open>10\<^sup>18\<close>; no sum overflows 64 bits.\<close>

theorem run_computation_spec:
  "\<exists>rs. run_computation num = Inr rs \<and> map unat rs = fibonacci_prefix (unat num + 2)"
  using computation_loop_ok [of "[1, 1]" 0 "unat num"]
  by (simp add: run_computation_def fibonacci_prefix_def)

section \<open>Dynamic fields\<close>

text \<open>Below the bound of the loop two counters are different words.\<close>

lemma counter_word_eq:
  assumes "i < unat (num :: u64)" and "j < unat num" and "(word_of_nat i :: u64) = word_of_nat j"
  shows "i = j"
proof -
  have "unat num < 2 ^ LENGTH(64)" by (rule unsigned_less)
  with assms(1,2) have "i < 2 ^ LENGTH(64)" "j < 2 ^ LENGTH(64)" by linarith+
  then have "unat (word_of_nat i :: u64) = i" "unat (word_of_nat j :: u64) = j" by (simp_all add: unsigned_of_nat take_bit_nat_eq_self)
  with assms(3) show ?thesis by metis
qed

definition children_below :: "'id \<Rightarrow> nat \<Rightarrow> ('id \<times> u64 \<rightharpoonup> Child) \<Rightarrow> ('id \<times> u64 \<rightharpoonup> Child) \<Rightarrow> bool" where
  "children_below root n fs0 fs \<longleftrightarrow>
     (\<forall>i<n. fs (root, word_of_nat i) = Some \<lparr> field1 = word_of_nat i, field2 = ''a string'' \<rparr>) \<and>
     (\<forall>k. k \<notin> (\<lambda>i. (root, word_of_nat i)) ` {..<n} \<longrightarrow> fs k = fs0 k)"

lemma add_children_ok:
  assumes "\<And>i. fs0 (root, i) = None" and "n \<le> unat (num :: u64)"
  shows "\<exists>fs. foldM (add_child root) fs0 [0..<n] = Inr fs \<and> children_below root n fs0 fs"
  using assms(2)
proof (induction n)
  case 0
  then show ?case by (simp add: children_below_def)
next
  case (Suc n)
  then obtain fs where fs: "foldM (add_child root) fs0 [0..<n] = Inr fs" "children_below root n fs0 fs" by auto
  have other: "word_of_nat i \<noteq> (word_of_nat n :: u64)" if "i < n" for i
    using counter_word_eq [of i num n] that Suc.prems by auto
  then have "(root, word_of_nat n) \<notin> (\<lambda>i. (root, word_of_nat i :: u64)) ` {..<n}" by force
  with fs(2) assms(1) have "fs (root, word_of_nat n) = None" unfolding children_below_def by metis
  then have "foldM (add_child root) fs0 [0..<Suc n] =
      Inr (fs((root, word_of_nat n) \<mapsto> \<lparr> field1 = word_of_nat n, field2 = ''a string'' \<rparr>))" (is "_ = Inr ?fs")
    using fs(1) by (simp add: foldM_append add_child_def table_add_def)
  moreover have "children_below root (Suc n) fs0 ?fs"
    using fs(2) other by (auto simp: children_below_def less_Suc_eq lessThan_Suc)
  ultimately show ?case by blast
qed

lemma read_children_ok:
  assumes "children_below root n fs0 fs" and "m \<le> n"
  shows "foldM (\<lambda>_ i. read_child root fs i) () [0..<m] = Inr ()"
  using assms(2)
proof (induction m)
  case (Suc m)
  then have "fs (root, word_of_nat m) = Some \<lparr> field1 = word_of_nat m, field2 = ''a string'' \<rparr>"
    using assms(1) by (simp add: children_below_def)
  with Suc show ?case by (simp add: foldM_append read_child_def table_borrow_def assert_code_def)
qed simp

lemma children_below_fields:
  assumes "children_below root (unat num) fs0 fs" and "\<And>i. fs0 (root, i) = None"
  shows "fs (root, i) = (if i < num then Some \<lparr> field1 = i, field2 = ''a string'' \<rparr> else None)"
proof (cases "i < num")
  case True
  then have "unat i < unat num" by (simp add: word_less_nat_alt)
  with assms(1) have "fs (root, word_of_nat (unat i)) = Some \<lparr> field1 = word_of_nat (unat i), field2 = ''a string'' \<rparr>"
    unfolding children_below_def by blast
  with True show ?thesis by simp
next
  case False
  have "(root, i) \<notin> (\<lambda>j. (root, word_of_nat j)) ` {..<unat num}"
  proof
    assume "(root, i) \<in> (\<lambda>j. (root, word_of_nat j)) ` {..<unat num}"
    then obtain j where j: "i = word_of_nat j" "j < unat num" by auto
    then have "unat i \<le> j" by (simp add: unsigned_of_nat)
    with j(2) False show False by (simp add: word_less_nat_alt)
  qed
  with assms False show ?thesis by (simp add: children_below_def)
qed

text \<open>C37. Dynamic fields round trip. When the derived ID of the root has no fields yet, \<open>generate_dynamic_fields\<close>
  succeeds: the root belongs to the sender and counts the \<open>num\<close> requested children; its fields are exactly the
  names below \<open>num\<close>, each with its own name, which reading asserts, and the fixed string; the fields of every other
  object are untouched; and \<open>read_dynamic_fields\<close> of the root then returns.\<close>

theorem dynamic_fields_round_trip:
  assumes "\<And>i. dynamic_fields s (derive (tx_hash ctx) (ids_created ctx), i) = None"
  shows "\<exists>root s' ctx'. generate_dynamic_fields derive num ctx s = Inr (root, s', ctx') \<and>
           object_owner s' root = Some (OwnedBy (ctx_sender ctx)) \<and> child_counts s' root = Some num \<and>
           (\<forall>i. dynamic_fields s' (root, i) =
              (if i < num then Some \<lparr> field1 = i, field2 = ''a string'' \<rparr> else None)) \<and>
           (\<forall>p i. p = root \<or> dynamic_fields s' (p, i) = dynamic_fields s (p, i)) \<and>
           read_dynamic_fields root s' = Inr ()"
proof -
  let ?root = "derive (tx_hash ctx) (ids_created ctx)"
  from add_children_ok [of "dynamic_fields s" ?root "unat num" num, OF assms order_refl] obtain fs where
    fs: "foldM (add_child ?root) (dynamic_fields s) [0..<unat num] = Inr fs"
      "children_below ?root (unat num) (dynamic_fields s) fs" by blast
  have other: "p = ?root \<or> (\<forall>i. fs (p, i) = dynamic_fields s (p, i))" for p
    using fs(2) by (fastforce simp: children_below_def)
  have "fs (?root, i) = (if i < num then Some \<lparr> field1 = i, field2 = ''a string'' \<rparr> else None)" for i
    by (rule children_below_fields [OF fs(2) assms])
  with other fs(1) read_children_ok [OF fs(2) order_refl] show ?thesis
    by (simp add: generate_dynamic_fields_def read_dynamic_fields_def object_new_def borrow_global_def)
qed

definition sui_no_objects :: "(nat, nat, nat) SuiObjects" where
  "sui_no_objects = \<lparr> coins_of = Map.empty, object_owner = Map.empty, child_counts = Map.empty, dynamic_fields = Map.empty,
     shared_counters = Map.empty, gene_objects_of = Map.empty, kitty_objects_of = Map.empty,
     land_objects_of = Map.empty, land_records = Map.empty \<rparr>"

definition sui_tx :: "nat \<Rightarrow> nat \<Rightarrow> (nat, nat) TxContext" where
  "sui_tx sender h = \<lparr> ctx_sender = sender, tx_hash = h, ids_created = 0 \<rparr>"

theorem dynamic_fields_round_trip_witness:
  "\<exists>root s' ctx'. generate_dynamic_fields (\<lambda>h n. 10 * h + n) 3 (sui_tx 7 1) sui_no_objects = Inr (root, s', ctx') \<and>
     object_owner s' root = Some (OwnedBy 7) \<and> child_counts s' root = Some 3 \<and>
     dynamic_fields s' (root, 2) = Some \<lparr> field1 = 2, field2 = ''a string'' \<rparr> \<and> dynamic_fields s' (root, 3) = None \<and>
     read_dynamic_fields root s' = Inr ()"
proof -
  have "\<And>i. dynamic_fields sui_no_objects (10 * tx_hash (sui_tx 7 1) + ids_created (sui_tx 7 1), i) = None"
    by (simp add: sui_no_objects_def)
  from dynamic_fields_round_trip [of sui_no_objects "\<lambda>h n. 10 * h + n", OF this, of 3] show ?thesis
    by (auto simp: sui_tx_def)
qed

section \<open>Kitties\<close>

lemma generate_gene_product: "generate_gene g0 g1 = genes_product g0 g1"
  by (cases "genes_product g0 g1") (simp_all add: generate_gene_def genes_product_def [symmetric] sui_sqrt_def Let_def upt_rec)

text \<open>C38. Breeding. With a gene and a kitty whose genes are not the largest word, \<open>breed\<close> succeeds: the gene
  object is gone, the sender owns a new kitty whose gene is the product of the integer square roots and whose
  parents are the kitty and the gene, and breeding with the same gene again fails. The new kitty's
  ID is the second of the transaction.\<close>

theorem sui_breed_consumes_gene:
  assumes "gene_objects_of s g = Some gene" and "kitty_objects_of s k = Some kitty"
    and "gene \<noteq> -1" and "kitty_gene kitty \<noteq> -1"
    and "new_id = derive (tx_hash ctx) (Suc (ids_created ctx))"
  shows "\<exists>s' ctx' baby p q. sui_breed derive g k ctx s = Inr (s', ctx') \<and>
           gene_objects_of s' = (gene_objects_of s)(g := None) \<and>
           kitty_objects_of s' new_id = Some baby \<and> object_owner s' new_id = Some (OwnedBy (ctx_sender ctx)) \<and>
           is_isqrt (unat (kitty_gene kitty)) p \<and> is_isqrt (unat gene) q \<and> unat (kitty_gene baby) = p * q \<and>
           matronId baby = k \<and> sireId baby = g \<and> sui_breed derive g k ctx' s' = Inl MissingData"
proof -
  from genes_product_ok [of 64 "kitty_gene kitty" gene] assms(3,4) obtain r p q where
    r: "genes_product (kitty_gene kitty) gene = Inr r" "is_isqrt (unat (kitty_gene kitty)) p"
      "is_isqrt (unat gene) q" "unat r = p * q" by auto
  with assms(1,2,5) show ?thesis
    by (intro exI [of _ p] exI [of _ q] exI)
      (auto simp: sui_breed_def borrow_global_def generate_gene_product object_new_def Let_def)
qed


definition sui_kitty_objects :: "(nat, nat, nat) SuiObjects" where
  "sui_kitty_objects = sui_no_objects\<lparr>gene_objects_of := [5 \<mapsto> 17],
     kitty_objects_of := [6 \<mapsto> \<lparr> gene_object = 4, kitty_gene = 26, matronId = 0, sireId = 0 \<rparr>]\<rparr>"

theorem sui_breed_consumes_gene_witness:
  "\<exists>s' ctx' baby p q. sui_breed (\<lambda>h n. 10 * h + n) 5 6 (sui_tx 7 1) sui_kitty_objects = Inr (s', ctx') \<and>
     kitty_objects_of s' 11 = Some baby \<and> is_isqrt 26 p \<and> is_isqrt 17 q \<and> unat (kitty_gene baby) = p * q \<and>
     sui_breed (\<lambda>h n. 10 * h + n) 5 6 ctx' s' = Inl MissingData"
proof -
  have "gene_objects_of sui_kitty_objects 5 = Some 17"
    "kitty_objects_of sui_kitty_objects 6 = Some \<lparr> gene_object = 4, kitty_gene = 26, matronId = 0, sireId = 0 \<rparr>"
    by (simp_all add: sui_kitty_objects_def)
  from sui_breed_consumes_gene [OF this, of 11 "\<lambda>h n. 10 * h + n" "sui_tx 7 1"] show ?thesis
    by (simp add: sui_tx_def) blast
qed

section \<open>Lands\<close>

definition recorded_owner where
  "recorded_owner s record_id x y =
     (case (land_records s record_id, pixel_index x y) of
        (Some lands, Inr key) \<Rightarrow> Option.bind (lands key) (\<lambda>land. map_option sui_land_owner (land_objects_of s land))
      | _ \<Rightarrow> None)"

text \<open>A shared record is sound when the lands it lists exist; a transaction is fresh for it when the ID it
  would derive is not listed.\<close>

definition record_sound where
  "record_sound s record_id \<longleftrightarrow>
     (\<exists>lands. land_records s record_id = Some lands \<and> (\<forall>key land. lands key = Some land \<longrightarrow> land_objects_of s land \<noteq> None))"

definition fresh_for where
  "fresh_for s record_id land \<longleftrightarrow> (\<forall>lands key. land_records s record_id = Some lands \<longrightarrow> lands key \<noteq> Some land)"

lemma pixel_index_eq_iff:
  assumes "pixel_index x' y' = Inr i" and "pixel_index x y = Inr j"
  shows "i = j \<longleftrightarrow> x' = x \<and> y' = y"
proof
  assume "i = j"
  with pixel_index_inj [OF assms(1), of x y] assms(2) show "x' = x \<and> y' = y" by simp
next
  assume "x' = x \<and> y' = y"
  with assms show "i = j" by simp
qed

lemma sui_occupy_ok:
  assumes "record_sound s r" and "fresh_for s r (derive (tx_hash ctx) (ids_created ctx))"
  shows "\<exists>s' ctx'. sui_occupy derive r x y ctx s = Inr (s', ctx') \<and> record_sound s' r \<and>
    (\<forall>land. fresh_for s r land \<longrightarrow> land \<noteq> derive (tx_hash ctx) (ids_created ctx) \<longrightarrow> fresh_for s' r land) \<and>
    (\<forall>x' y'. recorded_owner s' r x' y' =
      (if recorded_owner s r x' y' = None \<and> x' = x \<and> y' = y then Some (ctx_sender ctx) else recorded_owner s r x' y'))"
proof -
  let ?id = "derive (tx_hash ctx) (ids_created ctx)"
  from assms(1) obtain lands where lands: "land_records s r = Some lands"
    and exist: "\<And>key land. lands key = Some land \<Longrightarrow> land_objects_of s land \<noteq> None" by (auto simp: record_sound_def)
  have new: "lands key \<noteq> Some ?id" for key using assms(2) lands by (simp add: fresh_for_def)
  obtain j where j: "pixel_index x y = Inr j" using pixel_index_ok by blast
  have owner: "recorded_owner s r x' y' = Option.bind (lands i) (\<lambda>land. map_option sui_land_owner (land_objects_of s land))"
    if "pixel_index x' y' = Inr i" for x' y' i using that lands by (simp add: recorded_owner_def)
  show ?thesis
  proof (cases "lands j")
    case None
    let ?s = "s\<lparr>land_records := (land_records s)(r \<mapsto> lands(j \<mapsto> ?id)),
      land_objects_of := (land_objects_of s)(?id \<mapsto> \<lparr> sui_land_owner = ctx_sender ctx, sui_land_x = x, sui_land_y = y \<rparr>),
      object_owner := (object_owner s)(?id \<mapsto> OwnedBy (ctx_sender ctx))\<rparr>"
    have "recorded_owner ?s r x' y' =
      (if recorded_owner s r x' y' = None \<and> x' = x \<and> y' = y then Some (ctx_sender ctx) else recorded_owner s r x' y')" for x' y'
    proof -
      obtain i where i: "pixel_index x' y' = Inr i" using pixel_index_ok by blast
      have same: "i = j \<longleftrightarrow> x' = x \<and> y' = y" by (rule pixel_index_eq_iff [OF i j])
      have "recorded_owner ?s r x' y' = (if i = j then Some (ctx_sender ctx) else recorded_owner s r x' y')"
        using i new [of i] owner [OF i] by (cases "lands i") (auto simp: recorded_owner_def)
      with same None owner [OF i] show ?thesis by (cases "i = j") simp_all
    qed
    moreover have "record_sound ?s r" using exist by (auto simp: record_sound_def)
    moreover have "fresh_for ?s r land" if "fresh_for s r land" "land \<noteq> ?id" for land
      using that lands by (auto simp: fresh_for_def)
    ultimately show ?thesis using j lands None by (simp add: sui_occupy_def borrow_global_def object_new_def table_add_def)
  next
    case (Some land)
    then have "recorded_owner s r x y \<noteq> None" using owner [OF j] exist [OF Some] by auto
    then show ?thesis using assms(1) j lands Some by (auto simp: sui_occupy_def borrow_global_def)
  qed
qed

text \<open>The transactions of the workload, each with its context and pixel, one after the other.\<close>

definition occupy_tx where
  "occupy_tx derive record_id s t = (case t of (ctx, x, y) \<Rightarrow> map_sum id fst (sui_occupy derive record_id x y ctx s))"

fun first_sender where
  "first_sender x y [] = None"
| "first_sender x y ((ctx, x', y') # ts) = (if x' = x \<and> y' = y then Some (ctx_sender ctx) else first_sender x y ts)"

definition derived_id where
  "derived_id derive t = derive (tx_hash (fst t)) (ids_created (fst t))"

lemma occupy_txs_ok:
  assumes "record_sound s r" and "distinct (map (derived_id derive) ts)"
    and "\<forall>t \<in> set ts. fresh_for s r (derived_id derive t)"
  shows "\<exists>s'. foldM (occupy_tx derive r) s ts = Inr s' \<and>
    (\<forall>x y. recorded_owner s' r x y = (case recorded_owner s r x y of None \<Rightarrow> first_sender x y ts | Some a \<Rightarrow> Some a))"
  using assms
proof (induction ts arbitrary: s)
  case Nil
  then show ?case by (auto split: option.split)
next
  case (Cons t ts)
  obtain ctx x y where t: "t = (ctx, x, y)" by (cases t)
  have "fresh_for s r (derive (tx_hash ctx) (ids_created ctx))" using Cons.prems(3) by (simp add: t derived_id_def)
  from sui_occupy_ok [of s r derive ctx x y, OF Cons.prems(1) this] obtain s1 ctx1 where
    s1: "sui_occupy derive r x y ctx s = Inr (s1, ctx1)" "record_sound s1 r"
      "\<forall>land. fresh_for s r land \<longrightarrow> land \<noteq> derived_id derive t \<longrightarrow> fresh_for s1 r land"
      "\<forall>x' y'. recorded_owner s1 r x' y' =
        (if recorded_owner s r x' y' = None \<and> x' = x \<and> y' = y then Some (ctx_sender ctx) else recorded_owner s r x' y')"
    by (auto simp: t derived_id_def)
  have "\<forall>u \<in> set ts. fresh_for s1 r (derived_id derive u)"
  proof
    fix u assume u: "u \<in> set ts"
    with Cons.prems(2) have "derived_id derive u \<noteq> derived_id derive t" by (auto simp: rev_image_eqI)
    with s1(3) Cons.prems(3) u show "fresh_for s1 r (derived_id derive u)" by simp
  qed
  from Cons.IH [OF s1(2) _ this] Cons.prems(2) obtain s' where run: "foldM (occupy_tx derive r) s1 ts = Inr s'"
    and owners: "\<And>x y. recorded_owner s' r x y = (case recorded_owner s1 r x y of None \<Rightarrow> first_sender x y ts | Some a \<Rightarrow> Some a)" by auto
  have "occupy_tx derive r s t = Inr s1" using s1(1) by (simp add: t occupy_tx_def)
  with run have "foldM (occupy_tx derive r) s (t # ts) = Inr s'" by simp
  moreover have "recorded_owner s' r x' y' =
      (case recorded_owner s r x' y' of None \<Rightarrow> first_sender x' y' (t # ts) | Some a \<Rightarrow> Some a)" for x' y'
    using s1(4) by (cases "recorded_owner s r x' y'") (auto simp: owners t)
  ultimately show ?case by blast
qed

text \<open>C35. Lands on Sui. After \<open>create_land_records\<close>, in any sequence of \<open>occupy\<close> transactions on the new record
  whose land IDs are distinct, every transaction succeeds and every pixel belongs to the
  sender of the first transaction for it; other pixels and later transactions do not interfere.\<close>

theorem sui_occupy_first_wins:
  assumes "create_land_records derive ctx s = (s0, ctx0)" and "r = derive (tx_hash ctx) (ids_created ctx)"
    and "distinct (map (derived_id derive) ts)"
  shows "\<exists>s'. foldM (occupy_tx derive r) s0 ts = Inr s' \<and> object_owner s0 r = Some SharedBy \<and>
    (\<forall>x y. recorded_owner s' r x y = first_sender x y ts)"
proof -
  have r: "land_records s0 r = Some Map.empty" "object_owner s0 r = Some SharedBy"
    using assms(1,2) by (auto simp: create_land_records_def object_new_def)
  then have "record_sound s0 r" "\<forall>t \<in> set ts. fresh_for s0 r (derived_id derive t)"
    "recorded_owner s0 r x y = None" for x y
    by (auto simp: record_sound_def fresh_for_def recorded_owner_def split: sum.split)
  with occupy_txs_ok [of s0 r derive ts] assms(3) r(2) show ?thesis by auto
qed

theorem sui_occupy_first_wins_witness:
  "\<exists>s0 ctx0 s'. create_land_records (\<lambda>h n. 10 * h + n) (sui_tx 7 1) sui_no_objects = (s0, ctx0) \<and>
     foldM (occupy_tx (\<lambda>h n. 10 * h + n) 10) s0 [(sui_tx 8 2, 3, 4), (sui_tx 9 3, 3, 4)] = Inr s' \<and>
     recorded_owner s' 10 3 4 = Some 8"
proof -
  obtain s0 ctx0 where c: "create_land_records (\<lambda>h n. 10 * h + n) (sui_tx 7 1) sui_no_objects = (s0, ctx0)"
    by (cases "create_land_records (\<lambda>h n. 10 * h + n) (sui_tx 7 1) sui_no_objects")
  from sui_occupy_first_wins [OF c refl, of "[(sui_tx 8 2, 3, 4), (sui_tx 9 3, 3, 4)]"] c show ?thesis
    by (auto simp: sui_tx_def derived_id_def)
qed

end
