(* ===== verification/Spec2Isabelle.thy ===== *)
theory Spec2Isabelle
  imports Block_Results Executor_Results Simulator_Results Sui_Properties Sui_Memory Contract_Results Sui_Original Sui_Contracts
begin

text \<open>
  \<^bold>\<open>A model of the blockchain test suites and its correctness.\<close>

  The repository holds modified versions of blockchain software and the programs that measure it with
  transaction workloads. Modelled are the Rust programs for Aptos and Sui and the Move contracts they call.

  \<^bold>\<open>Parts of the program and where they are modelled.\<close> Paths are below \<^verbatim>\<open>src/codes\<close>.

  \<^item> Language. \<open>Rust_Prelude\<close>: panics and results (\<open>res\<close>, \<open>rbind\<close>), checked machine arithmetic, loops.
    \<open>Rust_Collections\<close>: \<open>BTreeMap\<close> and \<open>HashMap\<close>, tasks in any order of completion. \<open>Move_Language\<close>:
    aborts, global storage, vectors and tables of Move, and the integer square root and pixel key that
    contracts of both chains compute.
  \<^item> Account universe (\<^verbatim>\<open>aptos/modified/e2e-tests/src/account_universe.rs\<close>,
    \<^verbatim>\<open>account_universe/universe.rs\<close>): \<open>Account_Universe\<close>, the record of accounts, the pickers and the
    strategies. Transfers between its accounts (\<^verbatim>\<open>peer_to_peer.rs\<close>, \<^verbatim>\<open>common_transactions.rs\<close>):
    \<open>Peer_To_Peer\<close>, whose generator interprets the locale \<open>AUTransactionGen\<close>.
  \<^item> Block executor (\<^verbatim>\<open>aptos/modified/block-executor/src/executor.rs\<close>): \<open>Block_Execute\<close> (one speculative
    execution and its validation), \<open>Block_Commit\<close> (commit loop, materialisation, workers as the step
    relation \<open>par_step\<close>), \<open>Block_Sequential\<close> (sequential execution and \<open>execute_block\<close>). Their
    theorems are in \<open>Block_Execute\<close>, \<open>Block_Parallel\<close> and \<open>Block_Results\<close>.
  \<^item> End-to-end test executor (\<^verbatim>\<open>aptos/modified/e2e-tests/src/executor.rs\<close>) and the universe test drivers:
    \<open>Fake_Executor\<close>, with theorems in \<open>Executor_Results\<close>.
  \<^item> Aptos benchmark (\<^verbatim>\<open>aptos/modified/aptos-transaction-benchmarks/src/{simulator,main}.rs\<close>): \<open>Simulator\<close>
    and \<open>Simulator_Results\<close>. Every kind of transaction interprets the locale \<open>workload_step\<close>.
  \<^item> Aptos contracts (\<^verbatim>\<open>aptos/modified/move-contracts\<close>): \<open>Aptos_Contracts\<close>, one function per Move function on
    the record \<open>GlobalStorage\<close>. \<open>Contract_Results\<close> runs the transactions of the simulator on them.
  \<^item> Sui benchmark (\<^verbatim>\<open>sui/modified/sui-single-node-benchmark/src\<close>): \<open>Sui_Accounts\<close> (\<^verbatim>\<open>mock_account.rs\<close>,
    \<^verbatim>\<open>csv.rs\<close>), \<open>Sui_Store\<close> (\<^verbatim>\<open>mock_storage.rs\<close>, locale \<open>object_store\<close>), \<open>Sui_Generators\<close>
    (\<^verbatim>\<open>tx_generator\<close>, locale \<open>TxGenerator\<close> interpreted by all generators), \<open>Sui_Node\<close> (\<^verbatim>\<open>single_node.rs\<close>,
    \<^verbatim>\<open>mock_consensus.rs\<close>), \<open>Sui_Bench\<close> (\<^verbatim>\<open>command.rs\<close>, \<^verbatim>\<open>workload.rs\<close>, \<^verbatim>\<open>benchmark_context.rs\<close>, \<^verbatim>\<open>lib.rs\<close>,
    \<^verbatim>\<open>main.rs\<close>). Theorems about whole runs are in \<open>Sui_Results\<close>, \<open>Sui_Properties\<close> and \<open>Sui_Memory\<close>.
  \<^item> Sui Move package (\<^verbatim>\<open>move_package/sources\<close>): \<open>Sui_Contracts\<close>.
  \<^item> The unmodified Sui benchmark (\<^verbatim>\<open>sui/original/sui-single-node-benchmark/src\<close>): \<open>Sui_Original\<close>.

  \<^bold>\<open>How the parts interact.\<close> The simulator and the universe tests draw transactions from an account universe
  and hand them to the block executor through the test executor; the contracts run under the VM. The Sui
  driver creates accounts, publishes the Move package, prepares objects, generates and certifies
  transactions and hands them to a validator or, in memory, to the object store.

  \<^bold>\<open>What is shown.\<close>

  \<^item> Account universe: pairs are ordered and distinct, the limited picker keeps its budget, the balance
    ranges tile their interval, and transfers conserve coins, number transactions consecutively and, with
    the success strategy, all succeed.
  \<^item> Block executor: what a speculative execution leaves in the multi-version cache, the invariant on
    modified keys, the outcome of a validation, that the commit loop returns and commits in order, that
    every interleaving of the workers returns the table's outputs for the committed prefix and skip outputs
    for the rest, and calls the commit hook once per commit, and the shape of sequential blocks and of
    \<open>execute_block\<close>.
  \<^item> Test executor and simulator: traces can be read back, a passing universe test shows that the store
    conserved coins up to gas, and every workload sends consecutive sequence numbers. Replaying a graph panics
    exactly for an unknown account or when the 64-bit sequence numbers run out.
  \<^item> Contracts: the airdrop conserves coins, ballots count every vote, pixels go to the first sender, breeding
    computes the product of integer roots and fails only on an id that a newborn or a minted kitty has taken,
    a root gets exactly the dynamic fields that were asked for and reading them back returns, and
    \<open>run_computation\<close> neither aborts nor overflows. The ballot's \<open>finalize\<close> always elects proposal 0.
  \<^item> Sui: accounts and objects are created with distinct IDs in any task order, the store refines a lookup
    specification while its package cache agrees with the objects, generated transactions have
    exactly the commands of the workload, in-memory execution of disjoint transactions does not depend on
    the order, whatever packages are cached, the measured section has a known length, and the modified benchmark refines the unmodified one on the options both have, with at most one shared object.

  \<^bold>\<open>Modelling choices, bounds and fuel.\<close>

  \<^item> A panic, a failed assertion and an overflow are values; arithmetic is that of a build with overflow
    checks. \<open>usize\<close> and transaction indices are natural numbers where the source only compares,
    increments and indexes with them.
  \<^item> \<open>log_balance_strategy\<close> runs on fuel 65: its bound doubles at each pass and stays below \<open>2\<^sup>6\<^sup>4\<close>; the theorem
    on it shows that it returns. The commit loop has fuel for one pass per transaction and one more, which
    \<open>commit_loop_in_order\<close> shows to be enough. The Newton iteration is total by a measure.
  \<^item> Code outside the repository (VM, scheduler, multi-version map, authority, data store, serialisers, random
    numbers, clocks) is a parameter: a record of functions on an abstract state. What the code relies on is a
    named predicate, such as \<open>mv_contract\<close> or \<open>commit_contract\<close>, and each has an instance that satisfies it.
    The package cache of the Sui store is state of its own: \<open>cache_contract\<close> says what a hit and a miss return, \<open>cache_agrees\<close>
    that what is cached is what the objects hold, and the theorems start from a store where it does, as it does
    in a new store.
  \<^item> A move of a worker is one call of \<open>prepare_and_queue_commit_ready_txns\<close>, one pop of the commit queue, one
    phase of \<open>materialize_txn_commit\<close> (materialising, calling the hook, storing the output) or one task. Moves of
    different workers interleave freely and a move itself is not interrupted, except by a panic, after which the
    multi-version map, the table, the scheduler and the block limits may hold any part of its effects.
    Tasks of the Sui programs run one at a time in any order.
  \<^item> Contracts run one after the other and without gas: a block in which all transactions succeed is the case
    that the simulator accepts.

  \<^bold>\<open>Not modelled.\<close>

  \<^item> Printing, logging, metrics, tracing set-up and the measured times, except where a result is computed from
    a time. Profiling and the functions that only forward a call to a library.
  \<^item> The Sei application and its benchmark (\<^verbatim>\<open>sei\<close>, Go and Solidity): block processing over cosmos-sdk and the EVM,
    neither of which is in the repository. The development is restricted to the Rust programs and the
    contracts they call.
  \<^item> PREDA and Crystality workloads: contracts and scripts in languages whose semantics the repository does
    not define, for an engine that it does not contain.
  \<^item> The tests of the Sui benchmarks and their packages, which have empty functions; shell and plotting
    scripts; data and recorded results.
\<close>

end
